(* ===== verification/Rust_Prelude.thy ===== *)
theory Rust_Prelude
  imports Main "HOL-Library.Word"
begin

text \<open>
  What every component shares: the outcome of a Rust call (a value, an error returned with
  \<open>Err\<close>, or a panic), operations that thread a \<open>&mut self\<close> through such calls and the \<open>?\<close>
  operator that sequences them, checked slices, big and little endian bytes, the fixed-capacity
  vectors of the \<open>heapless\<close> crate, UTF-8 validity and decimal formatting of unsigned integers.

  Conventions. Integers of the code are words of their width, with the wrapping arithmetic of
  the release profile (\<open>overflow-checks = false\<close> in Cargo.toml). A \<open>usize\<close> that counts or
  indexes bytes of a buffer is a \<open>nat\<close>: slices hold at most \<open>isize::MAX\<close> bytes, and every sum
  the code forms of such values stays below \<open>2^32\<close>, so no \<open>usize\<close> operation wraps.
\<close>

unbundle bit_operations_syntax

type_synonym u8 = "8 word"
type_synonym u16 = "16 word"
type_synonym u32 = "32 word"
type_synonym u64 = "64 word"
type_synonym bytes = "u8 list"

named_theorems op_defs \<open>definitions of the operation combinators\<close>
named_theorems rust_simps \<open>shared rewrite rules of the byte-level library\<close>

section \<open>Outcomes and operations\<close>

datatype ('e, 'a) outcome = Ok 'a | Err 'e | Panic

text \<open>An operation on a state \<open>'s\<close>: the outcome and the state it leaves, also on an error.\<close>

type_synonym ('s, 'e, 'a) op = "'s \<Rightarrow> ('e, 'a) outcome \<times> 's"

definition ret :: "'a \<Rightarrow> ('s, 'e, 'a) op" where
  "ret a = (\<lambda>s. (Ok a, s))"

definition throw :: "'e \<Rightarrow> ('s, 'e, 'a) op" where
  "throw e = (\<lambda>s. (Err e, s))"

definition panic :: "('s, 'e, 'a) op" where
  "panic = (\<lambda>s. (Panic, s))"

text \<open>The \<open>?\<close> operator: go on with the value, or return the error at once.\<close>

definition andq :: "('s, 'e, 'a) op \<Rightarrow> ('a \<Rightarrow> ('s, 'e, 'b) op) \<Rightarrow> ('s, 'e, 'b) op" where
  "andq m f = (\<lambda>s. case m s of
       (Ok a, s') \<Rightarrow> f a s'
     | (Err e, s') \<Rightarrow> (Err e, s')
     | (Panic, s') \<Rightarrow> (Panic, s'))"

abbreviation thenq :: "('s, 'e, 'a) op \<Rightarrow> ('s, 'e, 'b) op \<Rightarrow> ('s, 'e, 'b) op" where
  "thenq m n \<equiv> andq m (\<lambda>_. n)"

text \<open>A pure fallible call used inside an operation.\<close>

definition lift_outcome :: "('e, 'a) outcome \<Rightarrow> ('s, 'e, 'a) op" where
  "lift_outcome x = (\<lambda>s. (x, s))"

fun bind_outcome :: "('e, 'a) outcome \<Rightarrow> ('a \<Rightarrow> ('e, 'b) outcome) \<Rightarrow> ('e, 'b) outcome" where
  "bind_outcome (Ok a) f = f a"
| "bind_outcome (Err e) f = Err e"
| "bind_outcome Panic f = Panic"

text \<open>An \<open>unwrap\<close>: the error and the missing value are panics.\<close>

fun unwrap_result :: "('e, 'a) outcome \<Rightarrow> ('f, 'a) outcome" where
  "unwrap_result (Ok a) = Ok a"
| "unwrap_result (Err _) = Panic"
| "unwrap_result Panic = Panic"

fun unwrap_option :: "'a option \<Rightarrow> ('e, 'a) outcome" where
  "unwrap_option (Some a) = Ok a"
| "unwrap_option None = Panic"

lemma ret_apply [simp]: "ret a s = (Ok a, s)"
  by (simp add: ret_def)

lemma throw_apply [simp]: "throw e s = (Err e, s)"
  by (simp add: throw_def)

lemma panic_apply [simp]: "panic s = (Panic, s)"
  by (simp add: panic_def)

lemma lift_outcome_apply [simp]: "lift_outcome x s = (x, s)"
  by (simp add: lift_outcome_def)

lemma andq_Ok: "m s = (Ok a, s') \<Longrightarrow> andq m f s = f a s'"
  by (simp add: andq_def)

lemma andq_Err: "m s = (Err e, s') \<Longrightarrow> andq m f s = (Err e, s')"
  by (simp add: andq_def)

lemma andq_Panic: "m s = (Panic, s') \<Longrightarrow> andq m f s = (Panic, s')"
  by (simp add: andq_def)

lemma andq_ret [simp]: "andq (ret a) f = f a"
  by (rule ext) (simp add: andq_def)

lemma andq_ret_right [simp]: "andq m ret = m"
  by (rule ext) (simp add: andq_def split: prod.split outcome.split)

lemma andq_assoc: "andq (andq m f) g = andq m (\<lambda>a. andq (f a) g)"
  by (rule ext) (simp add: andq_def split: prod.split outcome.split)

lemma andq_eq_Ok:
  "andq m f s = (Ok b, t) \<longleftrightarrow> (\<exists>a s'. m s = (Ok a, s') \<and> f a s' = (Ok b, t))"
  by (auto simp: andq_def split: prod.splits outcome.splits)

lemma andq_eq_Err:
  "andq m f s = (Err e, t) \<longleftrightarrow>
     m s = (Err e, t) \<or> (\<exists>a s'. m s = (Ok a, s') \<and> f a s' = (Err e, t))"
  by (auto simp: andq_def split: prod.splits outcome.splits)

lemma andq_eq_Panic:
  "andq m f s = (Panic, t) \<longleftrightarrow>
     m s = (Panic, t) \<or> (\<exists>a s'. m s = (Ok a, s') \<and> f a s' = (Panic, t))"
  by (auto simp: andq_def split: prod.splits outcome.splits)

lemma bind_outcome_Ok_iff:
  "bind_outcome x f = Ok b \<longleftrightarrow> (\<exists>a. x = Ok a \<and> f a = Ok b)"
  by (cases x) auto

section \<open>Checked slices\<close>

text \<open>\<open>&xs[a..b]\<close>; None where the code panics.\<close>

definition slice :: "'a list \<Rightarrow> nat \<Rightarrow> nat \<Rightarrow> 'a list option" where
  "slice xs a b = (if a \<le> b \<and> b \<le> length xs then Some (take (b - a) (drop a xs)) else None)"

definition index :: "'a list \<Rightarrow> nat \<Rightarrow> 'a option" where
  "index xs i = (if i < length xs then Some (xs ! i) else None)"

lemma slice_length: "slice xs a b = Some ys \<Longrightarrow> length ys = b - a"
  by (auto simp: slice_def split: if_splits)

lemma slice_all [simp]: "slice xs 0 (length xs) = Some xs"
  by (simp add: slice_def)

text \<open>Overwriting bytes in place (\<open>copy_from_slice\<close> into a part of a buffer).\<close>

definition splice :: "'a list \<Rightarrow> nat \<Rightarrow> 'a list \<Rightarrow> 'a list" where
  "splice xs p ys = take p xs @ ys @ drop (p + length ys) xs"

lemma length_splice [simp]: "p + length ys \<le> length xs \<Longrightarrow> length (splice xs p ys) = length xs"
  by (simp add: splice_def)

lemma splice_Nil [simp]: "splice xs p [] = xs"
  by (simp add: splice_def)

lemma take_splice: "p + length ys \<le> length xs \<Longrightarrow>
  take (p + length ys) (splice xs p ys) = take p xs @ ys"
  by (simp add: splice_def)

lemma take_splice_le: "p + length ys \<le> length xs \<Longrightarrow> q \<le> p \<Longrightarrow>
  take q (splice xs p ys) = take q xs"
  by (simp add: splice_def min_def)

lemma splice_splice: "p + length ys + length zs \<le> length xs \<Longrightarrow>
  splice (splice xs p ys) (p + length ys) zs = splice xs p (ys @ zs)"
  by (simp add: splice_def ac_simps)

lemma splice_single: "p < length xs \<Longrightarrow> splice xs p [y] = xs[p := y]"
  by (simp add: splice_def upd_conv_take_nth_drop)

section \<open>Fixed-capacity vectors\<close>

text \<open>\<open>heapless::Vec::push\<close>: a full vector refuses the element and stays as it is. The code
  often drops the result, so that an element may be lost without a trace.\<close>

definition vec_push :: "nat \<Rightarrow> 'a list \<Rightarrow> 'a \<Rightarrow> 'a list" where
  "vec_push cap xs x = (if length xs < cap then xs @ [x] else xs)"

text \<open>\<open>extend_from_slice\<close>: all or nothing; None is the \<open>Err(())\<close> of a vector too small.\<close>

definition vec_extend_from_slice :: "nat \<Rightarrow> 'a list \<Rightarrow> 'a list \<Rightarrow> 'a list option" where
  "vec_extend_from_slice cap xs ys = (if length xs + length ys \<le> cap then Some (xs @ ys) else None)"

lemma length_vec_push [simp]: "length xs \<le> cap \<Longrightarrow> length (vec_push cap xs x) \<le> cap"
  by (simp add: vec_push_def)

lemma length_vec_extend: "vec_extend_from_slice cap xs ys = Some zs \<Longrightarrow> length zs \<le> cap"
  by (auto simp: vec_extend_from_slice_def split: if_splits)

section \<open>Bytes of integers\<close>

definition u16_to_be :: "u16 \<Rightarrow> bytes" where
  "u16_to_be x = [ucast (drop_bit 8 x), ucast x]"

definition u32_to_be :: "u32 \<Rightarrow> bytes" where
  "u32_to_be x = [ucast (drop_bit 24 x), ucast (drop_bit 16 x), ucast (drop_bit 8 x), ucast x]"

fun u16_from_be :: "bytes \<Rightarrow> u16 option" where
  "u16_from_be [a, b] = Some (push_bit 8 (ucast a) OR ucast b)"
| "u16_from_be _ = None"

fun u32_from_be :: "bytes \<Rightarrow> u32 option" where
  "u32_from_be [a, b, c, d] = Some (push_bit 24 (ucast a) OR push_bit 16 (ucast b)
     OR push_bit 8 (ucast c) OR ucast d)"
| "u32_from_be _ = None"

definition u16_to_le :: "u16 \<Rightarrow> bytes" where
  "u16_to_le x = rev (u16_to_be x)"

lemma length_u16_to_be [simp]: "length (u16_to_be x) = 2"
  by (simp add: u16_to_be_def)

lemma length_u32_to_be [simp]: "length (u32_to_be x) = 4"
  by (simp add: u32_to_be_def)

lemma length_u16_to_le [simp]: "length (u16_to_le x) = 2"
  by (simp add: u16_to_le_def)

lemma u16_be_roundtrip [simp]: "u16_from_be (u16_to_be x) = Some x"
proof -
  have "push_bit 8 (ucast (ucast (drop_bit 8 x) :: u8)) OR ucast (ucast x :: u8) = x"
    by (rule bit_word_eqI) (auto simp: bit_simps not_less)
  then show ?thesis by (simp add: u16_to_be_def)
qed

lemma u32_be_roundtrip [simp]: "u32_from_be (u32_to_be x) = Some x"
proof -
  have "push_bit 24 (ucast (ucast (drop_bit 24 x) :: u8)) OR
      push_bit 16 (ucast (ucast (drop_bit 16 x) :: u8)) OR
      push_bit 8 (ucast (ucast (drop_bit 8 x) :: u8)) OR ucast (ucast x :: u8) = x"
  proof (rule bit_word_eqI)
    fix n assume "n < LENGTH(32)"
    consider "n < 8" | "8 \<le> n \<and> n < 16" | "16 \<le> n \<and> n < 24" | "24 \<le> n" by linarith
    then show "bit (push_bit 24 (ucast (ucast (drop_bit 24 x) :: u8)) OR
      push_bit 16 (ucast (ucast (drop_bit 16 x) :: u8)) OR
      push_bit 8 (ucast (ucast (drop_bit 8 x) :: u8)) OR ucast (ucast x :: u8) :: u32) n = bit x n"
      by cases (use \<open>n < LENGTH(32)\<close> in \<open>auto simp: bit_simps\<close>)
  qed
  then show ?thesis by (simp add: u32_to_be_def)
qed

section \<open>UTF-8\<close>

definition is_cont :: "u8 \<Rightarrow> bool" where
  "is_cont b \<longleftrightarrow> 128 \<le> b \<and> b \<le> 191"

text \<open>The bytes \<open>core::str::from_utf8\<close> accepts: shortest forms only, no surrogates, nothing
  past U+10FFFF.\<close>

fun utf8_valid :: "bytes \<Rightarrow> bool" where
  "utf8_valid [] = True"
| "utf8_valid (b0 # r0) =
    (if b0 < 128 then utf8_valid r0
     else case r0 of
       [] \<Rightarrow> False
     | b1 # r1 \<Rightarrow>
        (if 194 \<le> b0 \<and> b0 \<le> 223 then is_cont b1 \<and> utf8_valid r1
         else case r1 of
           [] \<Rightarrow> False
         | b2 # r2 \<Rightarrow>
            (if 224 \<le> b0 \<and> b0 \<le> 239 then
               (if b0 = 224 then 160 \<le> b1 \<and> b1 \<le> 191
                else if b0 = 237 then 128 \<le> b1 \<and> b1 \<le> 159
                else is_cont b1) \<and> is_cont b2 \<and> utf8_valid r2
             else case r2 of
               [] \<Rightarrow> False
             | b3 # r3 \<Rightarrow>
                (if b0 = 240 then 144 \<le> b1 \<and> b1 \<le> 191
                 else if b0 = 244 then 128 \<le> b1 \<and> b1 \<le> 143
                 else 241 \<le> b0 \<and> b0 \<le> 243 \<and> is_cont b1)
                \<and> is_cont b2 \<and> is_cont b3 \<and> utf8_valid r3)))"

lemma utf8_valid_ascii: "\<forall>b \<in> set bs. b < 128 \<Longrightarrow> utf8_valid bs"
  by (induction bs) auto

section \<open>Decimal text\<close>

definition byte_of_char :: "char \<Rightarrow> u8" where
  "byte_of_char c = of_nat (of_char c)"

text \<open>The bytes of an ASCII string literal.\<close>

definition lit :: "string \<Rightarrow> bytes" where
  "lit s = map byte_of_char s"

function decimal :: "nat \<Rightarrow> bytes" where
  "decimal n = (if n < 10 then [of_nat (48 + n)] else decimal (n div 10) @ [of_nat (48 + n mod 10)])"
  by pat_completeness auto
termination
  by (relation "measure id") auto

declare decimal.simps [simp del]

lemma lit_append [simp]: "lit (s @ t) = lit s @ lit t"
  by (simp add: lit_def)

lemma length_lit [simp]: "length (lit s) = length s"
  by (simp add: lit_def)

lemma decimal_nonempty [simp]: "decimal n \<noteq> []"
  by (subst decimal.simps) simp

lemma length_decimal_le:
  "n < 10 ^ Suc k \<Longrightarrow> length (decimal n) \<le> Suc k"
proof (induction k arbitrary: n)
  case 0
  then show ?case by (simp add: decimal.simps [of n])
next
  case (Suc k)
  show ?case
  proof (cases "n < 10")
    case True
    then show ?thesis by (simp add: decimal.simps [of n])
  next
    case False
    have "n div 10 < 10 ^ Suc k" using Suc.prems by auto
    then have "length (decimal (n div 10)) \<le> Suc k" by (rule Suc.IH)
    with False show ?thesis by (simp add: decimal.simps [of n])
  qed
qed

section \<open>Reading numbers\<close>

text \<open>\<open>str::parse\<close> for an unsigned type with maximum \<open>m\<close>: an optional plus sign, then at least one digit.\<close>

fun parse_digits :: "nat \<Rightarrow> nat \<Rightarrow> bytes \<Rightarrow> nat option" where
  "parse_digits m acc [] = Some acc"
| "parse_digits m acc (c # cs) =
     (if 48 \<le> c \<and> c \<le> 57 then
        let n = 10 * acc + unat (c - 48) in if n \<le> m then parse_digits m n cs else None
      else None)"

definition parse_unsigned :: "nat \<Rightarrow> bytes \<Rightarrow> nat option" where
  "parse_unsigned m s =
     (case s of
        [] \<Rightarrow> None
      | c # cs \<Rightarrow> if c = 43 then (if cs = [] then None else parse_digits m 0 cs) else parse_digits m 0 s)"

text \<open>\<open>parse\<close> reads what \<open>decimal\<close> writes.\<close>

lemma parse_digits_append:
  "parse_digits m acc (xs @ ys) = (case parse_digits m acc xs of None \<Rightarrow> None | Some n \<Rightarrow> parse_digits m n ys)"
  by (induction m acc xs rule: parse_digits.induct) (auto simp: Let_def)

lemma decimal_digit:
  assumes "k < 10"
  shows "unat (of_nat k :: u8) = k \<and> (48 :: u8) \<le> of_nat (48 + k) \<and> of_nat (48 + k) \<le> (57 :: u8) \<and> (of_nat (48 + k) :: u8) \<noteq> 43"
proof -
  have "k = 0 \<or> k = 1 \<or> k = 2 \<or> k = 3 \<or> k = 4 \<or> k = 5 \<or> k = 6 \<or> k = 7 \<or> k = 8 \<or> k = 9" using assms by arith
  then show ?thesis by (elim disjE) simp_all
qed

lemma parse_digits_decimal: "n \<le> m \<Longrightarrow> parse_digits m 0 (decimal n) = Some n"
proof (induction n rule: decimal.induct)
  case (1 n)
  have d: "parse_digits m a [of_nat (48 + k)] = (if 10 * a + k \<le> m then Some (10 * a + k) else None)" if "k < 10" for a k
    using decimal_digit [OF that] by (simp add: Let_def)
  show ?case
  proof (cases "n < 10")
    case True
    then show ?thesis using 1(2) d [of n 0] by (simp add: decimal.simps [of n])
  next
    case False
    have "10 * (n div 10) + n mod 10 = n" by simp
    then show ?thesis using False 1 d [of "n mod 10" "n div 10"]
      by (subst decimal.simps) (simp add: parse_digits_append)
  qed
qed

lemma hd_decimal: "hd (decimal n) \<noteq> 43"
proof (induction n rule: decimal.induct)
  case (1 n)
  show ?case
  proof (cases "n < 10")
    case True
    then show ?thesis using decimal_digit [of n] by (simp add: decimal.simps [of n])
  qed (use 1 in \<open>simp add: decimal.simps [of n]\<close>)
qed

lemma parse_unsigned_decimal: "parse_unsigned m (decimal n) = Some n" if "n \<le> m"
proof -
  obtain c cs where "decimal n = c # cs" using decimal_nonempty [of n] by (cases "decimal n") auto
  with hd_decimal [of n] parse_digits_decimal [OF that] show ?thesis by (simp add: parse_unsigned_def)
qed

end
