(* ===== verification/Mqtt_Varint.thy ===== *)
theory Mqtt_Varint
  imports Rust_Prelude
begin

text \<open>
  Variable byte integers of MQTT (rust-mqtt/src/encoding/variable_byte_integer.rs) and the error
  type of the codec (rust-mqtt/src/utils/types.rs). The array \<open>[u8; 4]\<close> is a list of four bytes;
  reading \<open>encoded[i]\<close> at \<open>i = 4\<close> is the panic it is in the code. The loops are recursions on
  the value left to encode and on the index, as the code has them.

  Shown: encoding then decoding gives the integer back, the encoder fails exactly above
  268435455, the length of an encoding is the least number of 7-bit groups, and the decoder and
  the length loop panic exactly on four bytes that all carry the continuation bit, so that the
  decoder's own \<open>DecodingError\<close> is never returned.
\<close>

section \<open>Errors of the codec\<close>

datatype buffer_error =
    Utf8Error
  | InsufficientBufferSize
  | VariableByteIntegerError
  | IdNotFound
  | EncodingError
  | DecodingError
  | PacketTypeMismatch
  | WrongPacketToDecode
  | WrongPacketToEncode
  | PropertyNotFound

section \<open>Encoder\<close>

definition MAX_ENCODABLE :: u32 where
  "MAX_ENCODABLE = 268435455"

text \<open>One round of the loop writes \<open>res[i]\<close>; it stops when nothing is left of the target.\<close>

function vbi_encode_loop :: "u32 \<Rightarrow> nat \<Rightarrow> bytes \<Rightarrow> (buffer_error, bytes) outcome" where
  "vbi_encode_loop target i res =
     (let encoded_byte = ucast (target mod 128) :: u8;
          target' = target div 128;
          encoded_byte' = (if target' > 0 then encoded_byte OR 128 else encoded_byte)
      in if i < length res
         then if target' = 0 then Ok (res[i := encoded_byte'])
              else vbi_encode_loop target' (Suc i) (res[i := encoded_byte'])
         else Panic)"
  by pat_completeness auto
termination
  by (relation "measure (\<lambda>(target, i, res). length res - i)") auto

definition vbi_encode :: "u32 \<Rightarrow> (buffer_error, bytes) outcome" where
  "vbi_encode target =
     (if target > MAX_ENCODABLE then Err EncodingError
      else vbi_encode_loop target 0 [0, 0, 0, 0])"

function vbi_len_loop :: "bytes \<Rightarrow> nat \<Rightarrow> (buffer_error, nat) outcome" where
  "vbi_len_loop var_int i =
     (if i < length var_int
      then if var_int ! i AND 128 = 0 then Ok (Suc i) else vbi_len_loop var_int (Suc i)
      else Panic)"
  by pat_completeness auto
termination
  by (relation "measure (\<lambda>(v, i). length v - i)") auto

definition vbi_len :: "bytes \<Rightarrow> (buffer_error, nat) outcome" where
  "vbi_len var_int = vbi_len_loop var_int 0"

section \<open>Decoder\<close>

function vbi_decode_loop :: "bytes \<Rightarrow> nat \<Rightarrow> u32 \<Rightarrow> u32 \<Rightarrow> (buffer_error, u32) outcome" where
  "vbi_decode_loop encoded i multiplier acc =
     (if i < length encoded
      then let encoded_byte = encoded ! i;
               acc' = acc + ucast (encoded_byte AND 127) * multiplier
           in if multiplier > 128 * 128 * 128 then Err DecodingError
              else if encoded_byte AND 128 = 0 then Ok acc'
              else vbi_decode_loop encoded (Suc i) (multiplier * 128) acc'
      else Panic)"
  by pat_completeness auto
termination
  by (relation "measure (\<lambda>(e, i, m, r). length e - i)") auto

definition vbi_decode :: "bytes \<Rightarrow> (buffer_error, u32) outcome" where
  "vbi_decode encoded = vbi_decode_loop encoded 0 1 0"

declare vbi_encode_loop.simps [simp del] vbi_len_loop.simps [simp del] vbi_decode_loop.simps [simp del]

section \<open>The encoding in closed form\<close>

text \<open>The 7-bit groups of an integer, least significant first, all but the last with the
  continuation bit; and the value such a byte sequence stands for.\<close>

fun vbi_groups :: "nat \<Rightarrow> nat \<Rightarrow> bytes" where
  "vbi_groups 0 n = []"
| "vbi_groups (Suc k) n =
     (if n < 128 then [of_nat n] else (of_nat (n mod 128) OR 128) # vbi_groups k (n div 128))"

definition vbi_bytes :: "u32 \<Rightarrow> bytes" where
  "vbi_bytes x = vbi_groups 4 (unat x)"

fun vbi_value :: "bytes \<Rightarrow> nat" where
  "vbi_value [] = 0"
| "vbi_value (b # bs) =
     (if b AND 128 = 0 then unat b else unat (b AND 127) + 128 * vbi_value bs)"

text \<open>A byte sequence that some byte ends (one without the continuation bit).\<close>

definition vbi_ends :: "bytes \<Rightarrow> bool" where
  "vbi_ends bs \<longleftrightarrow> (\<exists>b \<in> set bs. b AND 128 = 0)"

lemma vbi_ends_Nil [simp]: "\<not> vbi_ends []"
  by (simp add: vbi_ends_def)

lemma vbi_ends_Cons [simp]: "vbi_ends (b # bs) \<longleftrightarrow> b AND 128 = 0 \<or> vbi_ends bs"
  by (auto simp: vbi_ends_def)

lemma bit_int_128: "bit (128 :: int) n \<longleftrightarrow> n = 7"
proof -
  have "bit ((2 :: int) ^ 7) n \<longleftrightarrow> n = 7" by (subst bit_exp_iff) auto
  then show ?thesis by simp
qed

lemma group_bits:
  fixes m :: nat
  assumes "m < 128"
  shows "(of_nat m :: u8) AND 128 = 0" and "((of_nat m :: u8) OR 128) AND 128 \<noteq> 0"
    and "((of_nat m :: u8) OR 128) AND 127 = of_nat m" and "unat (of_nat m :: u8) = m"
    and "(of_nat m :: u8) AND 127 = of_nat m"
proof -
  have m: "take_bit 7 (of_nat m :: u8) = of_nat m"
    using assms by (simp add: take_bit_of_nat take_bit_nat_eq_self)
  have b7: "bit (of_nat m :: u8) n \<Longrightarrow> n < 7" for n
    by (metis m bit_take_bit_iff)
  have k: "(127 :: u8) = mask 7"
    by (simp add: mask_eq_exp_minus_1)
  show "(of_nat m :: u8) AND 128 = 0"
    by (rule bit_word_eqI) (auto simp: bit_int_128 bit_and_iff dest: b7)
  show "((of_nat m :: u8) OR 128) AND 128 \<noteq> 0"
  proof
    assume "((of_nat m :: u8) OR 128) AND 128 = 0"
    then have "\<not> bit (((of_nat m :: u8) OR 128) AND 128) 7" by simp
    then show False by (simp add: bit_int_128 bit_and_iff bit_or_iff)
  qed
  show "((of_nat m :: u8) OR 128) AND 127 = of_nat m"
    unfolding k by (rule bit_word_eqI)
      (auto simp: bit_and_iff bit_or_iff bit_mask_iff bit_int_128 dest: b7)
  show "(of_nat m :: u8) AND 127 = of_nat m"
    unfolding k using m by (simp add: take_bit_eq_mask)
  show "unat (of_nat m :: u8) = m"
    using assms by (simp add: unat_of_nat)
qed

lemma and_128_iff: "(b :: u8) AND 128 = 0 \<longleftrightarrow> unat b < 128"
proof -
  have "b AND 128 = 0 \<longleftrightarrow> \<not> bit b 7"
  proof -
    have "b AND 128 = (if bit b 7 then 128 else 0)"
      by (rule bit_word_eqI) (auto simp: bit_and_iff bit_int_128)
    then show ?thesis by simp
  qed
  also have "bit b 7 \<longleftrightarrow> odd (unat b div 128)"
  proof -
    have "bit b 7 \<longleftrightarrow> bit (unat b) 7" by (simp add: bit_unsigned_iff)
    then show ?thesis by (simp add: bit_iff_odd)
  qed
  also have "\<not> odd (unat b div 128) \<longleftrightarrow> unat b < 128"
  proof -
    have "unat b < 256" using unsigned_less [of b, where ?'a = nat] by simp
    then have "\<not> unat b < 128 \<Longrightarrow> unat b div 128 = 1" by linarith
    then show ?thesis by (cases "unat b < 128") auto
  qed
  finally show ?thesis .
qed

lemma length_vbi_groups: "length (vbi_groups k n) \<le> k"
  by (induction k n rule: vbi_groups.induct) auto

lemma vbi_groups_nonempty: "0 < k \<Longrightarrow> vbi_groups k n \<noteq> []"
  by (cases k) auto

lemma vbi_ends_groups: "n < 128 ^ k \<Longrightarrow> 0 < k \<Longrightarrow> vbi_ends (vbi_groups k n)"
proof (induction k n rule: vbi_groups.induct)
  case (2 k n)
  show ?case
  proof (cases "n < 128")
    case True
    then show ?thesis by (simp add: group_bits)
  next
    case False
    with "2.prems" have "n div 128 < 128 ^ k" "0 < k" by (auto intro: gr0I)
    with False "2.IH" show ?thesis by simp
  qed
qed simp

lemma vbi_value_groups:
  "n < 128 ^ k \<Longrightarrow> 0 < k \<Longrightarrow> vbi_value (vbi_groups k n @ cs) = n"
proof (induction k n rule: vbi_groups.induct)
  case (2 k n)
  show ?case
  proof (cases "n < 128")
    case True
    then show ?thesis by (simp add: group_bits)
  next
    case False
    with "2.prems" have *: "n div 128 < 128 ^ k" "0 < k" by (auto intro: gr0I)
    with False "2.IH" have "vbi_value (vbi_groups k (n div 128) @ cs) = n div 128" by simp
    with False show ?thesis by (simp add: group_bits [of "n mod 128"])
  qed
qed simp


section \<open>Encoder, length and decoder against the closed form\<close>

lemma word_group:
  fixes t :: u32
  shows "ucast (t mod 128) = (of_nat (unat t mod 128) :: u8)"
    and "unat (t div 128) = unat t div 128"
    and "t div 128 = 0 \<longleftrightarrow> unat t < 128"
    and "0 < t div 128 \<longleftrightarrow> \<not> unat t < 128"
proof -
  show d: "unat (t div 128) = unat t div 128" by (simp add: unat_div_distrib)
  have "unat (t mod 128) = unat t mod 128" by (simp add: unat_mod_distrib)
  then show "ucast (t mod 128) = (of_nat (unat t mod 128) :: u8)"
    by (metis of_nat_unat)
  have "t div 128 = 0 \<longleftrightarrow> unat (t div 128) = 0" by (simp add: unat_eq_0)
  then show z: "t div 128 = 0 \<longleftrightarrow> unat t < 128"
    by (simp add: d div_eq_0_iff)
  show "0 < t div 128 \<longleftrightarrow> \<not> unat t < 128"
    unfolding z [symmetric] by (rule word_neq_0_conv [symmetric])
qed

lemma vbi_encode_loop_groups:
  "unat t < 128 ^ k \<Longrightarrow> 0 < k \<Longrightarrow> i + k \<le> length res \<Longrightarrow>
   vbi_encode_loop t i res = Ok (splice res i (vbi_groups k (unat t)))"
proof (induction k arbitrary: t i res)
  case (Suc k)
  have i: "i < length res" using Suc.prems by simp
  show ?case
  proof (cases "unat t < 128")
    case True
    with i show ?thesis
      by (subst vbi_encode_loop.simps) (simp add: Let_def word_group splice_single)
  next
    case False
    with Suc.prems have k: "unat (t div 128) < 128 ^ k" "0 < k"
      by (auto simp: word_group intro: gr0I)
    let ?b = "of_nat (unat t mod 128) OR 128 :: u8"
    have "vbi_encode_loop (t div 128) (Suc i) (res[i := ?b])
        = Ok (splice (res[i := ?b]) (Suc i) (vbi_groups k (unat t div 128)))"
      using Suc.IH [OF k, of "Suc i" "res[i := ?b]"] Suc.prems by (simp add: word_group)
    moreover have "splice (res[i := ?b]) (Suc i) (vbi_groups k (unat t div 128))
        = splice res i (?b # vbi_groups k (unat t div 128))"
      using splice_splice [of i "[?b]" "vbi_groups k (unat t div 128)" res] i Suc.prems
        length_vbi_groups [of k "unat t div 128"]
      by (simp add: splice_single)
    ultimately show ?thesis
      using False i by (subst vbi_encode_loop.simps) (simp add: Let_def word_group)
  qed
qed simp

lemma vbi_encode_eq:
  "vbi_encode x = (if unat x \<le> 268435455 then Ok (splice [0, 0, 0, 0] 0 (vbi_bytes x)) else Err EncodingError)"
proof (cases "unat x \<le> 268435455")
  case True
  then have "\<not> x > MAX_ENCODABLE" by (simp add: MAX_ENCODABLE_def word_less_nat_alt)
  moreover have "vbi_encode_loop x 0 [0, 0, 0, 0] = Ok (splice [0, 0, 0, 0] 0 (vbi_groups 4 (unat x)))"
    by (rule vbi_encode_loop_groups) (use True in simp_all)
  ultimately show ?thesis using True by (simp add: vbi_encode_def vbi_bytes_def)
next
  case False
  then show ?thesis by (simp add: vbi_encode_def MAX_ENCODABLE_def word_less_nat_alt)
qed

lemma vbi_len_loop_groups:
  "n < 128 ^ k \<Longrightarrow> 0 < k \<Longrightarrow>
   vbi_len_loop (ps @ vbi_groups k n @ cs) (length ps) = Ok (length ps + length (vbi_groups k n))"
proof (induction k arbitrary: n ps)
  case (Suc k)
  show ?case
  proof (cases "n < 128")
    case True
    then show ?thesis
      by (subst vbi_len_loop.simps) (simp add: nth_append group_bits)
  next
    case False
    with Suc.prems have k: "n div 128 < 128 ^ k" "0 < k" by (auto intro: gr0I)
    let ?b = "of_nat (n mod 128) OR 128 :: u8"
    have "vbi_len_loop ((ps @ [?b]) @ vbi_groups k (n div 128) @ cs) (length (ps @ [?b]))
      = Ok (length (ps @ [?b]) + length (vbi_groups k (n div 128)))"
      by (rule Suc.IH [OF k])
    then show ?thesis using False
      by (subst vbi_len_loop.simps) (simp add: nth_append group_bits)
  qed
qed simp

lemma vbi_decode_loop_value:
  "vbi_ends bs \<Longrightarrow> length ps + length bs \<le> 4 \<Longrightarrow>
   vbi_decode_loop (ps @ bs) (length ps) (of_nat (128 ^ length ps)) acc
     = Ok (acc + of_nat (128 ^ length ps * vbi_value bs))"
proof (induction bs arbitrary: ps acc)
  case (Cons b bs)
  have "length ps \<le> 3" using Cons.prems by simp
  then consider "length ps = 0" | "length ps = 1" | "length ps = 2" | "length ps = 3" by linarith
  then have m: "\<not> of_nat (128 ^ length ps) > (128 * 128 * 128 :: u32)" by cases simp_all
  show ?case
  proof (cases "b AND 128 = 0")
    case True
    then have "b AND 127 = b"
      using group_bits(5) [of "unat b"] by (simp add: and_128_iff)
    then show ?thesis using True m
      by (subst vbi_decode_loop.simps) (simp add: Let_def nth_append mult.commute)
  next
    case False
    have "vbi_decode_loop ((ps @ [b]) @ bs) (length (ps @ [b])) (of_nat (128 ^ length (ps @ [b])))
        (acc + ucast (b AND 127) * of_nat (128 ^ length ps))
      = Ok (acc + ucast (b AND 127) * of_nat (128 ^ length ps)
          + of_nat (128 ^ length (ps @ [b]) * vbi_value bs))"
      by (rule Cons.IH) (use Cons.prems False in auto)
    then show ?thesis using False m
      by (subst vbi_decode_loop.simps) (simp add: Let_def nth_append algebra_simps)
  qed
qed simp


section \<open>Behaviour of the three routines\<close>

lemma vbi_groups_4_length: "length (vbi_bytes x) \<le> 4"
  by (simp add: vbi_bytes_def length_vbi_groups)

lemma vbi_encode_Ok: "unat x \<le> 268435455 \<Longrightarrow>
  vbi_encode x = Ok (vbi_bytes x @ drop (length (vbi_bytes x)) [0, 0, 0, 0])"
  by (simp add: vbi_encode_eq splice_def)

lemma vbi_len_bytes: "unat x \<le> 268435455 \<Longrightarrow> vbi_len (vbi_bytes x @ cs) = Ok (length (vbi_bytes x))"
  using vbi_len_loop_groups [of "unat x" 4 "[]" cs]
  by (simp add: vbi_len_def vbi_bytes_def)

lemma vbi_value_bytes: "unat x \<le> 268435455 \<Longrightarrow> vbi_value (vbi_bytes x @ cs) = unat x"
  by (simp add: vbi_bytes_def vbi_value_groups)

lemma vbi_ends_bytes: "unat x \<le> 268435455 \<Longrightarrow> vbi_ends (vbi_bytes x)"
  by (simp add: vbi_bytes_def vbi_ends_groups)

lemma vbi_decode_value: "vbi_ends v \<Longrightarrow> length v \<le> 4 \<Longrightarrow> vbi_decode v = Ok (of_nat (vbi_value v))"
  using vbi_decode_loop_value [of v "[]" 0] by (simp add: vbi_decode_def)

text \<open>Four continuation bytes: neither loop finds an end and both index past the array.\<close>

lemma vbi_len_loop_panic: "\<not> vbi_ends v \<Longrightarrow> vbi_len_loop v i = Panic"
proof (induction v i rule: vbi_len_loop.induct)
  case (1 v i)
  then show ?case
    by (subst vbi_len_loop.simps) (auto simp: vbi_ends_def)
qed

lemma vbi_decode_panic_4: "length v = 4 \<Longrightarrow> \<not> vbi_ends v \<Longrightarrow> vbi_decode v = Panic"
  unfolding vbi_decode_def
  by (auto simp: vbi_decode_loop.simps [of v] Let_def vbi_ends_def)

lemma vbi_ends_append: "vbi_ends bs \<Longrightarrow> vbi_ends (bs @ cs)"
  by (auto simp: vbi_ends_def)

lemma vbi_value_less: "length v \<le> k \<Longrightarrow> vbi_ends v \<Longrightarrow> vbi_value v < 128 ^ k"
proof (induction v arbitrary: k)
  case (Cons b v)
  then obtain k' where k: "k = Suc k'" by (cases k) auto
  show ?case
  proof (cases "b AND 128 = 0")
    case True
    then have "unat b < 128" by (simp add: and_128_iff)
    also have "\<dots> \<le> 128 ^ k" by (simp add: k)
    finally show ?thesis using True by simp
  next
    case False
    have "vbi_value v < 128 ^ k'" using Cons False k by auto
    then have "Suc (vbi_value v) \<le> 128 ^ k'" by simp
    then have "128 * Suc (vbi_value v) \<le> 128 ^ k" by (simp add: k)
    moreover have "unat (b AND 127) < 128"
      using word_and_le1 [of b 127] by (simp add: word_le_nat_alt)
    ultimately show ?thesis using False by simp
  qed
qed simp

lemma length_vbi_groups_least:
  "n < 128 ^ k \<Longrightarrow> 0 < k \<Longrightarrow>
   n < 128 ^ length (vbi_groups k n) \<and> (length (vbi_groups k n) = 1 \<or> 128 ^ (length (vbi_groups k n) - 1) \<le> n)"
proof (induction k n rule: vbi_groups.induct)
  case (2 k n)
  show ?case
  proof (cases "n < 128")
    case False
    with "2.prems" have k: "n div 128 < 128 ^ k" "0 < k" by (auto intro: gr0I)
    let ?l = "length (vbi_groups k (n div 128))"
    from "2.IH" [OF False k] have *: "n div 128 < 128 ^ ?l" "?l = 1 \<or> 128 ^ (?l - 1) \<le> n div 128" by auto
    have "0 < ?l" using k(2) vbi_groups_nonempty by auto
    then obtain l where l: "?l = Suc l" using gr0_conv_Suc by auto
    from *(1) have "n < 128 * 128 ^ ?l" by (simp add: div_less_iff_less_mult mult.commute)
    moreover from *(2) l False have "128 ^ ?l \<le> n"
      by (auto simp: less_eq_div_iff_mult_less_eq mult.commute)
    ultimately show ?thesis using False by simp
  qed simp
qed simp

text \<open>A complete variable byte integer: continuation bytes and one byte that ends it.\<close>

fun vbi_word :: "bytes \<Rightarrow> bool" where
  "vbi_word [] = False"
| "vbi_word (b # bs) = (if b AND 128 = 0 then bs = [] else vbi_word bs)"

lemma vbi_word_groups: "n < 128 ^ k \<Longrightarrow> 0 < k \<Longrightarrow> vbi_word (vbi_groups k n)"
proof (induction k n rule: vbi_groups.induct)
  case (2 k n)
  show ?case
  proof (cases "n < 128")
    case True
    then show ?thesis by (simp add: group_bits)
  next
    case False
    with "2.prems" have "n div 128 < 128 ^ k" "0 < k" by (auto intro: gr0I)
    with False "2.IH" show ?thesis by (simp add: group_bits(2))
  qed
qed simp

lemma vbi_word_bytes: "unat x \<le> 268435455 \<Longrightarrow> vbi_word (vbi_bytes x)"
  by (simp add: vbi_bytes_def vbi_word_groups)

lemma vbi_word_ends: "vbi_word bs \<Longrightarrow> vbi_ends bs"
  by (induction bs) (auto split: if_splits)

lemma vbi_word_nonempty: "vbi_word bs \<Longrightarrow> 1 \<le> length bs"
  by (cases bs) auto

lemma vbi_word_value_append: "vbi_word bs \<Longrightarrow> vbi_value (bs @ cs) = vbi_value bs"
  by (induction bs) (auto split: if_splits)

text \<open>Any bytes either start with a complete integer or are continuation bytes throughout.\<close>

lemma vbi_split: "(\<exists>bs cs. l = bs @ cs \<and> vbi_word bs) \<or> (\<forall>b \<in> set l. b AND 128 \<noteq> 0)"
proof (induction l)
  case (Cons b l)
  show ?case
  proof (cases "b AND 128 = 0")
    case True
    then have "b # l = [b] @ l \<and> vbi_word [b]" by simp
    then show ?thesis by blast
  next
    case False
    from Cons show ?thesis
    proof
      assume "\<exists>bs cs. l = bs @ cs \<and> vbi_word bs"
      then obtain bs cs where "l = bs @ cs" "vbi_word bs" by blast
      with False have "b # l = (b # bs) @ cs \<and> vbi_word (b # bs)" by simp
      then show ?thesis by blast
    qed (use False in auto)
  qed
qed simp

lemma vbi_word_long: "vbi_word bs \<Longrightarrow> n < length bs \<Longrightarrow> \<forall>b \<in> set (take n bs). b AND 128 \<noteq> 0"
proof (induction bs arbitrary: n)
  case (Cons b bs)
  show ?case
  proof (cases n)
    case (Suc m)
    with Cons.prems have "b AND 128 \<noteq> 0" "vbi_word bs" "m < length bs"
      by (simp_all split: if_splits)
    with Cons.IH Suc show ?thesis by simp
  qed simp
qed simp

section \<open>Properties\<close>

text \<open>
  C19. Encoding an integer as a variable byte integer and decoding the four bytes gives the
  integer back for every encodable value, and every larger value is refused with
  \<open>EncodingError\<close>; no other outcome is possible.
\<close>

theorem varint_roundtrip:
  "bind_outcome (vbi_encode x) vbi_decode =
     (if unat x \<le> 268435455 then Ok x else Err EncodingError)"
proof (cases "unat x \<le> 268435455")
  case True
  let ?v = "vbi_bytes x @ drop (length (vbi_bytes x)) [0, 0, 0, 0]"
  have "vbi_decode ?v = Ok (of_nat (vbi_value ?v))"
    using vbi_groups_4_length [of x]
    by (intro vbi_decode_value vbi_ends_append vbi_ends_bytes True) auto
  with True show ?thesis by (simp add: vbi_encode_Ok vbi_value_bytes)
next
  case False
  then show ?thesis by (simp add: vbi_encode_eq)
qed

text \<open>
  The encoder uses the least number of 7-bit groups: the length that \<open>len\<close> reads off an
  encoding is 1, 2, 3 or 4, the value fits in that many groups and in no fewer.
\<close>

theorem varint_len_minimal:
  assumes "vbi_encode x = Ok v"
  shows "\<exists>n. vbi_len v = Ok n \<and> 1 \<le> n \<and> n \<le> 4 \<and> unat x < 128 ^ n \<and> (n = 1 \<or> 128 ^ (n - 1) \<le> unat x)"
proof -
  have x: "unat x \<le> 268435455" using assms by (auto simp: vbi_encode_eq split: if_splits)
  then have v: "v = vbi_bytes x @ drop (length (vbi_bytes x)) [0, 0, 0, 0]"
    using assms by (simp add: vbi_encode_Ok)
  have "vbi_bytes x \<noteq> []" by (simp add: vbi_bytes_def vbi_groups_nonempty)
  then have "1 \<le> length (vbi_bytes x)" by (cases "vbi_bytes x") auto
  moreover have "unat x < 128 ^ length (vbi_bytes x) \<and>
      (length (vbi_bytes x) = 1 \<or> 128 ^ (length (vbi_bytes x) - 1) \<le> unat x)"
    unfolding vbi_bytes_def by (rule length_vbi_groups_least) (use x in simp_all)
  ultimately show ?thesis
    using x vbi_groups_4_length [of x] by (simp add: v vbi_len_bytes)
qed

theorem varint_len_minimal_witness:
  "vbi_encode 16384 = Ok [128, 128, 1, 0] \<and>
   (\<exists>n. vbi_len [128, 128, 1, 0] = Ok n \<and> 1 \<le> n \<and> n \<le> 4 \<and> unat (16384 :: u32) < 128 ^ n
      \<and> (n = 1 \<or> 128 ^ (n - 1) \<le> unat (16384 :: u32)))"
proof -
  have h: "vbi_encode 16384 = Ok [128, 128, 1, 0]"
    by code_simp
  show ?thesis using h varint_len_minimal [OF h] by blast
qed

text \<open>
  The decoder on four bytes: if some byte ends the integer the value is decoded, and if all
  four carry the continuation bit the loop reads \<open>encoded[4]\<close> and panics. The decoder's
  \<open>DecodingError\<close>, meant for this case, is never returned.
\<close>

theorem varint_decode_total_or_panic:
  assumes "length v = 4"
  shows "vbi_decode v = (if \<exists>b \<in> set v. b AND 128 = 0 then Ok (of_nat (vbi_value v)) else Panic)"
  using assms vbi_decode_value [of v] vbi_decode_panic_4 [of v]
  by (simp add: vbi_ends_def)

theorem varint_decode_total_or_panic_witness:
  "length [255, 255, 255, 255 :: u8] = 4 \<and> vbi_decode [255, 255, 255, 255] = Panic"
proof -
  have h: "length [255, 255, 255, 255 :: u8] = 4" by simp
  show ?thesis using varint_decode_total_or_panic [OF h] by simp
qed

end
