(* ===== verification/Mqtt_Types.thy ===== *)
theory Mqtt_Types
  imports Mqtt_Varint
begin

text \<open>
  The wire types of MQTT (rust-mqtt/src/utils/types.rs). A \<open>&str\<close> and a \<open>&[u8]\<close> are byte lists;
  each type keeps the length field the code keeps beside the slice, which the caller fills in
  with \<open>len() as u16\<close> and which may therefore differ from the length of a long slice.
\<close>

fun buffer_error_text :: "buffer_error \<Rightarrow> string" where
  "buffer_error_text Utf8Error = ''Error encountered during UTF8 decoding!''"
| "buffer_error_text InsufficientBufferSize = ''Buffer size is not sufficient for packet!''"
| "buffer_error_text VariableByteIntegerError = ''Error encountered during variable byte integer decoding / encoding!''"
| "buffer_error_text IdNotFound = ''Packet identifier not found!''"
| "buffer_error_text EncodingError = ''Error encountered during packet encoding!''"
| "buffer_error_text DecodingError = ''Error encountered during packet decoding!''"
| "buffer_error_text PacketTypeMismatch = ''Packet type not matched during decoding (Received different packet type than encode type)!''"
| "buffer_error_text WrongPacketToDecode = ''Not able to decode packet, this packet is used just for sending to broker, not receiving by client!''"
| "buffer_error_text WrongPacketToEncode = ''Not able to encode packet, this packet is used only from server to client not the opposite way!''"
| "buffer_error_text PropertyNotFound = ''Property with ID not found!''"

record encoded_string =
  es_string :: bytes
  es_len :: u16

definition encoded_string_new :: encoded_string where
  "encoded_string_new = \<lparr>es_string = [], es_len = 0\<rparr>"

definition encoded_string_encoded_len :: "encoded_string \<Rightarrow> u16" where
  "encoded_string_encoded_len s = es_len s + 2"

record binary_data =
  bd_bin :: bytes
  bd_len :: u16

definition binary_data_new :: binary_data where
  "binary_data_new = \<lparr>bd_bin = [0], bd_len = 0\<rparr>"

definition binary_data_encoded_len :: "binary_data \<Rightarrow> u16" where
  "binary_data_encoded_len b = bd_len b + 2"

record string_pair =
  sp_name :: encoded_string
  sp_value :: encoded_string

definition string_pair_new :: string_pair where
  "string_pair_new = \<lparr>sp_name = encoded_string_new, sp_value = encoded_string_new\<rparr>"

definition string_pair_encoded_len :: "string_pair \<Rightarrow> u16" where
  "string_pair_encoded_len p =
     encoded_string_encoded_len (sp_name p) + encoded_string_encoded_len (sp_value p)"

record topic_filter =
  tf_filter :: encoded_string
  tf_sub_options :: u8

definition topic_filter_new :: topic_filter where
  "topic_filter_new = \<lparr>tf_filter = encoded_string_new, tf_sub_options = 0\<rparr>"

definition topic_filter_encoded_len :: "topic_filter \<Rightarrow> u16" where
  "topic_filter_encoded_len t = es_len (tf_filter t) + 3"

section \<open>The bytes a value takes on the wire\<close>

text \<open>A value is well formed when its length field is the length of its slice (and a string is
  UTF-8, as every \<open>&str\<close> is).\<close>

definition string_wf :: "encoded_string \<Rightarrow> bool" where
  "string_wf s \<longleftrightarrow> unat (es_len s) = length (es_string s) \<and> utf8_valid (es_string s)"

definition binary_wf :: "binary_data \<Rightarrow> bool" where
  "binary_wf b \<longleftrightarrow> unat (bd_len b) = length (bd_bin b)"

definition pair_wf :: "string_pair \<Rightarrow> bool" where
  "pair_wf p \<longleftrightarrow> string_wf (sp_name p) \<and> string_wf (sp_value p)"

definition string_bytes :: "encoded_string \<Rightarrow> bytes" where
  "string_bytes s = u16_to_be (es_len s) @ take (unat (es_len s)) (es_string s)"

definition binary_bytes :: "binary_data \<Rightarrow> bytes" where
  "binary_bytes b = u16_to_be (bd_len b) @ take (unat (bd_len b)) (bd_bin b)"

definition pair_bytes :: "string_pair \<Rightarrow> bytes" where
  "pair_bytes p = string_bytes (sp_name p) @ string_bytes (sp_value p)"

lemma length_string_bytes: "string_wf s \<Longrightarrow> length (string_bytes s) = 2 + unat (es_len s)"
  by (simp add: string_wf_def string_bytes_def)

lemma length_binary_bytes: "binary_wf b \<Longrightarrow> length (binary_bytes b) = 2 + unat (bd_len b)"
  by (simp add: binary_wf_def binary_bytes_def)

lemma string_wf_new [simp]: "string_wf encoded_string_new"
  by (simp add: string_wf_def encoded_string_new_def)

end
