(* ===== verification/Mqtt_Writer.thy ===== *)
theory Mqtt_Writer
  imports Mqtt_Types
begin

text \<open>
  The buffer writer (rust-mqtt/src/utils/buffer_writer.rs): a byte buffer, a cursor and the
  limit the caller gave. Every write checks the limit; the slice operations behind it panic if
  the limit or a length field lies.

  \<open>emits m bs\<close> is the contract of a write: on a writer whose limit lies within its buffer it
  appends exactly \<open>bs\<close> if they fit below the limit, and otherwise returns
  \<open>InsufficientBufferSize\<close> having written a prefix of them. Contracts compose along \<open>?\<close>, so
  the contract of a packet encoder is put together from those of its fields.
\<close>

record buff_writer =
  wr_buffer :: bytes
  wr_position :: nat
  wr_len :: nat

type_synonym 'a writes = "(buff_writer, buffer_error, 'a) op"

definition writer_new :: "bytes \<Rightarrow> nat \<Rightarrow> buff_writer" where
  "writer_new buffer buff_len = \<lparr>wr_buffer = buffer, wr_position = 0, wr_len = buff_len\<rparr>"

definition wr_increment_position :: "nat \<Rightarrow> buff_writer \<Rightarrow> buff_writer" where
  "wr_increment_position inc w = w\<lparr>wr_position := wr_position w + inc\<rparr>"

definition get_n_byte :: "nat \<Rightarrow> buff_writer \<Rightarrow> (buffer_error, u8) outcome" where
  "get_n_byte n w =
     (if wr_position w \<ge> n then unwrap_option (index (wr_buffer w) n) else Ok 0)"

text \<open>The remaining length of the packet being received; None is \<open>RemLenError\<close>.\<close>

function get_rem_len_loop :: "bytes \<Rightarrow> nat \<Rightarrow> nat \<Rightarrow> bytes \<Rightarrow> (buffer_error, bytes option) outcome" where
  "get_rem_len_loop buffer maxi i len =
     (if \<not> i < length buffer \<or> \<not> i - 1 < length len then Panic
      else let b = buffer ! i; len' = len[i - 1 := b]
           in if b AND 128 = 0 then Ok (Some len')
              else if i = maxi \<and> i \<noteq> 4 then Ok None
              else if i = maxi then Ok (Some len')
              else get_rem_len_loop buffer maxi (Suc i) len')"
  by pat_completeness auto
termination
  by (relation "measure (\<lambda>(b, m, i, l). length b - i)") auto

declare get_rem_len_loop.simps [simp del]

definition get_rem_len :: "buff_writer \<Rightarrow> (buffer_error, bytes option) outcome" where
  "get_rem_len w =
     (let maxi = (if wr_position w \<ge> 5 then 4
                 else if wr_position w = 0 then 2 ^ 32 - 1 else wr_position w - 1)
      in get_rem_len_loop (wr_buffer w) maxi 1 [0, 0, 0, 0])"

definition insert_ref :: "nat \<Rightarrow> bytes \<Rightarrow> unit writes" where
  "insert_ref len array w =
     (if wr_position w + len > wr_len w then (Err InsufficientBufferSize, w)
      else case (slice (wr_buffer w) (wr_position w) (wr_position w + len), slice array 0 len) of
             (Some _, Some part) \<Rightarrow>
               (Ok (), wr_increment_position len
                         (w\<lparr>wr_buffer := splice (wr_buffer w) (wr_position w) part\<rparr>))
           | _ \<Rightarrow> (Panic, w))"

definition write_u8 :: "u8 \<Rightarrow> unit writes" where
  "write_u8 byte w =
     (if wr_position w \<ge> wr_len w then (Err InsufficientBufferSize, w)
      else if wr_position w < length (wr_buffer w)
           then (Ok (), wr_increment_position 1
                          (w\<lparr>wr_buffer := (wr_buffer w)[wr_position w := byte]\<rparr>))
           else (Panic, w))"

definition write_u16 :: "u16 \<Rightarrow> unit writes" where
  "write_u16 two_bytes = insert_ref 2 (u16_to_be two_bytes)"

definition write_u32 :: "u32 \<Rightarrow> unit writes" where
  "write_u32 four_bytes = insert_ref 4 (u32_to_be four_bytes)"

definition write_string_ref :: "encoded_string \<Rightarrow> unit writes" where
  "write_string_ref str =
     thenq (write_u16 (es_len str))
       (if es_len str \<noteq> 0 then insert_ref (unat (es_len str)) (es_string str) else ret ())"

definition write_binary_ref :: "binary_data \<Rightarrow> unit writes" where
  "write_binary_ref bin =
     thenq (write_u16 (bd_len bin)) (insert_ref (unat (bd_len bin)) (bd_bin bin))"

definition write_string_pair_ref :: "string_pair \<Rightarrow> unit writes" where
  "write_string_pair_ref str_pair =
     thenq (write_string_ref (sp_name str_pair)) (write_string_ref (sp_value str_pair))"

definition write_variable_byte_int :: "u32 \<Rightarrow> unit writes" where
  "write_variable_byte_int x =
     andq (lift_outcome (vbi_encode x)) (\<lambda>enc.
     andq (lift_outcome (vbi_len enc)) (\<lambda>len.
     insert_ref len enc))"

definition write_topic_filter_ref :: "bool \<Rightarrow> topic_filter \<Rightarrow> unit writes" where
  "write_topic_filter_ref sub topic_filter =
     thenq (write_string_ref (tf_filter topic_filter))
       (if sub then write_u8 (tf_sub_options topic_filter) else ret ())"

fun write_topic_filters_ref :: "bool \<Rightarrow> nat \<Rightarrow> topic_filter list \<Rightarrow> unit writes" where
  "write_topic_filters_ref sub len [] = ret ()"
| "write_topic_filters_ref sub len (filt # filters) =
     thenq (write_topic_filter_ref sub filt) (write_topic_filters_ref sub len filters)"

section \<open>The contract of a write\<close>

definition wr_inv :: "buff_writer \<Rightarrow> bool" where
  "wr_inv w \<longleftrightarrow> wr_position w \<le> wr_len w \<and> wr_len w \<le> length (wr_buffer w)"

text \<open>What has been written so far.\<close>

definition written :: "buff_writer \<Rightarrow> bytes" where
  "written w = take (wr_position w) (wr_buffer w)"

definition put_bytes :: "bytes \<Rightarrow> buff_writer \<Rightarrow> buff_writer" where
  "put_bytes bs w = w\<lparr>wr_buffer := splice (wr_buffer w) (wr_position w) bs,
                       wr_position := wr_position w + length bs\<rparr>"

definition fits :: "bytes \<Rightarrow> buff_writer \<Rightarrow> bool" where
  "fits bs w \<longleftrightarrow> wr_position w + length bs \<le> wr_len w"

definition emits :: "unit writes \<Rightarrow> bytes \<Rightarrow> bool" where
  "emits m bs \<longleftrightarrow> (\<forall>w. wr_inv w \<longrightarrow>
     (if fits bs w then m w = (Ok (), put_bytes bs w)
      else \<exists>k \<le> length bs. fits (take k bs) w \<and>
             m w = (Err InsufficientBufferSize, put_bytes (take k bs) w)))"

lemma emitsD: "emits m bs \<Longrightarrow> wr_inv w \<Longrightarrow> fits bs w \<Longrightarrow> m w = (Ok (), put_bytes bs w)"
  by (simp add: emits_def)

lemma emits_ErrD: "emits m bs \<Longrightarrow> wr_inv w \<Longrightarrow> \<not> fits bs w \<Longrightarrow>
  \<exists>k \<le> length bs. fits (take k bs) w \<and> m w = (Err InsufficientBufferSize, put_bytes (take k bs) w)"
  by (simp add: emits_def)

lemma put_bytes_Nil [simp]: "put_bytes [] w = w"
  by (simp add: put_bytes_def)

lemma wr_inv_put_bytes: "wr_inv w \<Longrightarrow> fits bs w \<Longrightarrow> wr_inv (put_bytes bs w)"
  by (simp add: wr_inv_def fits_def put_bytes_def)

lemma fits_put_bytes: "fits (bs @ cs) w \<longleftrightarrow> fits bs w \<and> fits cs (put_bytes bs w)"
  by (auto simp: fits_def put_bytes_def)

lemma put_bytes_append:
  "wr_inv w \<Longrightarrow> fits (bs @ cs) w \<Longrightarrow> put_bytes cs (put_bytes bs w) = put_bytes (bs @ cs) w"
  by (simp add: put_bytes_def fits_def wr_inv_def splice_splice add.assoc)

lemma written_put_bytes: "wr_inv w \<Longrightarrow> fits bs w \<Longrightarrow> written (put_bytes bs w) = written w @ bs"
  by (simp add: written_def put_bytes_def fits_def wr_inv_def take_splice)

lemma wr_len_put_bytes [simp]: "wr_len (put_bytes bs w) = wr_len w"
  by (simp add: put_bytes_def)

lemma wr_position_put_bytes [simp]: "wr_position (put_bytes bs w) = wr_position w + length bs"
  by (simp add: put_bytes_def)

lemma fits_Nil [simp]: "wr_inv w \<Longrightarrow> fits [] w"
  by (simp add: fits_def wr_inv_def)

lemma emits_ret [intro]: "emits (ret ()) []"
  by (simp add: emits_def)

lemma emits_thenq [intro]:
  assumes m: "emits m bs" and n: "emits n cs"
  shows "emits (thenq m n) (bs @ cs)"
  unfolding emits_def
proof (intro allI impI)
  fix w assume w: "wr_inv w"
  show "if fits (bs @ cs) w then thenq m n w = (Ok (), put_bytes (bs @ cs) w)
        else \<exists>k \<le> length (bs @ cs). fits (take k (bs @ cs)) w \<and>
          thenq m n w = (Err InsufficientBufferSize, put_bytes (take k (bs @ cs)) w)"
  proof (cases "fits bs w")
    case True
    from emitsD [OF m w True] have *: "thenq m n w = n (put_bytes bs w)" by (rule andq_Ok)
    have w': "wr_inv (put_bytes bs w)" by (rule wr_inv_put_bytes [OF w True])
    show ?thesis
    proof (cases "fits cs (put_bytes bs w)")
      case fcs: True
      then have "fits (bs @ cs) w" using True by (simp add: fits_put_bytes)
      then show ?thesis
        using emitsD [OF n w' fcs] w by (simp add: * put_bytes_append)
    next
      case False
      then obtain k where k: "k \<le> length cs" "fits (take k cs) (put_bytes bs w)"
        "n (put_bytes bs w) = (Err InsufficientBufferSize, put_bytes (take k cs) (put_bytes bs w))"
        using emits_ErrD [OF n w'] by blast
      then have f: "fits (bs @ take k cs) w" using True by (simp add: fits_put_bytes)
      from False have "\<not> fits (bs @ cs) w" by (simp add: fits_put_bytes)
      moreover have "length bs + k \<le> length (bs @ cs)" using k by simp
      ultimately show ?thesis
        using k f w put_bytes_append [OF w f]
        by (auto simp: * intro!: exI [of _ "length bs + k"])
    qed
  next
    case False
    then obtain k where k: "k \<le> length bs" "fits (take k bs) w"
      "m w = (Err InsufficientBufferSize, put_bytes (take k bs) w)"
      using emits_ErrD [OF m w] by blast
    from False have "\<not> fits (bs @ cs) w" by (simp add: fits_put_bytes)
    then show ?thesis
      using k by (auto simp: andq_Err intro!: exI [of _ k])
  qed
qed

lemma emits_andq_lift [intro]: "x = Ok a \<Longrightarrow> emits (f a) bs \<Longrightarrow> emits (andq (lift_outcome x) f) bs"
  by (simp add: emits_def andq_def)

section \<open>Contracts of the writes\<close>

lemma emits_insert_ref: "len \<le> length array \<Longrightarrow> emits (insert_ref len array) (take len array)"
  unfolding emits_def
  by (auto simp: insert_ref_def fits_def wr_inv_def slice_def put_bytes_def
      wr_increment_position_def min_def intro!: exI [of _ 0])

lemma emits_write_u8 [intro]: "emits (write_u8 b) [b]"
  unfolding emits_def
  by (auto simp: write_u8_def fits_def wr_inv_def put_bytes_def splice_single
      wr_increment_position_def intro!: exI [of _ 0])

lemma emits_write_u16 [intro]: "emits (write_u16 x) (u16_to_be x)"
  unfolding write_u16_def using emits_insert_ref [of 2 "u16_to_be x"] by simp

lemma emits_write_u32 [intro]: "emits (write_u32 x) (u32_to_be x)"
  unfolding write_u32_def using emits_insert_ref [of 4 "u32_to_be x"] by simp

lemma emits_write_string_ref [intro]:
  assumes "string_wf s"
  shows "emits (write_string_ref s) (string_bytes s)"
proof -
  have "emits (if es_len s \<noteq> 0 then insert_ref (unat (es_len s)) (es_string s) else ret ())
          (take (unat (es_len s)) (es_string s))"
    using assms emits_insert_ref [of "unat (es_len s)" "es_string s"]
    by (auto simp: string_wf_def)
  then show ?thesis
    unfolding write_string_ref_def string_bytes_def by blast
qed

lemma emits_write_binary_ref [intro]:
  assumes "binary_wf b"
  shows "emits (write_binary_ref b) (binary_bytes b)"
  unfolding write_binary_ref_def binary_bytes_def
  using assms by (intro emits_thenq emits_write_u16 emits_insert_ref) (simp add: binary_wf_def)

lemma emits_write_string_pair_ref [intro]:
  "pair_wf p \<Longrightarrow> emits (write_string_pair_ref p) (pair_bytes p)"
  by (auto simp: write_string_pair_ref_def pair_bytes_def pair_wf_def)

lemma emits_write_variable_byte_int [intro]:
  assumes x: "unat x \<le> 268435455"
  shows "emits (write_variable_byte_int x) (vbi_bytes x)"
proof -
  let ?v = "vbi_bytes x @ drop (length (vbi_bytes x)) [0, 0, 0, 0]"
  have "emits (insert_ref (length (vbi_bytes x)) ?v) (vbi_bytes x)"
    using emits_insert_ref [of "length (vbi_bytes x)" ?v] by simp
  then show ?thesis
    unfolding write_variable_byte_int_def
    by (intro emits_andq_lift [OF vbi_encode_Ok [OF x]] emits_andq_lift [OF vbi_len_bytes [OF x]])
qed

definition filter_wf :: "topic_filter \<Rightarrow> bool" where
  "filter_wf t \<longleftrightarrow> string_wf (tf_filter t)"

definition filter_bytes :: "bool \<Rightarrow> topic_filter \<Rightarrow> bytes" where
  "filter_bytes sub t = string_bytes (tf_filter t) @ (if sub then [tf_sub_options t] else [])"

lemma emits_write_topic_filter_ref [intro]:
  "filter_wf t \<Longrightarrow> emits (write_topic_filter_ref sub t) (filter_bytes sub t)"
  by (auto simp: write_topic_filter_ref_def filter_bytes_def filter_wf_def)

lemma emits_write_topic_filters_ref [intro]:
  "\<forall>t \<in> set ts. filter_wf t \<Longrightarrow>
   emits (write_topic_filters_ref sub len ts) (concat (map (filter_bytes sub) ts))"
  by (induction ts) auto

end
