(* ===== verification/Mqtt_Reader.thy ===== *)
theory Mqtt_Reader
  imports Mqtt_Types
begin

text \<open>
  The buffer reader (rust-mqtt/src/utils/buffer_reader.rs): a buffer, a cursor and the number of
  received bytes. Reads check that number; the slices behind them panic where it lies.

  Three contracts describe a read. \<open>parses m bs a\<close>: where the unread bytes start with \<open>bs\<close>, it
  returns \<open>a\<close> and moves past exactly \<open>bs\<close>. \<open>rd_safe m\<close>: on a reader whose count lies within its
  buffer it never panics, and it only moves the cursor forward within the count.
  \<open>rd_mono m\<close>: a successful read never moves the cursor back nor touches the buffer, which is
  what makes the loops over a reader end. All three compose along \<open>?\<close>.
\<close>

record buff_reader =
  rd_buffer :: bytes
  rd_position :: nat
  rd_len :: nat

type_synonym 'a reads = "(buff_reader, buffer_error, 'a) op"

definition reader_new :: "bytes \<Rightarrow> nat \<Rightarrow> buff_reader" where
  "reader_new buffer buff_len = \<lparr>rd_buffer = buffer, rd_position = 0, rd_len = buff_len\<rparr>"

definition increment_position :: "nat \<Rightarrow> buff_reader \<Rightarrow> buff_reader" where
  "increment_position inc r = r\<lparr>rd_position := rd_position r + inc\<rparr>"

text \<open>The loop of \<open>read_variable_byte_int\<close>: it copies up to four bytes, counts one more than
  the continuation bytes seen, and clears the rest of the array once a byte ends the integer.\<close>

function read_vbi_loop :: "buff_reader \<Rightarrow> nat \<Rightarrow> nat \<Rightarrow> bytes \<Rightarrow> (buffer_error, nat \<times> bytes) outcome" where
  "read_vbi_loop r x len v =
     (if x \<ge> 4 then Ok (len, v)
      else if rd_position r + x \<ge> rd_len r then Err InsufficientBufferSize
      else case index (rd_buffer r) (rd_position r + x) of
             None \<Rightarrow> Panic
           | Some b \<Rightarrow>
               if b AND 128 \<noteq> 0 then read_vbi_loop r (Suc x) (len + 1) (v[x := b])
               else Ok (len, take (Suc x) (v[x := b]) @ replicate (4 - Suc x) 0))"
  by pat_completeness auto
termination
  by (relation "measure (\<lambda>(r, x, len, v). 4 - x)") auto

declare read_vbi_loop.simps [simp del]

definition read_variable_byte_int :: "u32 reads" where
  "read_variable_byte_int r =
     (case read_vbi_loop r 0 1 [0, 0, 0, 0] of
        Ok (len, v) \<Rightarrow> (vbi_decode v, increment_position len r)
      | Err e \<Rightarrow> (Err e, r)
      | Panic \<Rightarrow> (Panic, r))"

definition read_u32 :: "u32 reads" where
  "read_u32 r =
     (if rd_position r + 4 > rd_len r then (Err InsufficientBufferSize, r)
      else case slice (rd_buffer r) (rd_position r) (rd_position r + 4) of
             None \<Rightarrow> (Panic, r)
           | Some int_bytes \<Rightarrow> (unwrap_option (u32_from_be int_bytes), increment_position 4 r))"

definition read_u16 :: "u16 reads" where
  "read_u16 r =
     (if rd_position r + 2 > rd_len r then (Err InsufficientBufferSize, r)
      else case slice (rd_buffer r) (rd_position r) (rd_position r + 2) of
             None \<Rightarrow> (Panic, r)
           | Some int_bytes \<Rightarrow> (unwrap_option (u16_from_be int_bytes), increment_position 2 r))"

definition read_u8 :: "u8 reads" where
  "read_u8 r =
     (if rd_position r \<ge> rd_len r then (Err InsufficientBufferSize, r)
      else case index (rd_buffer r) (rd_position r) of
             None \<Rightarrow> (Panic, r)
           | Some b \<Rightarrow> (Ok b, increment_position 1 r))"

definition read_string :: "encoded_string reads" where
  "read_string = andq read_u16 (\<lambda>n r.
     let len = unat n in
     if rd_position r + len > rd_len r then (Err InsufficientBufferSize, r)
     else case slice (rd_buffer r) (rd_position r) (rd_position r + len) of
            None \<Rightarrow> (Panic, r)
          | Some res_str \<Rightarrow>
              if \<not> utf8_valid res_str then (Err Utf8Error, r)
              else (Ok \<lparr>es_string = res_str, es_len = n\<rparr>, increment_position len r))"

text \<open>Unlike \<open>read_string\<close>, the code returns the binary data without moving past it.\<close>

definition read_binary :: "binary_data reads" where
  "read_binary = andq read_u16 (\<lambda>n r.
     if rd_position r + unat n > rd_len r then (Err InsufficientBufferSize, r)
     else case slice (rd_buffer r) (rd_position r) (rd_position r + unat n) of
            None \<Rightarrow> (Panic, r)
          | Some res_bin \<Rightarrow> (Ok \<lparr>bd_bin = res_bin, bd_len = n\<rparr>, r))"

definition read_string_pair :: "string_pair reads" where
  "read_string_pair = andq read_string (\<lambda>name. andq read_string (\<lambda>value.
     ret \<lparr>sp_name = name, sp_value = value\<rparr>))"

definition read_message :: "nat \<Rightarrow> bytes reads" where
  "read_message total_len r =
     (if total_len > rd_len r
      then (unwrap_option (slice (rd_buffer r) (rd_position r) (rd_len r)), r)
      else (unwrap_option (slice (rd_buffer r) (rd_position r) total_len), r))"

definition peek_u8 :: "buff_reader \<Rightarrow> (buffer_error, u8) outcome" where
  "peek_u8 r =
     (if rd_position r \<ge> rd_len r then Err InsufficientBufferSize
      else unwrap_option (index (rd_buffer r) (rd_position r)))"

section \<open>The contracts of a read\<close>

definition rd_inv :: "buff_reader \<Rightarrow> bool" where
  "rd_inv r \<longleftrightarrow> rd_position r \<le> rd_len r \<and> rd_len r \<le> length (rd_buffer r)"

definition remaining :: "buff_reader \<Rightarrow> bytes" where
  "remaining r = drop (rd_position r) (take (rd_len r) (rd_buffer r))"

definition parses :: "'a reads \<Rightarrow> bytes \<Rightarrow> 'a \<Rightarrow> bool" where
  "parses m bs a \<longleftrightarrow> (\<forall>r cs. rd_inv r \<longrightarrow> remaining r = bs @ cs \<longrightarrow>
     m r = (Ok a, increment_position (length bs) r))"

definition rd_safe :: "'a reads \<Rightarrow> bool" where
  "rd_safe m \<longleftrightarrow> (\<forall>r. rd_inv r \<longrightarrow> fst (m r) \<noteq> Panic \<and>
     (\<exists>n. snd (m r) = increment_position n r \<and> n \<le> length (remaining r)))"

definition rd_mono :: "'a reads \<Rightarrow> bool" where
  "rd_mono m \<longleftrightarrow> (\<forall>r a r'. m r = (Ok a, r') \<longrightarrow> (\<exists>n. r' = increment_position n r))"

lemma increment_position_simps [simp]:
  "rd_position (increment_position n r) = rd_position r + n"
  "rd_len (increment_position n r) = rd_len r"
  "rd_buffer (increment_position n r) = rd_buffer r"
  "increment_position 0 r = r"
  "increment_position m (increment_position n r) = increment_position (n + m) r"
  by (simp_all add: increment_position_def add.assoc)

lemma length_remaining: "rd_inv r \<Longrightarrow> length (remaining r) = rd_len r - rd_position r"
  by (simp add: remaining_def rd_inv_def)

lemma remaining_increment: "remaining (increment_position n r) = drop n (remaining r)"
  by (simp add: remaining_def add.commute)

lemma rd_inv_increment: "rd_inv r \<Longrightarrow> n \<le> length (remaining r) \<Longrightarrow> rd_inv (increment_position n r)"
  by (auto simp: rd_inv_def remaining_def)

lemma slice_remaining:
  "rd_inv r \<Longrightarrow> rd_position r + n \<le> rd_len r \<Longrightarrow>
   slice (rd_buffer r) (rd_position r) (rd_position r + n) = Some (take n (remaining r))"
  by (simp add: slice_def rd_inv_def remaining_def drop_take min_def)

lemma index_remaining:
  "rd_inv r \<Longrightarrow> rd_position r + n < rd_len r \<Longrightarrow>
   index (rd_buffer r) (rd_position r + n) = Some (remaining r ! n)"
  by (simp add: index_def rd_inv_def remaining_def)

lemma remaining_bound:
  "rd_inv r \<Longrightarrow> remaining r = bs @ cs \<Longrightarrow> rd_position r + length bs \<le> rd_len r"
  using length_remaining [of r] by (auto simp: rd_inv_def)

lemma parsesD: "parses m bs a \<Longrightarrow> rd_inv r \<Longrightarrow> remaining r = bs @ cs \<Longrightarrow>
  m r = (Ok a, increment_position (length bs) r)"
  by (simp add: parses_def)

lemma parses_ret [intro]: "parses (ret a) [] a"
  by (simp add: parses_def)

lemma parses_andq [intro]:
  assumes m: "parses m bs a" and f: "parses (f a) cs b"
  shows "parses (andq m f) (bs @ cs) b"
  unfolding parses_def
proof (intro allI impI)
  fix r ds assume r: "rd_inv r" and rem: "remaining r = (bs @ cs) @ ds"
  have "andq m f r = f a (increment_position (length bs) r)"
    by (rule andq_Ok, rule parsesD [OF m r, of "cs @ ds"]) (simp add: rem)
  also have "\<dots> = (Ok b, increment_position (length cs) (increment_position (length bs) r))"
  proof (rule parsesD [OF f])
    show "rd_inv (increment_position (length bs) r)" by (rule rd_inv_increment [OF r]) (simp add: rem)
    show "remaining (increment_position (length bs) r) = cs @ ds" by (simp add: remaining_increment rem)
  qed
  finally show "andq m f r = (Ok b, increment_position (length (bs @ cs)) r)" by simp
qed

lemma rd_safe_ret [intro]: "rd_safe (ret a)"
  by (auto simp: rd_safe_def intro!: exI [of _ 0])

lemma rd_safe_throw [intro]: "rd_safe (throw e)"
  by (auto simp: rd_safe_def intro!: exI [of _ 0])

lemma rd_safe_andq [intro]:
  assumes m: "rd_safe m" and f: "\<And>a. rd_safe (f a)"
  shows "rd_safe (andq m f)"
  unfolding rd_safe_def
proof (intro allI impI)
  fix r assume r: "rd_inv r"
  from m r obtain n where n: "fst (m r) \<noteq> Panic" "snd (m r) = increment_position n r"
    "n \<le> length (remaining r)" by (auto simp: rd_safe_def)
  show "fst (andq m f r) \<noteq> Panic \<and>
    (\<exists>n. snd (andq m f r) = increment_position n r \<and> n \<le> length (remaining r))"
  proof (cases "fst (m r)")
    case (Ok a)
    then have mr: "m r = (Ok a, increment_position n r)" using n(2) by (metis prod.collapse)
    have "rd_inv (increment_position n r)" using r n(3) by (rule rd_inv_increment)
    then obtain k where k: "fst (f a (increment_position n r)) \<noteq> Panic"
      "snd (f a (increment_position n r)) = increment_position (n + k) r"
      "k \<le> length (remaining (increment_position n r))"
      using f [of a] by (fastforce simp: rd_safe_def)
    then show ?thesis
      using n(3) by (auto simp: andq_Ok [where m = m and s = r, OF mr] remaining_increment intro!: exI [of _ "n + k"])
  next
    case (Err e)
    then have "m r = (Err e, increment_position n r)" using n(2) by (metis prod.collapse)
    then show ?thesis using n(3) by (auto simp: andq_Err)
  next
    case Panic
    with n(1) show ?thesis by simp
  qed
qed

lemma rd_mono_ret [intro]: "rd_mono (ret a)"
  by (auto simp: rd_mono_def intro: exI [of _ 0])

lemma rd_mono_andq [intro]: "rd_mono m \<Longrightarrow> (\<And>a. rd_mono (f a)) \<Longrightarrow> rd_mono (andq m f)"
  unfolding rd_mono_def by (fastforce simp: andq_eq_Ok)

section \<open>Contracts of the reads\<close>

lemma parses_read_u8 [intro]: "parses read_u8 [b] b"
  unfolding parses_def
proof (intro allI impI)
  fix r cs assume r: "rd_inv r" and rem: "remaining r = [b] @ cs"
  from remaining_bound [OF this] have "rd_position r + 0 < rd_len r" by simp
  with index_remaining [OF r this] rem show "read_u8 r = (Ok b, increment_position (length [b]) r)"
    by (simp add: read_u8_def)
qed

lemma parses_read_u16 [intro]: "parses read_u16 (u16_to_be x) x"
  unfolding parses_def
proof (intro allI impI)
  fix r cs assume r: "rd_inv r" and rem: "remaining r = u16_to_be x @ cs"
  from remaining_bound [OF this] have "rd_position r + 2 \<le> rd_len r" by simp
  with slice_remaining [OF r this] rem
  show "read_u16 r = (Ok x, increment_position (length (u16_to_be x)) r)"
    by (simp add: read_u16_def)
qed

lemma parses_read_u32 [intro]: "parses read_u32 (u32_to_be x) x"
  unfolding parses_def
proof (intro allI impI)
  fix r cs assume r: "rd_inv r" and rem: "remaining r = u32_to_be x @ cs"
  from remaining_bound [OF this] have "rd_position r + 4 \<le> rd_len r" by simp
  with slice_remaining [OF r this] rem
  show "read_u32 r = (Ok x, increment_position (length (u32_to_be x)) r)"
    by (simp add: read_u32_def)
qed

lemma parses_read_string [intro]:
  assumes "string_wf s"
  shows "parses read_string (string_bytes s) s"
proof -
  let ?f = "\<lambda>r. let len = unat (es_len s) in
     if rd_position r + len > rd_len r then (Err InsufficientBufferSize, r)
     else case slice (rd_buffer r) (rd_position r) (rd_position r + len) of
            None \<Rightarrow> (Panic, r)
          | Some res_str \<Rightarrow>
              if \<not> utf8_valid res_str then (Err Utf8Error, r)
              else (Ok \<lparr>es_string = res_str, es_len = es_len s\<rparr>, increment_position len r)"
  have "parses ?f (es_string s) s"
    unfolding parses_def
  proof (intro allI impI)
    fix r cs assume r: "rd_inv r" and rem: "remaining r = es_string s @ cs"
    from remaining_bound [OF this] assms have "rd_position r + unat (es_len s) \<le> rd_len r"
      by (simp add: string_wf_def)
    with slice_remaining [OF r this] rem assms
    show "?f r = (Ok s, increment_position (length (es_string s)) r)"
      by (simp add: string_wf_def Let_def)
  qed
  then have "parses read_string (u16_to_be (es_len s) @ es_string s) s"
    unfolding read_string_def by (rule parses_andq [OF parses_read_u16])
  then show ?thesis using assms by (simp add: string_bytes_def string_wf_def)
qed

lemma parses_read_string_pair [intro]: "pair_wf p \<Longrightarrow> parses read_string_pair (pair_bytes p) p"
  unfolding read_string_pair_def pair_bytes_def pair_wf_def
  using parses_andq [OF parses_read_string parses_andq [OF parses_read_string parses_ret]]
  by (cases p) (fastforce simp: Let_def)

lemma rd_safe_read_u8 [intro]: "rd_safe read_u8"
  unfolding rd_safe_def
  using index_remaining [of _ 0]
  by (auto simp: read_u8_def length_remaining intro!: exI [of _ 0] exI [of _ 1])

lemma rd_safe_step:
  assumes "\<And>r. rd_inv r \<Longrightarrow> (\<exists>e. m r = (Err e, r)) \<or>
     (\<exists>a n. m r = (Ok a, increment_position n r) \<and> rd_position r + n \<le> rd_len r)"
  shows "rd_safe m"
  unfolding rd_safe_def
proof (intro allI impI)
  fix r assume r: "rd_inv r"
  from assms [OF r] show "fst (m r) \<noteq> Panic \<and>
    (\<exists>n. snd (m r) = increment_position n r \<and> n \<le> length (remaining r))"
    by (auto simp: length_remaining [OF r] intro: exI [of _ 0])
qed

lemma from_be_total:
  "length xs = 2 \<Longrightarrow> \<exists>x. u16_from_be xs = Some x"
  "length xs = 4 \<Longrightarrow> \<exists>y. u32_from_be xs = Some y"
  by (auto simp: numeral_eq_Suc length_Suc_conv)

lemma rd_safe_read_u16 [intro]: "rd_safe read_u16"
proof (rule rd_safe_step)
  fix r assume r: "rd_inv r"
  show "(\<exists>e. read_u16 r = (Err e, r)) \<or>
    (\<exists>a n. read_u16 r = (Ok a, increment_position n r) \<and> rd_position r + n \<le> rd_len r)"
  proof (cases "rd_position r + 2 \<le> rd_len r")
    case True
    then have "length (take 2 (remaining r)) = 2" using length_remaining [OF r] by simp
    then obtain x where "u16_from_be (take 2 (remaining r)) = Some x" using from_be_total by blast
    with True slice_remaining [OF r True] show ?thesis by (auto simp: read_u16_def)
  qed (simp add: read_u16_def)
qed

lemma rd_safe_read_u32 [intro]: "rd_safe read_u32"
proof (rule rd_safe_step)
  fix r assume r: "rd_inv r"
  show "(\<exists>e. read_u32 r = (Err e, r)) \<or>
    (\<exists>a n. read_u32 r = (Ok a, increment_position n r) \<and> rd_position r + n \<le> rd_len r)"
  proof (cases "rd_position r + 4 \<le> rd_len r")
    case True
    then have "length (take 4 (remaining r)) = 4" using length_remaining [OF r] by simp
    then obtain x where "u32_from_be (take 4 (remaining r)) = Some x" using from_be_total by blast
    with True slice_remaining [OF r True] show ?thesis by (auto simp: read_u32_def)
  qed (simp add: read_u32_def)
qed

lemma rd_safe_read_string [intro]: "rd_safe read_string"
  unfolding read_string_def
  by (intro rd_safe_andq rd_safe_read_u16, rule rd_safe_step) (auto simp: Let_def slice_remaining)

lemma rd_safe_read_binary [intro]: "rd_safe read_binary"
  unfolding read_binary_def
  by (intro rd_safe_andq rd_safe_read_u16, rule rd_safe_step)
    (auto simp: slice_remaining intro!: exI [of _ 0] simp: rd_inv_def)

lemma rd_safe_read_string_pair [intro]: "rd_safe read_string_pair"
  unfolding read_string_pair_def by blast

lemma rd_mono_read_u8 [intro]: "rd_mono read_u8"
  by (auto simp: rd_mono_def read_u8_def split: if_splits option.splits)

lemma rd_mono_read_u16 [intro]: "rd_mono read_u16"
  by (auto simp: rd_mono_def read_u16_def split: if_splits option.splits)

lemma rd_mono_read_u32 [intro]: "rd_mono read_u32"
  by (auto simp: rd_mono_def read_u32_def split: if_splits option.splits)

lemma rd_mono_read_string [intro]: "rd_mono read_string"
  unfolding read_string_def
  by (intro rd_mono_andq rd_mono_read_u16)
    (auto simp: rd_mono_def Let_def split: if_splits option.splits)

lemma rd_mono_read_binary [intro]: "rd_mono read_binary"
  unfolding read_binary_def
  by (intro rd_mono_andq rd_mono_read_u16)
    (auto simp: rd_mono_def split: if_splits option.splits intro: exI [of _ 0])

lemma rd_mono_read_string_pair [intro]: "rd_mono read_string_pair"
  unfolding read_string_pair_def by blast

lemma rd_mono_read_variable_byte_int [intro]: "rd_mono read_variable_byte_int"
  by (auto simp: rd_mono_def read_variable_byte_int_def split: outcome.splits)

section \<open>Reading a variable byte integer\<close>

lemma zeros_4: "[0, 0, 0, 0] = replicate 4 (0::u8)"
  by code_simp

lemma read_vbi_loop_word:
  "rd_inv r \<Longrightarrow> remaining r = ps @ bs @ cs \<Longrightarrow> vbi_word bs \<Longrightarrow> length ps + length bs \<le> 4 \<Longrightarrow>
   read_vbi_loop r (length ps) (Suc (length ps)) (ps @ replicate (4 - length ps) 0)
     = Ok (length ps + length bs, ps @ bs @ replicate (4 - length ps - length bs) 0)"
proof (induction bs arbitrary: ps)
  case (Cons b bs)
  have lt: "rd_position r + length ps < rd_len r"
    using remaining_bound [OF Cons.prems(1), of "ps @ [b]" "bs @ cs"] Cons.prems(2) by simp
  have idx: "index (rd_buffer r) (rd_position r + length ps) = Some b"
    unfolding index_remaining [OF Cons.prems(1) lt] by (simp add: Cons.prems(2))
  have pos: "\<not> rd_position r + length ps \<ge> rd_len r" using lt by simp
  have ps: "length ps < 4" using Cons.prems(4) by simp
  then obtain m where m: "4 - length ps = Suc m" by (metis Suc_diff_Suc)
  show ?case
  proof (cases "b AND 128 = 0")
    case True
    with Cons.prems idx pos ps m show ?thesis
      by (subst read_vbi_loop.simps) (simp add: list_update_append)
  next
    case False
    have "read_vbi_loop r (length (ps @ [b])) (Suc (length (ps @ [b]))) ((ps @ [b]) @ replicate (4 - length (ps @ [b])) 0)
      = Ok (length (ps @ [b]) + length bs, (ps @ [b]) @ bs @ replicate (4 - length (ps @ [b]) - length bs) 0)"
      by (rule Cons.IH) (use Cons.prems False in auto)
    moreover have "4 - length (ps @ [b]) = m" using m by simp
    ultimately show ?thesis using False idx pos ps m
      by (subst read_vbi_loop.simps) (simp add: list_update_append)
  qed
qed simp

lemma read_vbi_loop_cont:
  "rd_inv r \<Longrightarrow> remaining r = ps @ qs @ cs \<Longrightarrow> \<forall>b \<in> set qs. b AND 128 \<noteq> 0 \<Longrightarrow> length ps + length qs \<le> 4 \<Longrightarrow>
   read_vbi_loop r (length ps) (Suc (length ps)) (ps @ replicate (4 - length ps) 0)
     = read_vbi_loop r (length (ps @ qs)) (Suc (length (ps @ qs))) (ps @ qs @ replicate (4 - length (ps @ qs)) 0)"
proof (induction qs arbitrary: ps)
  case (Cons b bs)
  have lt: "rd_position r + length ps < rd_len r"
    using remaining_bound [OF Cons.prems(1), of "ps @ [b]" "bs @ cs"] Cons.prems(2) by simp
  have idx: "index (rd_buffer r) (rd_position r + length ps) = Some b"
    unfolding index_remaining [OF Cons.prems(1) lt] by (simp add: Cons.prems(2))
  have pos: "\<not> rd_position r + length ps \<ge> rd_len r" using lt by simp
  have ps: "length ps < 4" using Cons.prems(4) by simp
  then obtain m where m: "4 - length ps = Suc m" by (metis Suc_diff_Suc)
  have "read_vbi_loop r (length (ps @ [b])) (Suc (length (ps @ [b]))) ((ps @ [b]) @ replicate (4 - length (ps @ [b])) 0)
    = read_vbi_loop r (length ((ps @ [b]) @ bs)) (Suc (length ((ps @ [b]) @ bs)))
        ((ps @ [b]) @ bs @ replicate (4 - length ((ps @ [b]) @ bs)) 0)"
    by (rule Cons.IH) (use Cons.prems in auto)
  moreover have "4 - length (ps @ [b]) = m" using m by simp
  moreover have "b AND 128 \<noteq> 0" using Cons.prems(3) by simp
  ultimately show ?case using idx pos ps m
    by (subst read_vbi_loop.simps) (simp add: list_update_append)
qed simp

lemma read_variable_byte_int_word:
  assumes r: "rd_inv r" and rem: "remaining r = bs @ cs" and bs: "vbi_word bs" "length bs \<le> 4"
  shows "read_variable_byte_int r = (Ok (of_nat (vbi_value bs)), increment_position (length bs) r)"
proof -
  let ?v = "bs @ replicate (4 - length bs) 0"
  have "read_vbi_loop r 0 1 [0, 0, 0, 0] = Ok (length bs, ?v)"
    using read_vbi_loop_word [OF r, of "[]" bs cs] rem bs by (simp add: zeros_4 [symmetric])
  moreover have "vbi_decode ?v = Ok (of_nat (vbi_value bs))"
    using vbi_decode_value [of ?v] bs
    by (simp add: vbi_ends_append vbi_word_ends vbi_word_value_append)
  ultimately show ?thesis by (simp add: read_variable_byte_int_def)
qed

lemma parses_read_variable_byte_int [intro]:
  assumes "unat x \<le> 268435455"
  shows "parses read_variable_byte_int (vbi_bytes x) x"
  unfolding parses_def
  using read_variable_byte_int_word [of _ "vbi_bytes x"] vbi_word_bytes [OF assms]
    vbi_groups_4_length [of x] vbi_value_bytes [OF assms, of "[]"]
  by simp

text \<open>All outcomes of reading a variable byte integer.\<close>

lemma read_variable_byte_int_cases:
  assumes r: "rd_inv r"
  obtains (ok) bs cs where "remaining r = bs @ cs" "vbi_word bs" "length bs \<le> 4"
      "read_variable_byte_int r = (Ok (of_nat (vbi_value bs)), increment_position (length bs) r)"
  | (short) "length (remaining r) < 4" "\<forall>b \<in> set (remaining r). b AND 128 \<noteq> 0"
      "read_variable_byte_int r = (Err InsufficientBufferSize, r)"
  | (overlong) "4 \<le> length (remaining r)" "\<forall>b \<in> set (take 4 (remaining r)). b AND 128 \<noteq> 0"
      "read_variable_byte_int r = (Panic, increment_position 5 r)"
proof -
  have long: thesis if l: "4 \<le> length (remaining r)" and c: "\<forall>b \<in> set (take 4 (remaining r)). b AND 128 \<noteq> 0"
  proof -
    let ?q = "take 4 (remaining r)"
    have "read_vbi_loop r 0 1 [0, 0, 0, 0] = read_vbi_loop r 4 5 ?q"
      using read_vbi_loop_cont [OF r, of "[]" ?q "drop 4 (remaining r)"] l c
      by (simp add: zeros_4 [symmetric] min_def)
    also have "\<dots> = Ok (5, ?q)" by (subst read_vbi_loop.simps) simp
    finally have "read_vbi_loop r 0 1 [0, 0, 0, 0] = Ok (5, ?q)" .
    moreover have "vbi_decode ?q = Panic"
      by (rule vbi_decode_panic_4) (use l c in \<open>auto simp: vbi_ends_def\<close>)
    ultimately have "read_variable_byte_int r = (Panic, increment_position 5 r)"
      by (simp add: read_variable_byte_int_def)
    with l c show thesis by (rule overlong)
  qed
  from vbi_split [of "remaining r"] show thesis
  proof
    assume "\<exists>bs cs. remaining r = bs @ cs \<and> vbi_word bs"
    then obtain bs cs where bs: "remaining r = bs @ cs" "vbi_word bs" by blast
    show thesis
    proof (cases "length bs \<le> 4")
      case True
      with bs read_variable_byte_int_word [OF r bs True] show thesis by (rule_tac ok)
    next
      case False
      with vbi_word_long [OF bs(2), of 4] bs(1) show thesis by (intro long) auto
    qed
  next
    assume c: "\<forall>b \<in> set (remaining r). b AND 128 \<noteq> 0"
    show thesis
    proof (cases "4 \<le> length (remaining r)")
      case True
      with c show thesis by (intro long) (auto dest: in_set_takeD)
    next
      case False
      let ?l = "length (remaining r)"
      have "read_vbi_loop r 0 1 [0, 0, 0, 0]
          = read_vbi_loop r ?l (Suc ?l) (remaining r @ replicate (4 - ?l) 0)"
        using read_vbi_loop_cont [OF r, of "[]" "remaining r" "[]"] False c
        by (simp add: zeros_4 [symmetric])
      also have "\<dots> = Err InsufficientBufferSize"
        using False length_remaining [OF r] by (subst read_vbi_loop.simps) auto
      finally have "read_variable_byte_int r = (Err InsufficientBufferSize, r)"
        by (simp add: read_variable_byte_int_def)
      with False c show thesis by (intro short) auto
    qed
  qed
qed

end
