(* ===== verification/Mqtt_Codec.thy ===== *)
theory Mqtt_Codec
  imports Mqtt_Writer Mqtt_Reader
begin

text \<open>
  The contract between a write and the read that goes with it, as a locale: the write emits a
  value's bytes, the read parses them. What follows is proved once: writing a value at the front
  of a buffer and reading what was written gives the value back and consumes all of it, and the
  same for a value behind others. The writer and reader operations of the code are its
  interpretations here; properties and packets follow in their theories.
\<close>

lemma rd_inv_new: "n \<le> length buf \<Longrightarrow> rd_inv (reader_new buf n)"
  by (simp add: rd_inv_def reader_new_def)

lemma remaining_new: "remaining (reader_new buf n) = take n buf"
  by (simp add: remaining_def reader_new_def)

lemma wr_inv_new: "n \<le> length buf \<Longrightarrow> wr_inv (writer_new buf n)"
  by (simp add: wr_inv_def writer_new_def)

lemma written_new [simp]: "written (writer_new buf n) = []"
  by (simp add: written_def writer_new_def)

locale codec =
  fixes wr :: "'a \<Rightarrow> unit writes"
    and rd :: "'a reads"
    and wire :: "'a \<Rightarrow> bytes"
    and ok :: "'a \<Rightarrow> bool"
  assumes wr_emits: "ok a \<Longrightarrow> emits (wr a) (wire a)"
    and rd_parses: "ok a \<Longrightarrow> parses rd (wire a) a"
begin

lemma write_appends:
  "ok a \<Longrightarrow> wr_inv w \<Longrightarrow> fits (wire a) w \<Longrightarrow> written (snd (wr a w)) = written w @ wire a"
  by (simp add: emitsD [OF wr_emits] written_put_bytes)

lemma write_Ok_iff: "ok a \<Longrightarrow> wr_inv w \<Longrightarrow> fst (wr a w) = Ok () \<longleftrightarrow> fits (wire a) w"
  using wr_emits [of a] by (auto simp: emits_def split: if_splits)

lemma write_not_Panic: "ok a \<Longrightarrow> wr_inv w \<Longrightarrow> fst (wr a w) \<noteq> Panic"
  using wr_emits [of a] by (auto simp: emits_def split: if_splits)

lemma read_written:
  assumes a: "ok a" and n: "n \<le> length buf" and w: "wr a (writer_new buf n) = (Ok (), w')"
  shows "rd (reader_new (wr_buffer w') (wr_position w'))
       = (Ok a, increment_position (wr_position w') (reader_new (wr_buffer w') (wr_position w')))"
proof -
  have f: "fits (wire a) (writer_new buf n)"
    using write_Ok_iff [OF a wr_inv_new [OF n]] w by simp
  then have w': "w' = put_bytes (wire a) (writer_new buf n)"
    using emitsD [OF wr_emits [OF a] wr_inv_new [OF n]] w by simp
  have "written w' = wire a"
    using written_put_bytes [OF wr_inv_new [OF n] f] by (simp add: w')
  moreover have "wr_position w' = length (wire a)" by (simp add: w' writer_new_def)
  moreover have "wr_position w' \<le> length (wr_buffer w')"
    using wr_inv_put_bytes [OF wr_inv_new [OF n] f] by (simp add: w' wr_inv_def)
  ultimately show ?thesis
    using parsesD [OF rd_parses [OF a] rd_inv_new, of "wr_position w'" "wr_buffer w'" "[]"]
    by (simp add: remaining_new written_def)
qed

end

interpretation u8_codec: codec write_u8 read_u8 "\<lambda>b. [b]" "\<lambda>_. True"
  by unfold_locales auto

interpretation u16_codec: codec write_u16 read_u16 u16_to_be "\<lambda>_. True"
  by unfold_locales auto

interpretation u32_codec: codec write_u32 read_u32 u32_to_be "\<lambda>_. True"
  by unfold_locales auto

interpretation vbi_codec: codec write_variable_byte_int read_variable_byte_int vbi_bytes
    "\<lambda>x. unat x \<le> 268435455"
  by unfold_locales auto

interpretation string_codec: codec write_string_ref read_string string_bytes string_wf
  by unfold_locales auto

interpretation string_pair_codec: codec write_string_pair_ref read_string_pair pair_bytes pair_wf
  by unfold_locales auto

section \<open>Properties\<close>

text \<open>
  Writing a UTF-8 string pair into a fresh buffer and reading the bytes written gives the
  same pair and leaves the cursor behind it, for every buffer the write accepts.
\<close>

theorem string_pair_roundtrip:
  assumes "pair_wf p" "n \<le> length buf" "write_string_pair_ref p (writer_new buf n) = (Ok (), w)"
  shows "read_string_pair (reader_new (wr_buffer w) (wr_position w))
       = (Ok p, increment_position (wr_position w) (reader_new (wr_buffer w) (wr_position w)))"
  using assms by (rule string_pair_codec.read_written)

theorem string_pair_roundtrip_witness:
  "\<exists>p w. p = \<lparr>sp_name = \<lparr>es_string = lit ''ab'', es_len = 2\<rparr>, sp_value = \<lparr>es_string = [], es_len = 0\<rparr>\<rparr> \<and>
     write_string_pair_ref p (writer_new (replicate 8 7) 7) = (Ok (), w) \<and>
     wr_buffer w = [0, 2, 97, 98, 0, 0, 7, 7] \<and>
     read_string_pair (reader_new (wr_buffer w) (wr_position w))
       = (Ok p, increment_position (wr_position w) (reader_new (wr_buffer w) (wr_position w)))"
proof -
  let ?p = "\<lparr>sp_name = \<lparr>es_string = lit ''ab'', es_len = 2\<rparr>, sp_value = \<lparr>es_string = [], es_len = 0\<rparr>\<rparr>"
  let ?w = "\<lparr>wr_buffer = [0, 2, 97, 98, 0, 0, 7, 7], wr_position = 6, wr_len = 7\<rparr>"
  have wf: "pair_wf ?p" by code_simp
  have len: "(7 :: nat) \<le> length (replicate 8 (7 :: u8))" by simp
  have w: "write_string_pair_ref ?p (writer_new (replicate 8 7) 7) = (Ok (), ?w)" by code_simp
  show ?thesis
    by (rule exI [of _ ?p], rule exI [of _ ?w]) (use w string_pair_roundtrip [OF wf len w] in simp)
qed

text \<open>
  Reading a variable byte integer from received bytes has three outcomes: the value of a
  complete integer of at most four bytes, with the cursor behind it; \<open>InsufficientBufferSize\<close>
  where the bytes end before the integer does; and a panic where the next four bytes all carry
  the continuation bit. The panic is in the hands of the peer.
\<close>

theorem read_variable_byte_int_outcomes:
  assumes "rd_inv r"
  shows "fst (read_variable_byte_int r) =
    (if 4 \<le> length (remaining r) \<and> (\<forall>b \<in> set (take 4 (remaining r)). b AND 128 \<noteq> 0) then Panic
     else if \<forall>b \<in> set (remaining r). b AND 128 \<noteq> 0 then Err InsufficientBufferSize
     else Ok (of_nat (vbi_value (remaining r))))"
proof (cases rule: read_variable_byte_int_cases [OF assms])
  case (1 bs cs)
  have "\<not> (\<forall>b \<in> set bs. b AND 128 \<noteq> 0)"
    using vbi_word_ends [OF 1(2)] by (auto simp: vbi_ends_def)
  moreover have "set bs \<subseteq> set (take 4 (remaining r))" "set bs \<subseteq> set (remaining r)"
    using 1(1,3) by (auto simp: take_all)
  ultimately show ?thesis
    using 1 vbi_word_value_append [OF 1(2), of cs] by auto
qed auto

theorem read_variable_byte_int_outcomes_witness:
  "fst (read_variable_byte_int (reader_new [128, 128, 128, 128, 1] 5)) = Panic"
proof -
  have "rd_inv (reader_new [128, 128, 128, 128, 1] 5)" by (rule rd_inv_new) simp
  from read_variable_byte_int_outcomes [OF this] show ?thesis
    by (simp add: remaining_new)
qed

end
