(* ===== verification/Mqtt_Property.thy ===== *)
theory Mqtt_Property
  imports Mqtt_Codec
begin

text \<open>
  The properties of MQTT v5 packets (rust-mqtt/src/packet/v5/property.rs) and the two writer
  operations that write them (\<open>write_property\<close>, \<open>write_properties\<close> of buffer_writer.rs).

  \<open>property_bytes\<close> is what a well-formed property takes on the wire. The encoder emits it, the
  announced length counts it (modulo the width of the field), and the decoder parses it back,
  except for the two binary properties, after which the decoder stands at the data and not
  behind it.
\<close>

section \<open>The properties\<close>

datatype property =
    PayloadFormat u8
  | MessageExpiryInterval u32
  | ContentType encoded_string
  | ResponseTopic encoded_string
  | CorrelationData binary_data
  | SubscriptionIdentifier u32
  | SessionExpiryInterval u32
  | AssignedClientIdentifier encoded_string
  | ServerKeepAlive u16
  | AuthenticationMethod encoded_string
  | AuthenticationData binary_data
  | RequestProblemInformation u8
  | WillDelayInterval u32
  | RequestResponseInformation u8
  | ResponseInformation encoded_string
  | ServerReference encoded_string
  | ReasonString encoded_string
  | ReceiveMaximum u16
  | TopicAliasMaximum u16
  | TopicAlias u16
  | MaximumQoS u8
  | RetainAvailable u8
  | UserProperty string_pair
  | MaximumPacketSize u32
  | WildcardSubscriptionAvailable u8
  | SubscriptionIdentifierAvailable u8
  | SharedSubscriptionAvailable u8
  | Reserved

section \<open>Which packet admits which property\<close>

definition connect_property :: "property \<Rightarrow> bool" where
  "connect_property p = (case p of
       SessionExpiryInterval _ \<Rightarrow> True
     | ReceiveMaximum _ \<Rightarrow> True
     | MaximumPacketSize _ \<Rightarrow> True
     | TopicAliasMaximum _ \<Rightarrow> True
     | RequestResponseInformation _ \<Rightarrow> True
     | RequestProblemInformation _ \<Rightarrow> True
     | UserProperty _ \<Rightarrow> True
     | AuthenticationMethod _ \<Rightarrow> True
     | AuthenticationData _ \<Rightarrow> True
     | _ \<Rightarrow> False)"

definition connack_property :: "property \<Rightarrow> bool" where
  "connack_property p = (case p of
       SessionExpiryInterval _ \<Rightarrow> True
     | ReceiveMaximum _ \<Rightarrow> True
     | MaximumQoS _ \<Rightarrow> True
     | MaximumPacketSize _ \<Rightarrow> True
     | AssignedClientIdentifier _ \<Rightarrow> True
     | TopicAliasMaximum _ \<Rightarrow> True
     | ReasonString _ \<Rightarrow> True
     | UserProperty _ \<Rightarrow> True
     | WildcardSubscriptionAvailable _ \<Rightarrow> True
     | SubscriptionIdentifierAvailable _ \<Rightarrow> True
     | SharedSubscriptionAvailable _ \<Rightarrow> True
     | ServerKeepAlive _ \<Rightarrow> True
     | ResponseInformation _ \<Rightarrow> True
     | ServerReference _ \<Rightarrow> True
     | AuthenticationMethod _ \<Rightarrow> True
     | AuthenticationData _ \<Rightarrow> True
     | _ \<Rightarrow> False)"

definition publish_property :: "property \<Rightarrow> bool" where
  "publish_property p = (case p of
       PayloadFormat _ \<Rightarrow> True
     | MessageExpiryInterval _ \<Rightarrow> True
     | TopicAlias _ \<Rightarrow> True
     | ResponseTopic _ \<Rightarrow> True
     | CorrelationData _ \<Rightarrow> True
     | UserProperty _ \<Rightarrow> True
     | SubscriptionIdentifier _ \<Rightarrow> True
     | ContentType _ \<Rightarrow> True
     | _ \<Rightarrow> False)"

definition puback_property :: "property \<Rightarrow> bool" where
  "puback_property p = (case p of
       ReasonString _ \<Rightarrow> True
     | UserProperty _ \<Rightarrow> True
     | _ \<Rightarrow> False)"

definition pubrec_property :: "property \<Rightarrow> bool" where
  "pubrec_property p = (case p of
       ReasonString _ \<Rightarrow> True
     | UserProperty _ \<Rightarrow> True
     | _ \<Rightarrow> False)"

definition pubrel_property :: "property \<Rightarrow> bool" where
  "pubrel_property p = (case p of
       ReasonString _ \<Rightarrow> True
     | UserProperty _ \<Rightarrow> True
     | _ \<Rightarrow> False)"

definition pubcomp_property :: "property \<Rightarrow> bool" where
  "pubcomp_property p = (case p of
       ReasonString _ \<Rightarrow> True
     | UserProperty _ \<Rightarrow> True
     | _ \<Rightarrow> False)"

definition subscribe_property :: "property \<Rightarrow> bool" where
  "subscribe_property p = (case p of
       SubscriptionIdentifier _ \<Rightarrow> True
     | UserProperty _ \<Rightarrow> True
     | _ \<Rightarrow> False)"

definition suback_property :: "property \<Rightarrow> bool" where
  "suback_property p = (case p of
       ReasonString _ \<Rightarrow> True
     | UserProperty _ \<Rightarrow> True
     | _ \<Rightarrow> False)"

definition unsubscribe_property :: "property \<Rightarrow> bool" where
  "unsubscribe_property p = (case p of
       UserProperty _ \<Rightarrow> True
     | _ \<Rightarrow> False)"

definition unsuback_property :: "property \<Rightarrow> bool" where
  "unsuback_property p = (case p of
       ReasonString _ \<Rightarrow> True
     | UserProperty _ \<Rightarrow> True
     | _ \<Rightarrow> False)"

definition pingreq_property :: "property \<Rightarrow> bool" where
  "pingreq_property p = False"

definition pingresp_property :: "property \<Rightarrow> bool" where
  "pingresp_property p = False"

definition disconnect_property :: "property \<Rightarrow> bool" where
  "disconnect_property p = (case p of
       SessionExpiryInterval _ \<Rightarrow> True
     | ReasonString _ \<Rightarrow> True
     | UserProperty _ \<Rightarrow> True
     | ServerReference _ \<Rightarrow> True
     | _ \<Rightarrow> False)"

definition auth_property :: "property \<Rightarrow> bool" where
  "auth_property p = (case p of
       AuthenticationMethod _ \<Rightarrow> True
     | AuthenticationData _ \<Rightarrow> True
     | ReasonString _ \<Rightarrow> True
     | UserProperty _ \<Rightarrow> True
     | _ \<Rightarrow> False)"

section \<open>Identifier, length, encoder and decoder\<close>

text \<open>The identifier byte, \<open>From<&Property>\<close> for \<open>u8\<close>; \<open>Reserved\<close> has none and is 0.\<close>

fun property_id :: "property \<Rightarrow> u8" where
  "property_id (PayloadFormat u) = 0x1"
| "property_id (MessageExpiryInterval u) = 0x2"
| "property_id (ContentType u) = 0x3"
| "property_id (ResponseTopic u) = 0x8"
| "property_id (CorrelationData u) = 0x9"
| "property_id (SubscriptionIdentifier u) = 0xb"
| "property_id (SessionExpiryInterval u) = 0x11"
| "property_id (AssignedClientIdentifier u) = 0x12"
| "property_id (ServerKeepAlive u) = 0x13"
| "property_id (AuthenticationMethod u) = 0x15"
| "property_id (AuthenticationData u) = 0x16"
| "property_id (RequestProblemInformation u) = 0x17"
| "property_id (WillDelayInterval u) = 0x18"
| "property_id (RequestResponseInformation u) = 0x19"
| "property_id (ResponseInformation u) = 0x1a"
| "property_id (ServerReference u) = 0x1c"
| "property_id (ReasonString u) = 0x1f"
| "property_id (ReceiveMaximum u) = 0x21"
| "property_id (TopicAliasMaximum u) = 0x22"
| "property_id (TopicAlias u) = 0x23"
| "property_id (MaximumQoS u) = 0x24"
| "property_id (RetainAvailable u) = 0x25"
| "property_id (UserProperty u) = 0x26"
| "property_id (MaximumPacketSize u) = 0x27"
| "property_id (WildcardSubscriptionAvailable u) = 0x28"
| "property_id (SubscriptionIdentifierAvailable u) = 0x29"
| "property_id (SharedSubscriptionAvailable u) = 0x2a"
| "property_id Reserved = 0x00"

definition property_from_u8 :: "u8 \<Rightarrow> property" where
  "property_from_u8 orig = Reserved"

text \<open>The length announced for a property, without its identifier: a \<open>u16\<close>, which wraps.\<close>

fun property_encoded_len :: "property \<Rightarrow> (buffer_error, u16) outcome" where
  "property_encoded_len (PayloadFormat u) = Ok 1"
| "property_encoded_len (MessageExpiryInterval u) = Ok 4"
| "property_encoded_len (ContentType u) = Ok (encoded_string_encoded_len u)"
| "property_encoded_len (ResponseTopic u) = Ok (encoded_string_encoded_len u)"
| "property_encoded_len (CorrelationData u) = Ok (binary_data_encoded_len u)"
| "property_encoded_len (SubscriptionIdentifier u) =
     bind_outcome (unwrap_result (vbi_encode u)) (\<lambda>v. bind_outcome (vbi_len v) (\<lambda>n. Ok (of_nat n)))"
| "property_encoded_len (SessionExpiryInterval u) = Ok 4"
| "property_encoded_len (AssignedClientIdentifier u) = Ok (encoded_string_encoded_len u)"
| "property_encoded_len (ServerKeepAlive u) = Ok 2"
| "property_encoded_len (AuthenticationMethod u) = Ok (encoded_string_encoded_len u)"
| "property_encoded_len (AuthenticationData u) = Ok (binary_data_encoded_len u)"
| "property_encoded_len (RequestProblemInformation u) = Ok 1"
| "property_encoded_len (WillDelayInterval u) = Ok 4"
| "property_encoded_len (RequestResponseInformation u) = Ok 1"
| "property_encoded_len (ResponseInformation u) = Ok (encoded_string_encoded_len u)"
| "property_encoded_len (ServerReference u) = Ok (encoded_string_encoded_len u)"
| "property_encoded_len (ReasonString u) = Ok (encoded_string_encoded_len u)"
| "property_encoded_len (ReceiveMaximum u) = Ok 2"
| "property_encoded_len (TopicAliasMaximum u) = Ok 2"
| "property_encoded_len (TopicAlias u) = Ok 2"
| "property_encoded_len (MaximumQoS u) = Ok 1"
| "property_encoded_len (RetainAvailable u) = Ok 1"
| "property_encoded_len (UserProperty u) = Ok (string_pair_encoded_len u)"
| "property_encoded_len (MaximumPacketSize u) = Ok 4"
| "property_encoded_len (WildcardSubscriptionAvailable u) = Ok 1"
| "property_encoded_len (SubscriptionIdentifierAvailable u) = Ok 1"
| "property_encoded_len (SharedSubscriptionAvailable u) = Ok 1"
| "property_encoded_len Reserved = Ok 0"

fun property_encode :: "property \<Rightarrow> unit writes" where
  "property_encode (PayloadFormat u) = write_u8 u"
| "property_encode (MessageExpiryInterval u) = write_u32 u"
| "property_encode (ContentType u) = write_string_ref u"
| "property_encode (ResponseTopic u) = write_string_ref u"
| "property_encode (CorrelationData u) = write_binary_ref u"
| "property_encode (SubscriptionIdentifier u) = write_variable_byte_int u"
| "property_encode (SessionExpiryInterval u) = write_u32 u"
| "property_encode (AssignedClientIdentifier u) = write_string_ref u"
| "property_encode (ServerKeepAlive u) = write_u16 u"
| "property_encode (AuthenticationMethod u) = write_string_ref u"
| "property_encode (AuthenticationData u) = write_binary_ref u"
| "property_encode (RequestProblemInformation u) = write_u8 u"
| "property_encode (WillDelayInterval u) = write_u32 u"
| "property_encode (RequestResponseInformation u) = write_u8 u"
| "property_encode (ResponseInformation u) = write_string_ref u"
| "property_encode (ServerReference u) = write_string_ref u"
| "property_encode (ReasonString u) = write_string_ref u"
| "property_encode (ReceiveMaximum u) = write_u16 u"
| "property_encode (TopicAliasMaximum u) = write_u16 u"
| "property_encode (TopicAlias u) = write_u16 u"
| "property_encode (MaximumQoS u) = write_u8 u"
| "property_encode (RetainAvailable u) = write_u8 u"
| "property_encode (UserProperty u) = write_string_pair_ref u"
| "property_encode (MaximumPacketSize u) = write_u32 u"
| "property_encode (WildcardSubscriptionAvailable u) = write_u8 u"
| "property_encode (SubscriptionIdentifierAvailable u) = write_u8 u"
| "property_encode (SharedSubscriptionAvailable u) = write_u8 u"
| "property_encode Reserved = throw PropertyNotFound"

definition property_decode :: "property reads" where
  "property_decode = andq read_u8 (\<lambda>property_identifier.
     if property_identifier = 0x01 then andq read_u8 (\<lambda>u. ret (PayloadFormat u))
     else if property_identifier = 0x02 then andq read_u32 (\<lambda>u. ret (MessageExpiryInterval u))
     else if property_identifier = 0x03 then andq read_string (\<lambda>u. ret (ContentType u))
     else if property_identifier = 0x08 then andq read_string (\<lambda>u. ret (ResponseTopic u))
     else if property_identifier = 0x09 then andq read_binary (\<lambda>u. ret (CorrelationData u))
     else if property_identifier = 0x0B then andq read_variable_byte_int (\<lambda>u. ret (SubscriptionIdentifier u))
     else if property_identifier = 0x11 then andq read_u32 (\<lambda>u. ret (SessionExpiryInterval u))
     else if property_identifier = 0x12 then andq read_string (\<lambda>u. ret (AssignedClientIdentifier u))
     else if property_identifier = 0x13 then andq read_u16 (\<lambda>u. ret (ServerKeepAlive u))
     else if property_identifier = 0x15 then andq read_string (\<lambda>u. ret (AuthenticationMethod u))
     else if property_identifier = 0x16 then andq read_binary (\<lambda>u. ret (AuthenticationData u))
     else if property_identifier = 0x17 then andq read_u8 (\<lambda>u. ret (RequestProblemInformation u))
     else if property_identifier = 0x18 then andq read_u32 (\<lambda>u. ret (WillDelayInterval u))
     else if property_identifier = 0x19 then andq read_u8 (\<lambda>u. ret (RequestResponseInformation u))
     else if property_identifier = 0x1A then andq read_string (\<lambda>u. ret (ResponseInformation u))
     else if property_identifier = 0x1C then andq read_string (\<lambda>u. ret (ServerReference u))
     else if property_identifier = 0x1F then andq read_string (\<lambda>u. ret (ReasonString u))
     else if property_identifier = 0x21 then andq read_u16 (\<lambda>u. ret (ReceiveMaximum u))
     else if property_identifier = 0x22 then andq read_u16 (\<lambda>u. ret (TopicAliasMaximum u))
     else if property_identifier = 0x23 then andq read_u16 (\<lambda>u. ret (TopicAlias u))
     else if property_identifier = 0x24 then andq read_u8 (\<lambda>u. ret (MaximumQoS u))
     else if property_identifier = 0x25 then andq read_u8 (\<lambda>u. ret (RetainAvailable u))
     else if property_identifier = 0x26 then andq read_string_pair (\<lambda>u. ret (UserProperty u))
     else if property_identifier = 0x27 then andq read_u32 (\<lambda>u. ret (MaximumPacketSize u))
     else if property_identifier = 0x28 then andq read_u8 (\<lambda>u. ret (WildcardSubscriptionAvailable u))
     else if property_identifier = 0x29 then andq read_u8 (\<lambda>u. ret (SubscriptionIdentifierAvailable u))
     else if property_identifier = 0x2A then andq read_u8 (\<lambda>u. ret (SharedSubscriptionAvailable u))
     else throw IdNotFound)"

text \<open>The writer's part: the identifier, then the value.\<close>

definition write_property :: "property \<Rightarrow> unit writes" where
  "write_property p = thenq (write_u8 (property_id p)) (property_encode p)"

fun write_properties :: "property list \<Rightarrow> unit writes" where
  "write_properties [] = ret ()"
| "write_properties (prop # props) = thenq (write_property prop) (write_properties props)"

section \<open>What a property is on the wire\<close>

fun property_value_bytes :: "property \<Rightarrow> bytes" where
  "property_value_bytes (PayloadFormat u) = [u]"
| "property_value_bytes (MessageExpiryInterval u) = u32_to_be u"
| "property_value_bytes (ContentType u) = string_bytes u"
| "property_value_bytes (ResponseTopic u) = string_bytes u"
| "property_value_bytes (CorrelationData u) = binary_bytes u"
| "property_value_bytes (SubscriptionIdentifier u) = vbi_bytes u"
| "property_value_bytes (SessionExpiryInterval u) = u32_to_be u"
| "property_value_bytes (AssignedClientIdentifier u) = string_bytes u"
| "property_value_bytes (ServerKeepAlive u) = u16_to_be u"
| "property_value_bytes (AuthenticationMethod u) = string_bytes u"
| "property_value_bytes (AuthenticationData u) = binary_bytes u"
| "property_value_bytes (RequestProblemInformation u) = [u]"
| "property_value_bytes (WillDelayInterval u) = u32_to_be u"
| "property_value_bytes (RequestResponseInformation u) = [u]"
| "property_value_bytes (ResponseInformation u) = string_bytes u"
| "property_value_bytes (ServerReference u) = string_bytes u"
| "property_value_bytes (ReasonString u) = string_bytes u"
| "property_value_bytes (ReceiveMaximum u) = u16_to_be u"
| "property_value_bytes (TopicAliasMaximum u) = u16_to_be u"
| "property_value_bytes (TopicAlias u) = u16_to_be u"
| "property_value_bytes (MaximumQoS u) = [u]"
| "property_value_bytes (RetainAvailable u) = [u]"
| "property_value_bytes (UserProperty u) = pair_bytes u"
| "property_value_bytes (MaximumPacketSize u) = u32_to_be u"
| "property_value_bytes (WildcardSubscriptionAvailable u) = [u]"
| "property_value_bytes (SubscriptionIdentifierAvailable u) = [u]"
| "property_value_bytes (SharedSubscriptionAvailable u) = [u]"
| "property_value_bytes Reserved = []"

definition property_bytes :: "property \<Rightarrow> bytes" where
  "property_bytes p = property_id p # property_value_bytes p"

definition properties_bytes :: "property list \<Rightarrow> bytes" where
  "properties_bytes ps = concat (map property_bytes ps)"

text \<open>Well formed: strings and binary data carry their length, an integer written with variable
  length is encodable, and the property is not the reserved one.\<close>

fun property_wf :: "property \<Rightarrow> bool" where
  "property_wf (PayloadFormat u) = True"
| "property_wf (MessageExpiryInterval u) = True"
| "property_wf (ContentType u) = string_wf u"
| "property_wf (ResponseTopic u) = string_wf u"
| "property_wf (CorrelationData u) = binary_wf u"
| "property_wf (SubscriptionIdentifier u) = (unat u \<le> 268435455)"
| "property_wf (SessionExpiryInterval u) = True"
| "property_wf (AssignedClientIdentifier u) = string_wf u"
| "property_wf (ServerKeepAlive u) = True"
| "property_wf (AuthenticationMethod u) = string_wf u"
| "property_wf (AuthenticationData u) = binary_wf u"
| "property_wf (RequestProblemInformation u) = True"
| "property_wf (WillDelayInterval u) = True"
| "property_wf (RequestResponseInformation u) = True"
| "property_wf (ResponseInformation u) = string_wf u"
| "property_wf (ServerReference u) = string_wf u"
| "property_wf (ReasonString u) = string_wf u"
| "property_wf (ReceiveMaximum u) = True"
| "property_wf (TopicAliasMaximum u) = True"
| "property_wf (TopicAlias u) = True"
| "property_wf (MaximumQoS u) = True"
| "property_wf (RetainAvailable u) = True"
| "property_wf (UserProperty u) = pair_wf u"
| "property_wf (MaximumPacketSize u) = True"
| "property_wf (WildcardSubscriptionAvailable u) = True"
| "property_wf (SubscriptionIdentifierAvailable u) = True"
| "property_wf (SharedSubscriptionAvailable u) = True"
| "property_wf Reserved = False"

fun property_binary :: "property \<Rightarrow> bool" where
  "property_binary (CorrelationData u) = True"
| "property_binary (AuthenticationData u) = True"
| "property_binary _ = False"

section \<open>Emission, length and parsing\<close>

lemma emits_property_encode: "property_wf p \<Longrightarrow> emits (property_encode p) (property_value_bytes p)"
  by (cases p) auto

lemma emits_write_property [intro]: "property_wf p \<Longrightarrow> emits (write_property p) (property_bytes p)"
  unfolding write_property_def property_bytes_def
  using emits_thenq [OF emits_write_u8 emits_property_encode] by force

lemma properties_bytes_simps [simp]:
  "properties_bytes [] = []"
  "properties_bytes (p # ps) = property_bytes p @ properties_bytes ps"
  "properties_bytes (ps @ qs) = properties_bytes ps @ properties_bytes qs"
  by (simp_all add: properties_bytes_def)

lemma emits_write_properties [intro]:
  "\<forall>p \<in> set ps. property_wf p \<Longrightarrow> emits (write_properties ps) (properties_bytes ps)"
  by (induction ps) auto

lemma length_property_bytes: "length (property_bytes p) = Suc (length (property_value_bytes p))"
  by (simp add: property_bytes_def)

lemma property_bytes_nonempty: "1 \<le> length (property_bytes p)"
  by (simp add: length_property_bytes)

lemma property_encoded_len_bytes:
  "property_wf p \<Longrightarrow> property_encoded_len p = Ok (of_nat (length (property_value_bytes p)))"
  using vbi_len_bytes [where cs = "drop n [0, 0, 0, 0]" for n]
  by (cases p) (auto simp: vbi_encode_Ok length_string_bytes length_binary_bytes pair_bytes_def
      pair_wf_def encoded_string_encoded_len_def binary_data_encoded_len_def string_pair_encoded_len_def)

lemma parses_map: "parses rd bs u \<Longrightarrow> parses (andq rd (\<lambda>u. ret (f u))) bs (f u)"
  using parses_andq [OF _ parses_ret] by fastforce

lemma parses_property_decode [intro]:
  assumes "property_wf p" "\<not> property_binary p"
  shows "parses property_decode (property_bytes p) p"
proof -
  have "parses property_decode ([property_id p] @ property_value_bytes p) p"
    unfolding property_decode_def
    by (rule parses_andq [OF parses_read_u8], use assms in \<open>cases p\<close>)
      (simp_all add: parses_map parses_read_u8 parses_read_u16 parses_read_u32
        parses_read_string parses_read_string_pair parses_read_variable_byte_int)
  then show ?thesis by (simp add: property_bytes_def)
qed

interpretation property_codec: codec write_property property_decode property_bytes
    "\<lambda>p. property_wf p \<and> \<not> property_binary p"
  by unfold_locales auto

text \<open>A successful decode consumes at least the identifier, which makes the loop over a property
  section end.\<close>

lemma read_u8_progress:
  assumes f: "\<And>i. rd_mono (f i)" and r: "andq read_u8 f r = (Ok p, r')"
  shows "\<exists>n. r' = increment_position (Suc n) r \<and> rd_position r < rd_len r"
proof -
  from r obtain i s where i: "read_u8 r = (Ok i, s)" and s: "f i s = (Ok p, r')"
    by (auto simp: andq_eq_Ok)
  from i have "s = increment_position 1 r" "rd_position r < rd_len r"
    by (auto simp: read_u8_def split: if_splits option.splits)
  moreover from f [of i] s obtain n where "r' = increment_position n s"
    unfolding rd_mono_def by blast
  ultimately show ?thesis by auto
qed

lemma rd_mono_throw [intro]: "rd_mono (throw e)"
  by (simp add: rd_mono_def)

lemma property_decode_progress:
  "property_decode r = (Ok p, r') \<Longrightarrow>
   \<exists>n. r' = increment_position (Suc n) r \<and> rd_position r < rd_len r"
  unfolding property_decode_def
  by (erule read_u8_progress [rotated]) (auto intro!: rd_mono_andq)

section \<open>Properties\<close>

text \<open>
  C25. Every well-formed property that carries no binary data survives the wire: written into a
  fresh buffer and decoded from the bytes written, it comes back and the reader stands behind
  it.
\<close>

theorem property_roundtrip:
  assumes "property_wf p" "\<not> property_binary p" "n \<le> length buf"
    and "write_property p (writer_new buf n) = (Ok (), w)"
  shows "property_decode (reader_new (wr_buffer w) (wr_position w))
       = (Ok p, increment_position (wr_position w) (reader_new (wr_buffer w) (wr_position w)))"
  using assms by (intro property_codec.read_written) auto

theorem property_roundtrip_witness:
  "property_decode (reader_new [0x0B, 0x80, 0x01, 9] 3)
     = (Ok (SubscriptionIdentifier 128), increment_position 3 (reader_new [0x0B, 0x80, 0x01, 9] 3))"
proof -
  let ?w = "\<lparr>wr_buffer = [0x0B, 0x80, 0x01, 9], wr_position = 3, wr_len = 4\<rparr>"
  have w: "write_property (SubscriptionIdentifier 128) (writer_new [9, 9, 9, 9] 4) = (Ok (), ?w)"
    by code_simp
  show ?thesis using property_roundtrip [OF _ _ _ w] by simp
qed

text \<open>
  A property with binary data (correlation data, authentication data) is decoded with the
  right value but the reader is left at the start of its data instead of behind it: only the
  identifier and the length field have been consumed, so what follows is parsed out of the data.
\<close>

theorem binary_property_not_consumed:
  assumes "binary_wf u" "rd_inv r"
    and "p \<in> {CorrelationData u, AuthenticationData u}" "remaining r = property_bytes p @ cs"
  shows "property_decode r = (Ok p, increment_position 3 r) \<and>
         remaining (increment_position 3 r) = bd_bin u @ cs"
proof -
  have rem: "remaining r = [remaining r ! 0] @ u16_to_be (bd_len u) @ bd_bin u @ cs"
    and id: "remaining r ! 0 = property_id p"
    using assms(1,3,4) by (auto simp: property_bytes_def binary_bytes_def binary_wf_def)
  have u8: "read_u8 r = (Ok (remaining r ! 0), increment_position 1 r)"
    using parsesD [OF parses_read_u8 assms(2) rem] by simp
  have inv1: "rd_inv (increment_position 1 r)"
    by (rule rd_inv_increment [OF assms(2)]) (subst rem, simp)
  have rem1: "remaining (increment_position 1 r) = u16_to_be (bd_len u) @ bd_bin u @ cs"
    by (subst remaining_increment, subst rem) simp
  have u16: "read_u16 (increment_position 1 r) = (Ok (bd_len u), increment_position 3 r)"
    using parsesD [OF parses_read_u16 inv1 rem1] by simp
  have rem3: "remaining (increment_position 3 r) = bd_bin u @ cs"
    by (subst remaining_increment, subst rem) simp
  have inv3: "rd_inv (increment_position 3 r)"
    by (rule rd_inv_increment [OF assms(2)]) (subst rem, simp)
  have le: "rd_position (increment_position 3 r) + unat (bd_len u) \<le> rd_len (increment_position 3 r)"
    using remaining_bound [OF inv3 rem3] assms(1) by (simp add: binary_wf_def)
  have bin: "read_binary (increment_position 1 r) = (Ok u, increment_position 3 r)"
    unfolding read_binary_def andq_Ok [of read_u16 "increment_position 1 r", OF u16]
    using slice_remaining [OF inv3 le] le assms(1)
    by (simp add: rem3 binary_wf_def del: increment_position_simps)
  show ?thesis
    unfolding property_decode_def andq_Ok [of read_u8 r, OF u8]
    using rem3 assms(3) by (auto simp: id andq_Ok [of read_binary "increment_position 1 r", OF bin] simp del: One_nat_def)
qed

theorem binary_property_not_consumed_witness:
  "property_decode (reader_new [0x09, 0, 1, 0x26] 4)
     = (Ok (CorrelationData \<lparr>bd_bin = [0x26], bd_len = 1\<rparr>), increment_position 3 (reader_new [0x09, 0, 1, 0x26] 4))"
proof -
  let ?r = "reader_new [0x09, 0, 1, 0x26] 4" and ?u = "\<lparr>bd_bin = [0x26], bd_len = 1\<rparr>"
  have "binary_wf ?u" "rd_inv ?r" "remaining ?r = property_bytes (CorrelationData ?u) @ []"
    by code_simp+
  from binary_property_not_consumed [OF this(1,2) _ this(3)] show ?thesis by simp
qed

end
