(* ===== verification/Mqtt_Codes.thy ===== *)
theory Mqtt_Codes
  imports Rust_Prelude
begin

text \<open>
  The byte codes of MQTT v5: packet types (rust-mqtt/src/packet/v5/packet_type.rs), reason codes
  (reason_codes.rs) and quality of service (publish_packet.rs), each with the two \<open>From\<close>
  conversions of the code. \<open>PacketType::Reserved\<close> is \<open>ReservedType\<close> here, beside
  \<open>Property::Reserved\<close>.
\<close>

section \<open>Packet types\<close>

datatype packet_type =
    ReservedType
  | Connect
  | Connack
  | Publish
  | Puback
  | Pubrec
  | Pubrel
  | Pubcomp
  | Subscribe
  | Suback
  | Unsubscribe
  | Unsuback
  | Pingreq
  | Pingresp
  | Disconnect
  | Auth

definition packet_type_from :: "u8 \<Rightarrow> packet_type" where
  "packet_type_from orig =
     (let packet_type = orig AND 0xF0 in
      if packet_type = 0x10 then Connect
      else if packet_type = 0x20 then Connack
      else if packet_type = 0x00 then ReservedType
      else if packet_type = 0x30 then Publish
      else if packet_type = 0x40 then Puback
      else if packet_type = 0x50 then Pubrec
      else if packet_type = 0x60 then Pubrel
      else if packet_type = 0x70 then Pubcomp
      else if packet_type = 0x80 then Subscribe
      else if packet_type = 0x90 then Suback
      else if packet_type = 0xA0 then Unsubscribe
      else if packet_type = 0xB0 then Unsuback
      else if packet_type = 0xC0 then Pingreq
      else if packet_type = 0xD0 then Pingresp
      else if packet_type = 0xE0 then Disconnect
      else if packet_type = 0xF0 then Auth
      else ReservedType)"

fun packet_type_byte :: "packet_type \<Rightarrow> u8" where
  "packet_type_byte Connect = 0x10"
| "packet_type_byte Connack = 0x20"
| "packet_type_byte Publish = 0x30"
| "packet_type_byte Puback = 0x40"
| "packet_type_byte Pubrec = 0x50"
| "packet_type_byte Pubrel = 0x62"
| "packet_type_byte Pubcomp = 0x70"
| "packet_type_byte Subscribe = 0x82"
| "packet_type_byte Suback = 0x90"
| "packet_type_byte Unsubscribe = 0xA2"
| "packet_type_byte Unsuback = 0xB0"
| "packet_type_byte Pingreq = 0xC0"
| "packet_type_byte Pingresp = 0xD0"
| "packet_type_byte Disconnect = 0xE0"
| "packet_type_byte Auth = 0xF0"
| "packet_type_byte ReservedType = 0x00"

section \<open>Reason codes\<close>

datatype reason_code =
    Success
  | GrantedQoS1
  | GrantedQoS2
  | DisconnectWithWillMessage
  | NoMatchingSubscribers
  | NoSubscriptionExisted
  | ContinueAuth
  | ReAuthenticate
  | UnspecifiedError
  | MalformedPacket
  | ProtocolError
  | ImplementationSpecificError
  | UnsupportedProtocolVersion
  | ClientIdNotValid
  | BadUserNameOrPassword
  | NotAuthorized
  | ServerUnavailable
  | ServerBusy
  | Banned
  | ServerShuttingDown
  | BadAuthMethod
  | KeepAliveTimeout
  | SessionTakeOver
  | TopicFilterInvalid
  | TopicNameInvalid
  | PacketIdentifierInUse
  | PacketIdentifierNotFound
  | ReceiveMaximumExceeded
  | TopicAliasInvalid
  | PacketTooLarge
  | MessageRateTooHigh
  | QuotaExceeded
  | AdministrativeAction
  | PayloadFormatInvalid
  | RetainNotSupported
  | QoSNotSupported
  | UseAnotherServer
  | ServerMoved
  | SharedSubscriptionNotSupported
  | ConnectionRateExceeded
  | MaximumConnectTime
  | SubscriptionIdentifiersNotSupported
  | WildcardSubscriptionNotSupported
  | TimerNotSupported
  | BuffError
  | NetworkError

fun reason_code_byte :: "reason_code \<Rightarrow> u8" where
  "reason_code_byte Success = 0x00"
| "reason_code_byte GrantedQoS1 = 0x01"
| "reason_code_byte GrantedQoS2 = 0x02"
| "reason_code_byte DisconnectWithWillMessage = 0x04"
| "reason_code_byte NoMatchingSubscribers = 0x10"
| "reason_code_byte NoSubscriptionExisted = 0x11"
| "reason_code_byte ContinueAuth = 0x18"
| "reason_code_byte ReAuthenticate = 0x19"
| "reason_code_byte UnspecifiedError = 0x80"
| "reason_code_byte MalformedPacket = 0x81"
| "reason_code_byte ProtocolError = 0x82"
| "reason_code_byte ImplementationSpecificError = 0x83"
| "reason_code_byte UnsupportedProtocolVersion = 0x84"
| "reason_code_byte ClientIdNotValid = 0x85"
| "reason_code_byte BadUserNameOrPassword = 0x86"
| "reason_code_byte NotAuthorized = 0x87"
| "reason_code_byte ServerUnavailable = 0x88"
| "reason_code_byte ServerBusy = 0x89"
| "reason_code_byte Banned = 0x8A"
| "reason_code_byte ServerShuttingDown = 0x8B"
| "reason_code_byte BadAuthMethod = 0x8C"
| "reason_code_byte KeepAliveTimeout = 0x8D"
| "reason_code_byte SessionTakeOver = 0x8E"
| "reason_code_byte TopicFilterInvalid = 0x8F"
| "reason_code_byte TopicNameInvalid = 0x90"
| "reason_code_byte PacketIdentifierInUse = 0x91"
| "reason_code_byte PacketIdentifierNotFound = 0x92"
| "reason_code_byte ReceiveMaximumExceeded = 0x93"
| "reason_code_byte TopicAliasInvalid = 0x94"
| "reason_code_byte PacketTooLarge = 0x95"
| "reason_code_byte MessageRateTooHigh = 0x96"
| "reason_code_byte QuotaExceeded = 0x97"
| "reason_code_byte AdministrativeAction = 0x98"
| "reason_code_byte PayloadFormatInvalid = 0x99"
| "reason_code_byte RetainNotSupported = 0x9A"
| "reason_code_byte QoSNotSupported = 0x9B"
| "reason_code_byte UseAnotherServer = 0x9C"
| "reason_code_byte ServerMoved = 0x9D"
| "reason_code_byte SharedSubscriptionNotSupported = 0x9E"
| "reason_code_byte ConnectionRateExceeded = 0x9F"
| "reason_code_byte MaximumConnectTime = 0xA0"
| "reason_code_byte SubscriptionIdentifiersNotSupported = 0xA1"
| "reason_code_byte WildcardSubscriptionNotSupported = 0xA2"
| "reason_code_byte TimerNotSupported = 0xFD"
| "reason_code_byte BuffError = 0xFE"
| "reason_code_byte NetworkError = 0xFF"

definition reason_code_from :: "u8 \<Rightarrow> reason_code" where
  "reason_code_from orig =
     (if orig = 0x00 then Success
      else if orig = 0x01 then GrantedQoS1
      else if orig = 0x02 then GrantedQoS2
      else if orig = 0x04 then DisconnectWithWillMessage
      else if orig = 0x10 then NoMatchingSubscribers
      else if orig = 0x11 then NoSubscriptionExisted
      else if orig = 0x18 then ContinueAuth
      else if orig = 0x19 then ReAuthenticate
      else if orig = 0x80 then UnspecifiedError
      else if orig = 0x81 then MalformedPacket
      else if orig = 0x82 then ProtocolError
      else if orig = 0x83 then ImplementationSpecificError
      else if orig = 0x84 then UnsupportedProtocolVersion
      else if orig = 0x85 then ClientIdNotValid
      else if orig = 0x86 then BadUserNameOrPassword
      else if orig = 0x87 then NotAuthorized
      else if orig = 0x88 then ServerUnavailable
      else if orig = 0x89 then ServerBusy
      else if orig = 0x8A then Banned
      else if orig = 0x8B then ServerShuttingDown
      else if orig = 0x8C then BadAuthMethod
      else if orig = 0x8D then KeepAliveTimeout
      else if orig = 0x8E then SessionTakeOver
      else if orig = 0x8F then TopicFilterInvalid
      else if orig = 0x90 then TopicNameInvalid
      else if orig = 0x91 then PacketIdentifierInUse
      else if orig = 0x92 then PacketIdentifierNotFound
      else if orig = 0x93 then ReceiveMaximumExceeded
      else if orig = 0x94 then TopicAliasInvalid
      else if orig = 0x95 then PacketTooLarge
      else if orig = 0x96 then MessageRateTooHigh
      else if orig = 0x97 then QuotaExceeded
      else if orig = 0x98 then AdministrativeAction
      else if orig = 0x99 then PayloadFormatInvalid
      else if orig = 0x9A then RetainNotSupported
      else if orig = 0x9B then QoSNotSupported
      else if orig = 0x9C then UseAnotherServer
      else if orig = 0x9D then ServerMoved
      else if orig = 0x9E then SharedSubscriptionNotSupported
      else if orig = 0xA0 then MaximumConnectTime
      else if orig = 0xA1 then SubscriptionIdentifiersNotSupported
      else if orig = 0xA2 then WildcardSubscriptionNotSupported
      else if orig = 0xFD then TimerNotSupported
      else if orig = 0xFE then BuffError
      else NetworkError)"

text \<open>The \<open>Display\<close> text of a reason.\<close>

fun reason_code_text :: "reason_code \<Rightarrow> string" where
  "reason_code_text Success = ''Operation was successful!''"
| "reason_code_text GrantedQoS1 = ''Granted QoS level 1!''"
| "reason_code_text GrantedQoS2 = ''Granted QoS level 2!''"
| "reason_code_text DisconnectWithWillMessage = ''Disconnected with Will message!''"
| "reason_code_text NoMatchingSubscribers = ''No matching subscribers on broker!''"
| "reason_code_text NoSubscriptionExisted = ''Subscription not exist!''"
| "reason_code_text ContinueAuth = ''Broker asks for more AUTH packets!''"
| "reason_code_text ReAuthenticate = ''Broker requires re-authentication!''"
| "reason_code_text UnspecifiedError = ''Unspecified error!''"
| "reason_code_text MalformedPacket = ''Malformed packet sent!''"
| "reason_code_text ProtocolError = ''Protocol specific error!''"
| "reason_code_text ImplementationSpecificError = ''Implementation specific error!''"
| "reason_code_text UnsupportedProtocolVersion = ''Unsupported protocol version!''"
| "reason_code_text ClientIdNotValid = ''Client sent not valid identification''"
| "reason_code_text BadUserNameOrPassword = ''Authentication error, username of password not valid!''"
| "reason_code_text NotAuthorized = ''Client not authorized!''"
| "reason_code_text ServerUnavailable = ''Server unavailable!''"
| "reason_code_text ServerBusy = ''Server is busy!''"
| "reason_code_text Banned = ''Client is banned on broker!''"
| "reason_code_text ServerShuttingDown = ''Server is shutting down!''"
| "reason_code_text BadAuthMethod = ''Provided bad authentication method!''"
| "reason_code_text KeepAliveTimeout = ''Client reached timeout''"
| "reason_code_text SessionTakeOver = ''Took over session!''"
| "reason_code_text TopicFilterInvalid = ''Topic filter is not valid!''"
| "reason_code_text TopicNameInvalid = ''Topic name is not valid!''"
| "reason_code_text PacketIdentifierInUse = ''Packet identifier is already in use!''"
| "reason_code_text PacketIdentifierNotFound = ''Packet identifier not found!''"
| "reason_code_text ReceiveMaximumExceeded = ''Maximum receive amount exceeded!''"
| "reason_code_text TopicAliasInvalid = ''Invalid topic alias!''"
| "reason_code_text PacketTooLarge = ''Sent packet was too large!''"
| "reason_code_text MessageRateTooHigh = ''Message rate is too high!''"
| "reason_code_text QuotaExceeded = ''Quota exceeded!''"
| "reason_code_text AdministrativeAction = ''Administrative action!''"
| "reason_code_text PayloadFormatInvalid = ''Invalid payload format!''"
| "reason_code_text RetainNotSupported = ''Message retain not supported!''"
| "reason_code_text QoSNotSupported = ''Used QoS is not supported!''"
| "reason_code_text UseAnotherServer = ''Use another server!''"
| "reason_code_text ServerMoved = ''Server moved!''"
| "reason_code_text SharedSubscriptionNotSupported = ''Shared subscription is not supported''"
| "reason_code_text ConnectionRateExceeded = ''Connection rate exceeded!''"
| "reason_code_text MaximumConnectTime = ''Maximum connect time exceeded!''"
| "reason_code_text SubscriptionIdentifiersNotSupported = ''Subscription identifier not supported!''"
| "reason_code_text WildcardSubscriptionNotSupported = ''Wildcard subscription not supported!''"
| "reason_code_text TimerNotSupported = ''Timer implementation is not provided''"
| "reason_code_text BuffError = ''Error encountered during write / read from packet''"
| "reason_code_text NetworkError = ''Unknown error!''"

section \<open>Quality of service\<close>

datatype quality_of_service = QoS0 | QoS1 | QoS2 | INVALID

definition qos_from :: "u8 \<Rightarrow> quality_of_service" where
  "qos_from orig =
     (if orig = 0 then QoS0 else if orig = 2 then QoS1 else if orig = 4 then QoS2 else INVALID)"

fun qos_byte :: "quality_of_service \<Rightarrow> u8" where
  "qos_byte QoS0 = 0"
| "qos_byte QoS1 = 2"
| "qos_byte QoS2 = 4"
| "qos_byte INVALID = 3"

section \<open>Properties\<close>

lemma qos_from_byte [simp]: "qos_from (qos_byte q) = q"
  by (cases q) (simp_all add: qos_from_def)

lemma packet_type_from_byte [simp]: "packet_type_from (packet_type_byte t) = t"
  by (cases t) (simp_all add: packet_type_from_def)

lemma packet_type_from_bits: "packet_type_from b = packet_type_from (b AND 0xF0)"
  by (simp add: packet_type_from_def Let_def and.assoc)

lemma reason_code_from_byte:
  "reason_code_from (reason_code_byte c) = (if c = ConnectionRateExceeded then NetworkError else c)"
  by (cases c) (simp_all add: reason_code_from_def)

text \<open>
  The reason codes travel as bytes without loss, with one exception: the byte of
  \<open>ConnectionRateExceeded\<close> (0x9F) has no arm in the conversion back and becomes
  \<open>NetworkError\<close>.
\<close>

theorem reason_code_roundtrip:
  "reason_code_from (reason_code_byte c) = c \<longleftrightarrow> c \<noteq> ConnectionRateExceeded"
  by (simp add: reason_code_from_byte)

end
