(* ===== verification/Mqtt_Packet.thy ===== *)
theory Mqtt_Packet
  imports Mqtt_Property Mqtt_Codes
begin

text \<open>
  The \<open>Packet\<close> trait (rust-mqtt/src/packet/v5/mqtt_packet.rs): the accessors a packet provides are
  a record of functions, and the trait's default methods (\<open>add_properties\<close>, \<open>decode_properties\<close>,
  \<open>decode_fixed_header\<close>) are definitions over it. A default method works on the packet and the
  reader, so its state is their pair.

  Locale \<open>packet_trait\<close> states what every implementation promises of its accessors, and proves
  what the default methods then do. Locales \<open>packet_encoder\<close> and \<open>packet_codec\<close> state the contract
  of a packet's \<open>encode\<close> and \<open>decode\<close> against its frame on the wire.
\<close>

section \<open>The trait\<close>

record 'p packet_impl =
  set_property_len :: "u32 \<Rightarrow> 'p \<Rightarrow> 'p"
  get_property_len :: "'p \<Rightarrow> u32"
  push_to_properties :: "property \<Rightarrow> 'p \<Rightarrow> 'p"
  property_allowed :: "property \<Rightarrow> bool"
  set_fixed_header :: "u8 \<Rightarrow> 'p \<Rightarrow> 'p"
  set_remaining_len :: "u32 \<Rightarrow> 'p \<Rightarrow> 'p"

type_synonym ('p, 'a) packet_op = "('p \<times> buff_reader, buffer_error, 'a) op"

definition on_reader :: "'a reads \<Rightarrow> ('p, 'a) packet_op" where
  "on_reader m = (\<lambda>(p, r). let (x, r') = m r in (x, (p, r')))"

definition modify_packet :: "('p \<Rightarrow> 'p) \<Rightarrow> ('p, unit) packet_op" where
  "modify_packet f = (\<lambda>(p, r). (Ok (), (f p, r)))"

definition with_packet :: "('p \<Rightarrow> ('p, 'a) packet_op) \<Rightarrow> ('p, 'a) packet_op" where
  "with_packet f = (\<lambda>(p, r). f p (p, r))"

fun add_properties :: "'p packet_impl \<Rightarrow> property list \<Rightarrow> u32 \<Rightarrow> ('p, buffer_error, u32) op" where
  "add_properties impl [] res = ret res"
| "add_properties impl (prop # props) res = (\<lambda>p.
     if property_allowed impl prop
     then let p' = push_to_properties impl prop p
          in case property_encoded_len prop of
               Ok n \<Rightarrow> add_properties impl props (res + ucast n + 1) p'
             | Err e \<Rightarrow> (Err e, p')
             | Panic \<Rightarrow> (Panic, p')
     else add_properties impl props res p)"

text \<open>The loop ends because a decoded property consumes at least its identifier.\<close>

function decode_properties_loop ::
    "'p packet_impl \<Rightarrow> u32 \<Rightarrow> 'p \<times> buff_reader \<Rightarrow> (buffer_error, unit) outcome \<times> ('p \<times> buff_reader)" where
  "decode_properties_loop impl x (p, r) =
     (case property_decode r of
        (Ok prop, r') \<Rightarrow>
          (case property_encoded_len prop of
             Ok n \<Rightarrow>
               let x' = x + ucast n + 1; p' = push_to_properties impl prop p
               in if x' = get_property_len impl p' then (Ok (), (p', r'))
                  else decode_properties_loop impl x' (p', r')
           | Err e \<Rightarrow> (Err e, (p, r'))
           | Panic \<Rightarrow> (Panic, (p, r')))
      | (Err e, r') \<Rightarrow> (Err e, (p, r'))
      | (Panic, r') \<Rightarrow> (Panic, (p, r')))"
  by pat_completeness auto
termination
  by (relation "measure (\<lambda>(impl, x, p, r). rd_len r - rd_position r)")
    (auto dest!: property_decode_progress [OF sym])

declare decode_properties_loop.simps [simp del]

definition decode_properties :: "'p packet_impl \<Rightarrow> ('p, unit) packet_op" where
  "decode_properties impl =
     andq (on_reader read_variable_byte_int) (\<lambda>n.
     thenq (modify_packet (set_property_len impl n))
     (with_packet (\<lambda>p.
        if get_property_len impl p \<noteq> 0 then decode_properties_loop impl 0 else ret ())))"

definition decode_fixed_header :: "'p packet_impl \<Rightarrow> ('p, packet_type) packet_op" where
  "decode_fixed_header impl =
     andq (on_reader read_u8) (\<lambda>first_byte.
     thenq (modify_packet (set_fixed_header impl first_byte))
     (andq (on_reader read_variable_byte_int) (\<lambda>n.
     thenq (modify_packet (set_remaining_len impl n))
     (ret (packet_type_from first_byte)))))"

text \<open>\<open>encode\<close> runs a sequence of writes on a fresh writer over the caller's buffer and returns
  the number of bytes written; the buffer keeps what was written, also on an error.\<close>

definition encode_with :: "unit writes \<Rightarrow> bytes \<Rightarrow> nat \<Rightarrow> (buffer_error, nat) outcome \<times> bytes" where
  "encode_with m buffer buffer_len =
     (case m (writer_new buffer buffer_len) of
        (Ok _, w) \<Rightarrow> (Ok (wr_position w), wr_buffer w)
      | (Err e, w) \<Rightarrow> (Err e, wr_buffer w)
      | (Panic, w) \<Rightarrow> (Panic, wr_buffer w))"

section \<open>Packets with a property section\<close>

record base_packet =
  fixed_header :: u8
  remain_len :: u32

record prop_packet = base_packet +
  property_len :: u32
  properties :: "property list"

text \<open>The accessors are the same in every packet with properties; \<open>cap\<close> is \<open>MAX_PROPERTIES\<close>
  and \<open>allowed\<close> the packet's \<open>property_allowed\<close>.\<close>

definition prop_packet_impl ::
    "(property \<Rightarrow> bool) \<Rightarrow> nat \<Rightarrow> 'a prop_packet_scheme packet_impl" where
  "prop_packet_impl allowed cap =
     \<lparr>set_property_len = (\<lambda>v p. p\<lparr>property_len := v\<rparr>),
      get_property_len = property_len,
      push_to_properties = (\<lambda>prop p. p\<lparr>properties := vec_push cap (properties p) prop\<rparr>),
      property_allowed = allowed,
      set_fixed_header = (\<lambda>h p. p\<lparr>fixed_header := h\<rparr>),
      set_remaining_len = (\<lambda>v p. p\<lparr>remain_len := v\<rparr>)\<rparr>"

section \<open>Running the operations\<close>

lemma on_reader_simps:
  "m r = (Ok a, r') \<Longrightarrow> andq (on_reader m) f (p, r) = f a (p, r')"
  "m r = (Err e, r') \<Longrightarrow> andq (on_reader m) f (p, r) = (Err e, (p, r'))"
  "m r = (Panic, r') \<Longrightarrow> andq (on_reader m) f (p, r) = (Panic, (p, r'))"
  by (simp_all add: on_reader_def andq_def)

lemma modify_packet_simp [simp]: "andq (modify_packet g) f (p, r) = f () (g p, r)"
  by (simp add: modify_packet_def andq_def)

lemma modify_packet_apply [simp]: "modify_packet g (p, r) = (Ok (), (g p, r))"
  by (simp add: modify_packet_def)

lemma andq_with_packet [simp]: "andq (with_packet g) f (p, r) = andq (g p) f (p, r)"
  by (simp add: with_packet_def andq_def)

lemma with_packet_simp [simp]: "with_packet f (p, r) = f p (p, r)"
  by (simp add: with_packet_def)

lemma lift_vbi_encode: "unat n \<le> 268435455 \<Longrightarrow>
  andq (lift_outcome (vbi_encode n)) g s = g (vbi_bytes n @ drop (length (vbi_bytes n)) [0, 0, 0, 0]) s"
  by (simp add: andq_def vbi_encode_Ok)

lemma lift_vbi_len: "unat n \<le> 268435455 \<Longrightarrow>
  andq (lift_outcome (vbi_len (vbi_bytes n @ cs))) g s = g (length (vbi_bytes n)) s"
  by (simp add: andq_def vbi_len_bytes)

lemma encode_with_emits:
  assumes "emits m bs" "n \<le> length buf"
  shows "length bs \<le> n \<Longrightarrow> encode_with m buf n = (Ok (length bs), bs @ drop (length bs) buf)"
    and "n < length bs \<Longrightarrow> fst (encode_with m buf n) = Err InsufficientBufferSize"
proof -
  note wi = wr_inv_new [OF assms(2)]
  show "encode_with m buf n = (Ok (length bs), bs @ drop (length bs) buf)" if "length bs \<le> n"
  proof -
    from that have "fits bs (writer_new buf n)" by (simp add: fits_def writer_new_def)
    from emitsD [OF assms(1) wi this] show ?thesis
      by (simp add: encode_with_def put_bytes_def writer_new_def splice_def)
  qed
  show "fst (encode_with m buf n) = Err InsufficientBufferSize" if "n < length bs"
  proof -
    from that have "\<not> fits bs (writer_new buf n)" by (simp add: fits_def writer_new_def)
    from emits_ErrD [OF assms(1) wi this] show ?thesis by (auto simp: encode_with_def)
  qed
qed

section \<open>What the default methods do\<close>

text \<open>The bytes a list of properties counts for: modulo the width of \<open>encoded_len\<close>.\<close>

definition counted :: "property list \<Rightarrow> u32" where
  "counted ps = (\<Sum>p\<leftarrow>ps. ucast (of_nat (length (property_value_bytes p)) :: u16) + 1)"

lemma counted_simps [simp]:
  "counted [] = 0"
  "counted (p # ps) = ucast (of_nat (length (property_value_bytes p)) :: u16) + 1 + counted ps"
  "counted (ps @ qs) = counted ps + counted qs"
  by (simp_all add: counted_def)

text \<open>A property whose value is shorter than 64 KiB is counted exactly.\<close>

definition property_fits :: "property \<Rightarrow> bool" where
  "property_fits p \<longleftrightarrow> property_wf p \<and> length (property_value_bytes p) < 65536"

lemma counted_exact: "\<forall>p \<in> set ps. property_fits p \<Longrightarrow> counted ps = of_nat (length (properties_bytes ps))"
proof (induction ps)
  case (Cons p ps)
  then have "length (property_value_bytes p) < 2 ^ LENGTH(16)" by (simp add: property_fits_def)
  then have "ucast (of_nat (length (property_value_bytes p)) :: u16) = (of_nat (length (property_value_bytes p)) :: u32)"
    by (simp add: unsigned_of_nat take_bit_nat_eq_self)
  with Cons show ?case by (simp add: length_property_bytes)
qed simp

lemma unat_of_nat_len: "n \<le> 268435455 \<Longrightarrow> unat (of_nat n :: u32) = n"
  by (simp add: unat_of_nat take_bit_nat_eq_self)

text \<open>The contract of a decoder on packet and reader: on unread bytes that start with \<open>bs\<close> it
  turns the packet \<open>p\<close> into \<open>q\<close>, returns \<open>a\<close>, and consumes exactly \<open>bs\<close>.\<close>

definition op_parses :: "('p, 'a) packet_op \<Rightarrow> 'p \<Rightarrow> bytes \<Rightarrow> 'p \<Rightarrow> 'a \<Rightarrow> bool" where
  "op_parses m p bs q a \<longleftrightarrow> (\<forall>r cs. rd_inv r \<longrightarrow> remaining r = bs @ cs \<longrightarrow>
     m (p, r) = (Ok a, (q, increment_position (length bs) r)))"

lemma op_parsesD: "op_parses m p bs q a \<Longrightarrow> rd_inv r \<Longrightarrow> remaining r = bs @ cs \<Longrightarrow>
  m (p, r) = (Ok a, (q, increment_position (length bs) r))"
  by (simp add: op_parses_def)

lemma op_parses_ret: "op_parses (ret a) p [] p a"
  by (simp add: op_parses_def)

lemma op_parses_reader: "parses m bs a \<Longrightarrow> op_parses (on_reader m) p bs p a"
  by (simp add: op_parses_def on_reader_def parses_def)

lemma op_parses_modify: "op_parses (modify_packet f) p [] (f p) ()"
  by (simp add: op_parses_def modify_packet_def)

lemma op_parses_with: "op_parses (f p) p bs q a \<Longrightarrow> op_parses (with_packet f) p bs q a"
  by (simp add: op_parses_def)

lemma op_parses_andq:
  assumes m: "op_parses m p bs q a" and f: "op_parses (f a) q cs q' b"
  shows "op_parses (andq m f) p (bs @ cs) q' b"
  unfolding op_parses_def
proof (intro allI impI)
  fix r ds assume r: "rd_inv r" and rem: "remaining r = (bs @ cs) @ ds"
  have m': "m (p, r) = (Ok a, (q, increment_position (length bs) r))"
    by (rule op_parsesD [OF m r]) (simp add: rem)
  have "f a (q, increment_position (length bs) r)
      = (Ok b, (q', increment_position (length cs) (increment_position (length bs) r)))"
  proof (rule op_parsesD [OF f])
    show "rd_inv (increment_position (length bs) r)" by (rule rd_inv_increment [OF r]) (simp add: rem)
    show "remaining (increment_position (length bs) r) = cs @ ds" by (simp add: remaining_increment rem)
  qed
  then show "andq m f (p, r) = (Ok b, (q', increment_position (length (bs @ cs)) r))"
    by (simp add: andq_Ok [of m "(p, r)", OF m'])
qed

lemma op_parses_read:
  "parses m bs a \<Longrightarrow> op_parses (f a) p cs q b \<Longrightarrow> op_parses (andq (on_reader m) f) p (bs @ cs) q b"
  by (rule op_parses_andq [OF op_parses_reader])

lemma op_parses_read_u8:
  "op_parses (f b) p cs q a \<Longrightarrow> op_parses (andq (on_reader read_u8) f) p (b # cs) q a"
  using op_parses_read [OF parses_read_u8] by fastforce

lemma op_parses_set:
  "op_parses (f ()) (g p) cs q b \<Longrightarrow> op_parses (andq (modify_packet g) f) p cs q b"
  using op_parses_andq [OF op_parses_modify] by fastforce

lemma op_parses_andq_ret: "op_parses (f a) p cs q b \<Longrightarrow> op_parses (andq (ret a) f) p cs q b"
  by simp

locale packet_trait =
  fixes impl :: "'p packet_impl"
    and props :: "'p \<Rightarrow> property list"
    and cap :: nat
  assumes get_set: "get_property_len impl (set_property_len impl n p) = n"
    and get_push: "get_property_len impl (push_to_properties impl x p) = get_property_len impl p"
    and props_set: "props (set_property_len impl n p) = props p"
    and props_push: "props (push_to_properties impl x p) = vec_push cap (props p) x"
begin

definition push_all :: "property list \<Rightarrow> 'p \<Rightarrow> 'p" where
  "push_all ps p = foldl (\<lambda>q x. push_to_properties impl x q) p ps"

lemma push_all_simps [simp]:
  "push_all [] p = p"
  "push_all (x # ps) p = push_all ps (push_to_properties impl x p)"
  by (simp_all add: push_all_def)

lemma get_push_all [simp]: "get_property_len impl (push_all ps p) = get_property_len impl p"
  by (induction ps arbitrary: p) (simp_all add: get_push)

lemma props_push_all: "length (props p) \<le> cap \<Longrightarrow> props (push_all ps p) = props p @ take (cap - length (props p)) ps"
proof (induction ps arbitrary: p)
  case (Cons x ps)
  show ?case
  proof (cases "length (props p) < cap")
    case True
    then obtain k where "cap - length (props p) = Suc k" "cap - Suc (length (props p)) = k"
      by (metis Suc_diff_Suc)
    with True Cons show ?thesis by (simp add: props_push vec_push_def)
  next
    case False
    with Cons show ?thesis by (simp add: props_push vec_push_def)
  qed
qed simp

text \<open>Every allowed property is counted, whether or not the packet had room for it.\<close>

lemma add_properties_result:
  "\<forall>x \<in> set ps. property_allowed impl x \<longrightarrow> property_wf x \<Longrightarrow>
   add_properties impl ps res p =
     (Ok (res + counted (filter (property_allowed impl) ps)), push_all (filter (property_allowed impl) ps) p)"
  by (induction ps arbitrary: res p) (simp_all add: property_encoded_len_bytes Let_def add.assoc)

lemma decode_loop_parses:
  assumes "rd_inv r" "remaining r = properties_bytes ps @ cs" "ps \<noteq> []"
    and "\<forall>x \<in> set ps. property_fits x \<and> \<not> property_binary x"
    and "get_property_len impl p = x + of_nat (length (properties_bytes ps))"
    and "length (properties_bytes ps) < 2 ^ 32"
  shows "decode_properties_loop impl x (p, r)
       = (Ok (), (push_all ps p, increment_position (length (properties_bytes ps)) r))"
  using assms
proof (induction ps arbitrary: x p r)
  case (Cons y ps)
  let ?n = "length (property_bytes y)" and ?r = "increment_position (length (property_bytes y)) r"
    and ?p = "push_to_properties impl y p"
  have y: "property_wf y" "\<not> property_binary y" "length (property_value_bytes y) < 65536"
    using Cons.prems(4) by (auto simp: property_fits_def)
  have dec: "property_decode r = (Ok y, ?r)"
    by (rule parsesD [OF parses_property_decode [OF y(1,2)] Cons.prems(1)]) (simp add: Cons.prems(2))
  have "ucast (of_nat (length (property_value_bytes y)) :: u16) = (of_nat (length (property_value_bytes y)) :: u32)"
    using y(3) by (simp add: unsigned_of_nat take_bit_nat_eq_self)
  then have x: "x + ucast (of_nat (length (property_value_bytes y)) :: u16) + 1 = x + of_nat ?n"
    by (simp add: length_property_bytes)
  show ?case
  proof (cases "ps = []")
    case True
    with Cons.prems(5) show ?thesis
      by (subst decode_properties_loop.simps)
        (simp add: dec property_encoded_len_bytes [OF y(1)] x Let_def get_push)
  next
    case False
    then have "0 < length (properties_bytes ps)"
      by (cases ps) (simp_all add: property_bytes_def)
    moreover have "length (properties_bytes ps) < 2 ^ 32" using Cons.prems(6) by simp
    ultimately have "of_nat (length (properties_bytes ps)) \<noteq> (0 :: u32)"
      by (simp add: word_of_nat_eq_0_iff nat_dvd_not_less)
    then have ne: "x + of_nat ?n \<noteq> get_property_len impl ?p"
      using Cons.prems(5) by (simp add: get_push)
    have "decode_properties_loop impl (x + of_nat ?n) (?p, ?r)
        = (Ok (), (push_all ps ?p, increment_position (length (properties_bytes ps)) ?r))"
    proof (rule Cons.IH)
      show "rd_inv ?r" by (rule rd_inv_increment [OF Cons.prems(1)]) (simp add: Cons.prems(2))
      show "remaining ?r = properties_bytes ps @ cs"
        by (simp add: remaining_increment Cons.prems(2))
      show "get_property_len impl ?p = x + of_nat ?n + of_nat (length (properties_bytes ps))"
        using Cons.prems(5) by (simp add: get_push)
    qed (use False Cons.prems in auto)
    with ne show ?thesis
      by (subst decode_properties_loop.simps)
        (simp add: dec property_encoded_len_bytes [OF y(1)] x Let_def)
  qed
qed simp

lemma decode_properties_parses:
  assumes "unat n = length (properties_bytes ps)" "unat n \<le> 268435455"
    and "\<forall>x \<in> set ps. property_fits x \<and> \<not> property_binary x"
  shows "op_parses (decode_properties impl) p (vbi_bytes n @ properties_bytes ps)
           (push_all ps (set_property_len impl n p)) ()"
  unfolding decode_properties_def
proof (rule op_parses_read [OF parses_read_variable_byte_int [OF assms(2)]],
    rule op_parses_set, rule op_parses_with)
  let ?p = "set_property_len impl n p"
  show "op_parses (if get_property_len impl ?p \<noteq> 0 then decode_properties_loop impl 0 else ret ())
      ?p (properties_bytes ps) (push_all ps ?p) ()"
  proof (cases "ps = []")
    case True
    then have "n = 0" using assms(1) by (simp add: unat_eq_zero)
    with True show ?thesis by (simp add: get_set op_parses_ret)
  next
    case False
    then have "0 < unat n" using assms(1) by (cases ps) (simp_all add: property_bytes_def)
    then have nz: "n \<noteq> 0" by auto
    have n: "n = of_nat (length (properties_bytes ps))"
      by (simp flip: assms(1))
    show ?thesis
      unfolding op_parses_def
    proof (intro allI impI)
      fix r cs assume "rd_inv r" "remaining r = properties_bytes ps @ cs"
      from decode_loop_parses [OF this False assms(3), of ?p 0] assms(1,2) nz n
      show "(if get_property_len impl ?p \<noteq> 0 then decode_properties_loop impl 0 else ret ()) (?p, r)
        = (Ok (), push_all ps ?p, increment_position (length (properties_bytes ps)) r)"
        by (simp add: get_set)
    qed
  qed
qed

lemma decode_fixed_header_parses:
  assumes "unat n \<le> 268435455"
  shows "op_parses (decode_fixed_header impl) p (h # vbi_bytes n)
           (set_remaining_len impl n (set_fixed_header impl h p)) (packet_type_from h)"
proof -
  have "op_parses (decode_fixed_header impl) p ([h] @ vbi_bytes n @ [])
           (set_remaining_len impl n (set_fixed_header impl h p)) (packet_type_from h)"
    unfolding decode_fixed_header_def
    by (rule op_parses_read [OF parses_read_u8] op_parses_set op_parses_ret
        op_parses_read [OF parses_read_variable_byte_int [OF assms]])+
  then show ?thesis by simp
qed

end

text \<open>The accessors that every packet with properties derives satisfy the laws.\<close>

interpretation prop_trait: packet_trait "prop_packet_impl allowed cap" properties cap
  for allowed cap
  by unfold_locales (simp_all add: prop_packet_impl_def)

lemma prop_packet_impl_simps [simp]:
  "set_property_len (prop_packet_impl allowed cap) v p = p\<lparr>property_len := v\<rparr>"
  "get_property_len (prop_packet_impl allowed cap) = property_len"
  "set_fixed_header (prop_packet_impl allowed cap) h p = p\<lparr>fixed_header := h\<rparr>"
  "set_remaining_len (prop_packet_impl allowed cap) v p = p\<lparr>remain_len := v\<rparr>"
  "push_to_properties (prop_packet_impl allowed cap) x p = p\<lparr>properties := vec_push cap (properties p) x\<rparr>"
  "property_allowed (prop_packet_impl allowed cap) = allowed"
  by (simp_all add: prop_packet_impl_def)

lemma push_all_prop_take:
  "length (properties p) \<le> cap \<Longrightarrow>
   prop_trait.push_all allowed cap ps p = p\<lparr>properties := properties p @ take (cap - length (properties p)) ps\<rparr>"
proof (induction ps arbitrary: p)
  case (Cons x ps)
  show ?case
  proof (cases "length (properties p) < cap")
    case True
    then obtain k where "cap - length (properties p) = Suc k" "cap - Suc (length (properties p)) = k"
      by (metis Suc_diff_Suc)
    with True Cons show ?thesis by (simp add: vec_push_def)
  next
    case False
    with Cons show ?thesis by (simp add: vec_push_def)
  qed
qed simp

lemma push_all_prop:
  "length (properties p) + length ps \<le> cap \<Longrightarrow>
   prop_trait.push_all allowed cap ps p = p\<lparr>properties := properties p @ ps\<rparr>"
  by (simp add: push_all_prop_take)

section \<open>Frames\<close>

text \<open>A control packet on the wire: the header byte, the remaining length, and that many bytes.\<close>

definition packet_frame :: "u8 \<Rightarrow> bytes \<Rightarrow> bytes" where
  "packet_frame h body = h # vbi_bytes (of_nat (length body)) @ body"

text \<open>The property section: announced length and properties.\<close>

definition section_bytes :: "property list \<Rightarrow> bytes" where
  "section_bytes ps = vbi_bytes (of_nat (length (properties_bytes ps))) @ properties_bytes ps"

definition section_wf :: "u32 \<Rightarrow> property list \<Rightarrow> bool" where
  "section_wf n ps \<longleftrightarrow> unat n = length (properties_bytes ps) \<and> (\<forall>p \<in> set ps. property_wf p)"

definition section_plain :: "u32 \<Rightarrow> property list \<Rightarrow> bool" where
  "section_plain n ps \<longleftrightarrow> section_wf n ps \<and> (\<forall>p \<in> set ps. property_fits p \<and> \<not> property_binary p)"

lemma section_wf_len:
  assumes "section_wf n ps"
  shows "of_nat (length (properties_bytes ps)) = n"
proof -
  from assms have "unat n = length (properties_bytes ps)" by (simp add: section_wf_def)
  from this [symmetric] show ?thesis by simp
qed

lemma section_wf_bound: "section_wf n ps \<Longrightarrow> length (section_bytes ps) \<le> 268435455 \<Longrightarrow> unat n \<le> 268435455"
  by (simp add: section_wf_def section_bytes_def)

lemma section_bytes_eq: "section_wf n ps \<Longrightarrow> section_bytes ps = vbi_bytes n @ properties_bytes ps"
  by (simp add: section_bytes_def section_wf_len)

lemma length_section: "section_wf n ps \<Longrightarrow>
  (of_nat (length (section_bytes ps)) :: u32) = of_nat (length (vbi_bytes n)) + n"
  by (simp add: section_bytes_eq section_wf_len)

lemma emits_section:
  "section_wf n ps \<Longrightarrow> unat n \<le> 268435455 \<Longrightarrow>
   emits (thenq (write_variable_byte_int n) (write_properties ps)) (section_bytes ps)"
  unfolding section_bytes_eq by (intro emits_thenq) (auto simp: section_wf_def)

text \<open>The first lines of every \<open>encode\<close>: how many bytes the announced length itself takes.\<close>

definition with_property_len_len :: "u32 \<Rightarrow> (u32 \<Rightarrow> unit writes) \<Rightarrow> unit writes" where
  "with_property_len_len n f =
     andq (lift_outcome (vbi_encode n)) (\<lambda>property_len_enc.
     andq (lift_outcome (vbi_len property_len_enc)) (\<lambda>property_len_len. f (of_nat property_len_len)))"

lemma emits_with_property_len_len:
  "unat n \<le> 268435455 \<Longrightarrow> emits (f (of_nat (length (vbi_bytes n)))) bs \<Longrightarrow>
   emits (with_property_len_len n f) bs"
  unfolding with_property_len_len_def
  by (intro emits_andq_lift [OF vbi_encode_Ok] emits_andq_lift [OF vbi_len_bytes])

lemma emits_frame:
  "length body \<le> 268435455 \<Longrightarrow> n = of_nat (length body) \<Longrightarrow> emits m body \<Longrightarrow>
   emits (thenq (write_u8 h) (thenq (write_variable_byte_int n) m)) (packet_frame h body)"
  unfolding packet_frame_def
  using emits_thenq [OF emits_write_u8 emits_thenq [OF emits_write_variable_byte_int]]
  by (fastforce simp: unat_of_nat_len)

lemma prop_section_parses:
  assumes "section_plain n ps" "unat n \<le> 268435455" "properties p = []" "length ps \<le> cap"
  shows "op_parses (decode_properties (prop_packet_impl allowed cap)) p (section_bytes ps)
           (p\<lparr>property_len := n, properties := ps\<rparr>) ()"
proof -
  have sec: "section_wf n ps" and ps: "\<forall>x \<in> set ps. property_fits x \<and> \<not> property_binary x"
    using assms(1) by (simp_all add: section_plain_def)
  have "op_parses (decode_properties (prop_packet_impl allowed cap)) p (vbi_bytes n @ properties_bytes ps)
      (prop_trait.push_all allowed cap ps (p\<lparr>property_len := n\<rparr>)) ()"
    using prop_trait.decode_properties_parses [of n ps allowed cap p] sec ps assms(2)
    by (simp add: section_wf_def)
  with assms(3,4) show ?thesis
    by (simp add: push_all_prop section_bytes_eq [OF sec])
qed

text \<open>The first two lines of every \<open>decode\<close>: the fixed header, then the rest for the type it has.\<close>

lemma header_then_parses:
  assumes "length body \<le> 268435455"
    and "op_parses (f (packet_type_from h)) (p\<lparr>fixed_header := h, remain_len := of_nat (length body)\<rparr>) body q b"
  shows "op_parses (andq (decode_fixed_header (prop_packet_impl allowed cap)) f) p (packet_frame h body) q b"
proof -
  have "unat (of_nat (length body) :: u32) \<le> 268435455" using assms(1) by (simp add: unat_of_nat_len)
  from op_parses_andq [OF prop_trait.decode_fixed_header_parses [OF this]] assms(2)
  have "op_parses (andq (decode_fixed_header (prop_packet_impl allowed cap)) f) p
      ((h # vbi_bytes (of_nat (length body))) @ body) q b" by fastforce
  then show ?thesis by (simp add: packet_frame_def)
qed

lemma section_nonempty: "1 \<le> length (section_bytes ps)"
  using vbi_groups_nonempty [of 4]
  by (cases "vbi_bytes (of_nat (length (properties_bytes ps)))") (simp_all add: section_bytes_def vbi_bytes_def)

locale packet_encoder =
  fixes enc :: "'p \<Rightarrow> unit writes"
    and head :: "'p \<Rightarrow> u8"
    and body :: "'p \<Rightarrow> bytes"
    and ok :: "'p \<Rightarrow> bool"
  assumes body_bound: "ok p \<Longrightarrow> length (body p) \<le> 268435455"
    and enc_emits: "ok p \<Longrightarrow> emits (enc p) (packet_frame (head p) (body p))"
begin

abbreviation frame :: "'p \<Rightarrow> bytes" where
  "frame p \<equiv> packet_frame (head p) (body p)"

lemma encode_frame:
  "ok p \<Longrightarrow> n \<le> length buf \<Longrightarrow> length (frame p) \<le> n \<Longrightarrow>
   encode_with (enc p) buf n = (Ok (length (frame p)), frame p @ drop (length (frame p)) buf)"
  by (rule encode_with_emits(1) [OF enc_emits])

lemma encode_short:
  "ok p \<Longrightarrow> n \<le> length buf \<Longrightarrow> n < length (frame p) \<Longrightarrow>
   fst (encode_with (enc p) buf n) = Err InsufficientBufferSize"
  by (rule encode_with_emits(2) [OF enc_emits])

end

text \<open>A packet that is also decoded: from a fresh packet, the frame gives the packet back, with
  the remaining length filled in.\<close>

locale packet_codec = packet_encoder enc head body ok
  for enc :: "'p \<Rightarrow> unit writes" and head body ok +
  fixes dec :: "('p, unit) packet_op"
    and fresh :: 'p
    and result :: "'p \<Rightarrow> 'p"
  assumes dec_parses: "ok p \<Longrightarrow> op_parses dec fresh (packet_frame (head p) (body p)) (result p) ()"
begin

lemma decode_encoded:
  assumes p: "ok p" and n: "n \<le> length buf" "length (frame p) \<le> n"
  shows "\<exists>k buf'. encode_with (enc p) buf n = (Ok k, buf') \<and>
     dec (fresh, reader_new buf' k) = (Ok (), (result p, increment_position k (reader_new buf' k)))"
proof -
  let ?b = "frame p @ drop (length (frame p)) buf"
  have "length (frame p) \<le> length ?b" by simp
  from op_parsesD [OF dec_parses [OF p] rd_inv_new [OF this], of "[]"]
  have "dec (fresh, reader_new ?b (length (frame p)))
      = (Ok (), (result p, increment_position (length (frame p)) (reader_new ?b (length (frame p)))))"
    by (simp add: remaining_new)
  with encode_frame [OF p n] show ?thesis by blast
qed

end

end
