(* ===== verification/Mqtt_Acks.thy ===== *)
theory Mqtt_Acks
  imports Mqtt_Packet
begin

text \<open>
  The four acknowledgements of a publish (rust-mqtt/src/packet/v5/puback_packet.rs,
  pubrec_packet.rs, pubrel_packet.rs, pubcomp_packet.rs). The four structs have the same fields,
  so one record models them; the encoders are the same text in the four files, and the decoders
  differ in what they accept after the packet identifier.
\<close>

record ack_packet = prop_packet +
  packet_identifier :: u16
  reason_code :: u8

definition ack_new :: "u8 \<Rightarrow> ack_packet" where
  "ack_new header = \<lparr>fixed_header = header, remain_len = 0, property_len = 0, properties = [],
     packet_identifier = 0, reason_code = 0\<rparr>"

text \<open>The body common to the four encoders.\<close>

definition ack_writes :: "ack_packet \<Rightarrow> unit writes" where
  "ack_writes p =
     with_property_len_len (property_len p) (\<lambda>property_len_len.
       let rm_ln = property_len p + property_len_len + 3 in
       thenq (write_u8 (fixed_header p))
       (thenq (write_variable_byte_int rm_ln)
       (thenq (write_u16 (packet_identifier p))
       (thenq (write_u8 (reason_code p))
       (thenq (write_variable_byte_int (property_len p))
       (write_properties (properties p)))))))"

section \<open>PUBACK\<close>

definition puback_new :: ack_packet where
  "puback_new = ack_new (packet_type_byte Puback)"

definition puback_impl :: "nat \<Rightarrow> ack_packet packet_impl" where
  "puback_impl cap = prop_packet_impl puback_property cap"

definition puback_encode :: "ack_packet \<Rightarrow> bytes \<Rightarrow> nat \<Rightarrow> (buffer_error, nat) outcome \<times> bytes" where
  "puback_encode p = encode_with (ack_writes p)"

definition puback_decode :: "nat \<Rightarrow> (ack_packet, unit) packet_op" where
  "puback_decode cap =
     andq (decode_fixed_header (puback_impl cap)) (\<lambda>t.
     if t \<noteq> Puback then throw PacketTypeMismatch
     else
       andq (on_reader read_u16) (\<lambda>i.
       thenq (modify_packet (\<lambda>p. p\<lparr>packet_identifier := i\<rparr>))
       (thenq (with_packet (\<lambda>p.
          if remain_len p \<noteq> 2
          then andq (on_reader read_u8) (\<lambda>c. modify_packet (\<lambda>p. p\<lparr>reason_code := c\<rparr>))
          else ret ()))
       (with_packet (\<lambda>p.
          if remain_len p < 4 then modify_packet (\<lambda>p. p\<lparr>property_len := 0\<rparr>)
          else decode_properties (puback_impl cap))))))"

section \<open>PUBREC, PUBREL and PUBCOMP\<close>

text \<open>What the three decoders do after the packet type: identifier, reason code, properties.\<close>

definition ack_rest :: "ack_packet packet_impl \<Rightarrow> (ack_packet, unit) packet_op" where
  "ack_rest impl =
     andq (on_reader read_u16) (\<lambda>i.
     thenq (modify_packet (\<lambda>p. p\<lparr>packet_identifier := i\<rparr>))
     (andq (on_reader read_u8) (\<lambda>c.
     thenq (modify_packet (\<lambda>p. p\<lparr>reason_code := c\<rparr>))
     (decode_properties impl))))"

definition pubrec_new :: ack_packet where
  "pubrec_new = ack_new (packet_type_byte Pubrec)"

definition pubrec_impl :: "nat \<Rightarrow> ack_packet packet_impl" where
  "pubrec_impl cap = prop_packet_impl pubrec_property cap"

definition pubrec_encode :: "ack_packet \<Rightarrow> bytes \<Rightarrow> nat \<Rightarrow> (buffer_error, nat) outcome \<times> bytes" where
  "pubrec_encode p = encode_with (ack_writes p)"

definition pubrec_decode :: "nat \<Rightarrow> (ack_packet, unit) packet_op" where
  "pubrec_decode cap =
     andq (decode_fixed_header (pubrec_impl cap)) (\<lambda>t.
     if t \<noteq> Pubrec then throw PacketTypeMismatch else ack_rest (pubrec_impl cap))"

definition pubrel_new :: ack_packet where
  "pubrel_new = ack_new 0"

definition pubrel_impl :: "nat \<Rightarrow> ack_packet packet_impl" where
  "pubrel_impl cap = prop_packet_impl pubrel_property cap"

definition pubrel_encode :: "ack_packet \<Rightarrow> bytes \<Rightarrow> nat \<Rightarrow> (buffer_error, nat) outcome \<times> bytes" where
  "pubrel_encode p = encode_with (ack_writes p)"

definition pubrel_decode :: "nat \<Rightarrow> (ack_packet, unit) packet_op" where
  "pubrel_decode cap =
     andq (decode_fixed_header (pubrel_impl cap)) (\<lambda>t.
     if t \<noteq> Pubrel then throw PacketTypeMismatch else ack_rest (pubrel_impl cap))"

definition pubcomp_new :: ack_packet where
  "pubcomp_new = ack_new (packet_type_byte Pubcomp)"

definition pubcomp_impl :: "nat \<Rightarrow> ack_packet packet_impl" where
  "pubcomp_impl cap = prop_packet_impl pubcomp_property cap"

definition pubcomp_encode :: "ack_packet \<Rightarrow> bytes \<Rightarrow> nat \<Rightarrow> (buffer_error, nat) outcome \<times> bytes" where
  "pubcomp_encode p = encode_with (ack_writes p)"

definition pubcomp_decode :: "nat \<Rightarrow> (ack_packet, unit) packet_op" where
  "pubcomp_decode cap =
     andq (decode_fixed_header (pubcomp_impl cap)) (\<lambda>t.
     if t \<noteq> Pubcomp then throw PacketTypeMismatch else ack_rest (pubcomp_impl cap))"

section \<open>The frame of an acknowledgement\<close>

definition ack_body :: "ack_packet \<Rightarrow> bytes" where
  "ack_body p = u16_to_be (packet_identifier p) @ [reason_code p] @ section_bytes (properties p)"

definition ack_wf :: "ack_packet \<Rightarrow> bool" where
  "ack_wf p \<longleftrightarrow> section_wf (property_len p) (properties p) \<and> length (ack_body p) \<le> 268435455"

text \<open>What can be sent to a peer that runs the same code with room for \<open>cap\<close> properties.\<close>

definition ack_sendable :: "packet_type \<Rightarrow> nat \<Rightarrow> ack_packet \<Rightarrow> bool" where
  "ack_sendable t cap p \<longleftrightarrow> ack_wf p \<and> section_plain (property_len p) (properties p)
     \<and> length (properties p) \<le> cap \<and> packet_type_from (fixed_header p) = t"

definition ack_received :: "ack_packet \<Rightarrow> ack_packet" where
  "ack_received p = p\<lparr>remain_len := of_nat (length (ack_body p))\<rparr>"

lemma ack_received_eq: "ack_received p = \<lparr>fixed_header = fixed_header p,
    remain_len = of_nat (length (ack_body p)), property_len = property_len p,
    properties = properties p, packet_identifier = packet_identifier p, reason_code = reason_code p\<rparr>"
  by (cases p) (simp add: ack_received_def)

lemma emits_ack_writes:
  assumes "ack_wf p"
  shows "emits (ack_writes p) (packet_frame (fixed_header p) (ack_body p))"
proof -
  have sec: "section_wf (property_len p) (properties p)" and len: "length (ack_body p) \<le> 268435455"
    using assms by (auto simp: ack_wf_def)
  then have n: "unat (property_len p) \<le> 268435455"
    using section_wf_bound [OF sec] by (simp add: ack_body_def)
  show ?thesis
    unfolding ack_writes_def Let_def
  proof (rule emits_with_property_len_len [OF n], rule emits_frame [OF len])
    show "property_len p + of_nat (length (vbi_bytes (property_len p))) + 3 = of_nat (length (ack_body p))"
      by (simp add: ack_body_def length_section [OF sec])
    show "emits (thenq (write_u16 (packet_identifier p)) (thenq (write_u8 (reason_code p))
        (thenq (write_variable_byte_int (property_len p)) (write_properties (properties p)))))
      (ack_body p)"
      unfolding ack_body_def by (intro emits_thenq emits_write_u16 emits_write_u8 emits_section sec n)
  qed
qed

interpretation ack_encoder: packet_encoder ack_writes fixed_header ack_body ack_wf
  by unfold_locales (simp_all add: emits_ack_writes ack_wf_def)

lemma ack_sendable_facts:
  assumes "ack_sendable t cap p"
  shows "section_plain (property_len p) (properties p)" "unat (property_len p) \<le> 268435455"
    "length (properties p) \<le> cap" "packet_type_from (fixed_header p) = t"
    "length (ack_body p) \<le> 268435455"
    "unat (of_nat (length (ack_body p)) :: u32) = length (ack_body p)"
    "4 \<le> length (ack_body p)"
proof -
  note a = assms [unfolded ack_sendable_def ack_wf_def]
  show "section_plain (property_len p) (properties p)" "length (properties p) \<le> cap"
    "packet_type_from (fixed_header p) = t" "length (ack_body p) \<le> 268435455"
    using a by auto
  then show "unat (of_nat (length (ack_body p)) :: u32) = length (ack_body p)"
    by (simp add: unat_of_nat_len)
  show "unat (property_len p) \<le> 268435455"
    by (rule section_wf_bound) (use a in \<open>auto simp: ack_body_def\<close>)
  have "vbi_bytes (of_nat (length (properties_bytes (properties p)))) \<noteq> []"
    by (simp add: vbi_bytes_def vbi_groups_nonempty)
  then show "4 \<le> length (ack_body p)"
    by (cases "vbi_bytes (of_nat (length (properties_bytes (properties p))))")
      (simp_all add: ack_body_def section_bytes_def)
qed

lemma ack_rest_parses:
  assumes s: "ack_sendable t cap p" and q: "properties q = []"
  shows "op_parses (ack_rest (prop_packet_impl allowed cap)) q (ack_body p)
    (q\<lparr>packet_identifier := packet_identifier p, reason_code := reason_code p,
       property_len := property_len p, properties := properties p\<rparr>) ()"
proof -
  note f = ack_sendable_facts [OF s]
  let ?q = "q\<lparr>packet_identifier := packet_identifier p, reason_code := reason_code p\<rparr>"
  have "op_parses (decode_properties (prop_packet_impl allowed cap)) ?q (section_bytes (properties p))
      (?q\<lparr>property_len := property_len p, properties := properties p\<rparr>) ()"
    by (rule prop_section_parses [OF f(1,2) _ f(3)]) (simp add: q)
  then have "op_parses (decode_properties (prop_packet_impl allowed cap)) ?q (section_bytes (properties p))
      (q\<lparr>packet_identifier := packet_identifier p, reason_code := reason_code p,
         property_len := property_len p, properties := properties p\<rparr>) ()" by simp
  then show ?thesis
    unfolding ack_rest_def ack_body_def
    by (intro op_parses_read [OF parses_read_u16] op_parses_read [OF parses_read_u8] op_parses_set)
qed

lemma ack_decode_parses:
  assumes "ack_sendable t cap p" "dec = andq (decode_fixed_header (prop_packet_impl allowed cap))
      (\<lambda>t'. if t' \<noteq> t then throw PacketTypeMismatch else ack_rest (prop_packet_impl allowed cap))"
  shows "op_parses dec (ack_new h) (packet_frame (fixed_header p) (ack_body p)) (ack_received p) ()"
proof -
  note f = ack_sendable_facts [OF assms(1)]
  let ?n = "of_nat (length (ack_body p)) :: u32"
  have "op_parses dec (ack_new h) ((fixed_header p # vbi_bytes ?n) @ ack_body p) (ack_received p) ()"
    unfolding assms(2)
  proof (rule op_parses_andq [OF prop_trait.decode_fixed_header_parses])
    show "unat ?n \<le> 268435455" using f by simp
    have "op_parses (ack_rest (prop_packet_impl allowed cap)) (ack_new h\<lparr>fixed_header := fixed_header p, remain_len := ?n\<rparr>)
        (ack_body p) (ack_received p) ()"
      using ack_rest_parses [OF assms(1), of "ack_new h\<lparr>fixed_header := fixed_header p, remain_len := ?n\<rparr>" allowed]
      by (simp add: ack_new_def ack_received_eq)
    with f(4) show "op_parses (if packet_type_from (fixed_header p) \<noteq> t then throw PacketTypeMismatch
        else ack_rest (prop_packet_impl allowed cap))
      (set_remaining_len (prop_packet_impl allowed cap) ?n
        (set_fixed_header (prop_packet_impl allowed cap) (fixed_header p) (ack_new h)))
      (ack_body p) (ack_received p) ()" by simp
  qed
  then show ?thesis by (simp add: packet_frame_def)
qed

lemma puback_decode_parses:
  assumes "ack_sendable Puback cap p"
  shows "op_parses (puback_decode cap) puback_new (packet_frame (fixed_header p) (ack_body p))
           (ack_received p) ()"
proof -
  note f = ack_sendable_facts [OF assms]
  let ?n = "of_nat (length (ack_body p)) :: u32"
  let ?q = "puback_new\<lparr>fixed_header := fixed_header p, remain_len := ?n, packet_identifier := packet_identifier p\<rparr>"
  have n: "\<not> ?n < 4" "?n \<noteq> 2" using f(6,7) by (auto simp: word_less_nat_alt)
  have "op_parses (decode_properties (puback_impl cap)) (?q\<lparr>reason_code := reason_code p\<rparr>)
      (section_bytes (properties p)) (ack_received p) ()"
    using prop_section_parses [OF f(1,2) _ f(3), of "?q\<lparr>reason_code := reason_code p\<rparr>" puback_property]
    by (simp add: puback_impl_def puback_new_def ack_new_def ack_received_eq)
  then have props: "op_parses (with_packet (\<lambda>p. if remain_len p < 4
        then modify_packet (\<lambda>p. p\<lparr>property_len := 0\<rparr>) else decode_properties (puback_impl cap)))
      (?q\<lparr>reason_code := reason_code p\<rparr>) (section_bytes (properties p)) (ack_received p) ()"
    by (intro op_parses_with) (simp add: n)
  have "op_parses (andq (on_reader read_u8) (\<lambda>c. modify_packet (\<lambda>p. p\<lparr>reason_code := c\<rparr>))) ?q
      ([reason_code p] @ []) (?q\<lparr>reason_code := reason_code p\<rparr>) ()"
    by (rule op_parses_read [OF parses_read_u8 op_parses_modify])
  then have reason: "op_parses (with_packet (\<lambda>p. if remain_len p \<noteq> 2
        then andq (on_reader read_u8) (\<lambda>c. modify_packet (\<lambda>p. p\<lparr>reason_code := c\<rparr>)) else ret ()))
      ?q [reason_code p] (?q\<lparr>reason_code := reason_code p\<rparr>) ()"
    by (intro op_parses_with) (simp add: n)
  have "op_parses (puback_decode cap) puback_new
      ((fixed_header p # vbi_bytes ?n) @ u16_to_be (packet_identifier p) @ [reason_code p] @ section_bytes (properties p))
      (ack_received p) ()"
    unfolding puback_decode_def puback_impl_def
  proof (rule op_parses_andq [OF prop_trait.decode_fixed_header_parses])
    show "unat ?n \<le> 268435455" using f by simp
    note rest = op_parses_andq [OF reason props [unfolded puback_impl_def]]
    show "op_parses (if packet_type_from (fixed_header p) \<noteq> Puback then throw PacketTypeMismatch
       else andq (on_reader read_u16) (\<lambda>i.
       thenq (modify_packet (\<lambda>p. p\<lparr>packet_identifier := i\<rparr>))
       (thenq (with_packet (\<lambda>p. if remain_len p \<noteq> 2
          then andq (on_reader read_u8) (\<lambda>c. modify_packet (\<lambda>p. p\<lparr>reason_code := c\<rparr>)) else ret ()))
       (with_packet (\<lambda>p. if remain_len p < 4 then modify_packet (\<lambda>p. p\<lparr>property_len := 0\<rparr>)
          else decode_properties (prop_packet_impl puback_property cap))))))
      (set_remaining_len (prop_packet_impl puback_property cap) ?n
        (set_fixed_header (prop_packet_impl puback_property cap) (fixed_header p) puback_new))
      (u16_to_be (packet_identifier p) @ [reason_code p] @ section_bytes (properties p)) (ack_received p) ()"
      unfolding f(4) prop_packet_impl_simps
      by (subst if_not_P, simp, rule op_parses_read [OF parses_read_u16 op_parses_set], use rest in simp)
  qed
  then show ?thesis by (simp add: packet_frame_def ack_body_def)
qed

lemma ack_sendable_encoder:
  assumes "ack_sendable t cap p"
  shows "length (ack_body p) \<le> 268435455" "emits (ack_writes p) (packet_frame (fixed_header p) (ack_body p))"
  using assms emits_ack_writes [of p] by (auto simp: ack_sendable_def ack_wf_def)

interpretation puback_codec: packet_codec ack_writes fixed_header ack_body "ack_sendable Puback cap"
    "puback_decode cap" puback_new ack_received for cap
  by unfold_locales (simp_all add: ack_sendable_encoder puback_decode_parses)

lemma pubrec_decode_parses:
  "ack_sendable Pubrec cap p \<Longrightarrow>
   op_parses (pubrec_decode cap) pubrec_new (packet_frame (fixed_header p) (ack_body p)) (ack_received p) ()"
  unfolding pubrec_new_def
  by (erule ack_decode_parses [OF _ pubrec_decode_def [unfolded pubrec_impl_def]])

interpretation pubrec_codec: packet_codec ack_writes fixed_header ack_body "ack_sendable Pubrec cap"
    "pubrec_decode cap" pubrec_new ack_received for cap
  by unfold_locales (simp_all add: ack_sendable_encoder pubrec_decode_parses)

lemma pubrel_decode_parses:
  "ack_sendable Pubrel cap p \<Longrightarrow>
   op_parses (pubrel_decode cap) pubrel_new (packet_frame (fixed_header p) (ack_body p)) (ack_received p) ()"
  unfolding pubrel_new_def
  by (erule ack_decode_parses [OF _ pubrel_decode_def [unfolded pubrel_impl_def]])

interpretation pubrel_codec: packet_codec ack_writes fixed_header ack_body "ack_sendable Pubrel cap"
    "pubrel_decode cap" pubrel_new ack_received for cap
  by unfold_locales (simp_all add: ack_sendable_encoder pubrel_decode_parses)

lemma pubcomp_decode_parses:
  "ack_sendable Pubcomp cap p \<Longrightarrow>
   op_parses (pubcomp_decode cap) pubcomp_new (packet_frame (fixed_header p) (ack_body p)) (ack_received p) ()"
  unfolding pubcomp_new_def
  by (erule ack_decode_parses [OF _ pubcomp_decode_def [unfolded pubcomp_impl_def]])

interpretation pubcomp_codec: packet_codec ack_writes fixed_header ack_body "ack_sendable Pubcomp cap"
    "pubcomp_decode cap" pubcomp_new ack_received for cap
  by unfold_locales (simp_all add: ack_sendable_encoder pubcomp_decode_parses)

section \<open>Properties\<close>

text \<open>
  C18. Each of the four acknowledgements survives the wire. Encoded into a buffer large enough
  and decoded from the bytes the encoder reports, the packet comes back with its remaining
  length filled in, and the reader stands behind it. The hypotheses are what the code leaves to
  its caller: the announced property length is that of the properties, none of them holds binary
  data, the receiver has room for them, and the header byte is of the packet's type.
\<close>

theorem ack_roundtrip:
  assumes "(t, enc, dec, fresh) \<in> {(Puback, puback_encode, puback_decode cap, puback_new),
      (Pubrec, pubrec_encode, pubrec_decode cap, pubrec_new),
      (Pubrel, pubrel_encode, pubrel_decode cap, pubrel_new),
      (Pubcomp, pubcomp_encode, pubcomp_decode cap, pubcomp_new)}"
    and "ack_sendable t cap p" "n \<le> length buf" "length (packet_frame (fixed_header p) (ack_body p)) \<le> n"
  shows "\<exists>k buf'. enc p buf n = (Ok k, buf') \<and>
     dec (fresh, reader_new buf' k) = (Ok (), (ack_received p, increment_position k (reader_new buf' k)))"
  using assms puback_codec.decode_encoded [of cap p n buf] pubrec_codec.decode_encoded [of cap p n buf]
    pubrel_codec.decode_encoded [of cap p n buf] pubcomp_codec.decode_encoded [of cap p n buf]
  by (auto simp: puback_encode_def pubrec_encode_def pubrel_encode_def pubcomp_encode_def)

theorem ack_roundtrip_witness:
  "\<exists>p k buf'. p = pubcomp_new\<lparr>packet_identifier := 258, property_len := 5,
        properties := [ReasonString \<lparr>es_string = lit ''ok'', es_len = 2\<rparr>]\<rparr> \<and>
     pubcomp_encode p (replicate 16 0) 12 = (Ok k, buf') \<and>
     pubcomp_decode 1 (pubcomp_new, reader_new buf' k) =
       (Ok (), (ack_received p, increment_position k (reader_new buf' k)))"
proof -
  let ?p = "pubcomp_new\<lparr>packet_identifier := 258, property_len := 5,
        properties := [ReasonString \<lparr>es_string = lit ''ok'', es_len = 2\<rparr>]\<rparr>"
  have len: "length (ack_body ?p) = 9" by code_simp
  have wf: "section_wf (property_len ?p) (properties ?p)" by code_simp
  have "length (packet_frame (fixed_header ?p) (ack_body ?p)) = 11" by code_simp
  moreover have "packet_type_from (fixed_header ?p) = Pubcomp" by code_simp
  moreover have "property_wf (ReasonString \<lparr>es_string = lit ''ok'', es_len = 2\<rparr>)" by code_simp
  moreover have "length (string_bytes \<lparr>es_string = lit ''ok'', es_len = 2\<rparr>) = 4" by code_simp
  ultimately have "\<exists>k buf'. pubcomp_encode ?p (replicate 16 0) 12 = (Ok k, buf') \<and>
     pubcomp_decode 1 (pubcomp_new, reader_new buf' k) =
       (Ok (), (ack_received ?p, increment_position k (reader_new buf' k)))"
    by (intro ack_roundtrip [of Pubcomp _ _ _ 1 ?p 12 "replicate 16 0"]) (use len wf in
      \<open>auto simp: ack_sendable_def ack_wf_def section_plain_def property_fits_def\<close>)
  then show ?thesis by blast
qed

lemma short_header:
  assumes "packet_trait impl props cap"
  shows "decode_fixed_header impl (p, reader_new [h, 2, a, b] 4) =
     (Ok (packet_type_from h), (set_remaining_len impl 2 (set_fixed_header impl h p),
        increment_position 2 (reader_new [h, 2, a, b] 4)))"
proof -
  have "vbi_bytes 2 = [2]" by code_simp
  with op_parsesD [OF packet_trait.decode_fixed_header_parses [OF assms, of 2 p h] rd_inv_new, of 4 "[h, 2, a, b]" "[a, b]"]
  show ?thesis by (simp add: remaining_new)
qed

text \<open>
  MQTT allows an acknowledgement without reason code and properties (remaining length 2,
  meaning success). The PUBACK decoder accepts it; the PUBREC, PUBREL and PUBCOMP decoders ask
  for a reason code and fail with \<open>InsufficientBufferSize\<close>, whatever the identifier.
\<close>

theorem short_ack_decoding:
  "puback_decode cap (puback_new, reader_new (0x40 # 2 # u16_to_be i) 4) =
     (Ok (), (puback_new\<lparr>remain_len := 2, packet_identifier := i\<rparr>,
              increment_position 4 (reader_new (0x40 # 2 # u16_to_be i) 4)))
   \<and> fst (pubrec_decode cap (pubrec_new, reader_new (0x50 # 2 # u16_to_be i) 4)) = Err InsufficientBufferSize
   \<and> fst (pubrel_decode cap (pubrel_new, reader_new (0x62 # 2 # u16_to_be i) 4)) = Err InsufficientBufferSize
   \<and> fst (pubcomp_decode cap (pubcomp_new, reader_new (0x70 # 2 # u16_to_be i) 4)) = Err InsufficientBufferSize"
proof -
  obtain a b where i: "u16_to_be i = [a, b]" by (simp add: u16_to_be_def)
  have u16: "read_u16 (increment_position 2 (reader_new [h, 2, a, b] 4))
      = (Ok i, increment_position 4 (reader_new [h, 2, a, b] 4))" for h
    using parsesD [OF parses_read_u16 rd_inv_increment [OF rd_inv_new], of 4 "[h, 2, a, b]" 2 i "[]"]
    by (simp add: remaining_new remaining_increment i)
  have u8: "read_u8 (increment_position 4 (reader_new [h, 2, a, b] 4))
      = (Err InsufficientBufferSize, increment_position 4 (reader_new [h, 2, a, b] 4))" for h
    by (simp add: read_u8_def reader_new_def)
  note hd = short_header [OF prop_trait.packet_trait_axioms]
  note run = andq_Ok [of "decode_fixed_header m" s for m s, OF hd] on_reader_simps(1) [of read_u16, OF u16]
    on_reader_simps(2) [of read_u8, OF u8]
  have "puback_decode cap (puback_new, reader_new (0x40 # 2 # u16_to_be i) 4) =
     (Ok (), (puback_new\<lparr>remain_len := 2, packet_identifier := i\<rparr>,
              increment_position 4 (reader_new (0x40 # 2 # u16_to_be i) 4)))"
    by (simp add: i puback_decode_def puback_impl_def run packet_type_from_def andq_assoc
        puback_new_def ack_new_def)
  moreover have "fst (pubrec_decode cap (pubrec_new, reader_new (0x50 # 2 # u16_to_be i) 4)) = Err InsufficientBufferSize"
    "fst (pubrel_decode cap (pubrel_new, reader_new (0x62 # 2 # u16_to_be i) 4)) = Err InsufficientBufferSize"
    "fst (pubcomp_decode cap (pubcomp_new, reader_new (0x70 # 2 # u16_to_be i) 4)) = Err InsufficientBufferSize"
    by (simp_all add: i pubrec_decode_def pubrec_impl_def pubrel_decode_def pubrel_impl_def
        pubcomp_decode_def pubcomp_impl_def run packet_type_from_def ack_rest_def)
  ultimately show ?thesis by blast
qed

end
