(* ===== verification/Mqtt_Control.thy ===== *)
theory Mqtt_Control
  imports Mqtt_Packet
begin

text \<open>
  The control packets without a payload: CONNACK, DISCONNECT, AUTH, PINGREQ and PINGRESP
  (rust-mqtt/src/packet/v5/connack_packet.rs, disconnect_packet.rs, auth_packet.rs,
  pingreq_packet.rs, pingresp_packet.rs), each with its constructor, accessors, encoder and
  decoder. CONNACK, DISCONNECT and AUTH are interpretations of the codec contract.
\<close>

section \<open>CONNACK\<close>

record connack_packet = prop_packet +
  ack_flags :: u8
  connect_reason_code :: u8

definition connack_new :: connack_packet where
  "connack_new = \<lparr>fixed_header = packet_type_byte Connack, remain_len = 0, property_len = 0,
     properties = [], ack_flags = 0, connect_reason_code = 0\<rparr>"

definition connack_impl :: "nat \<Rightarrow> connack_packet packet_impl" where
  "connack_impl cap = prop_packet_impl connack_property cap"

definition connack_writes :: "connack_packet \<Rightarrow> unit writes" where
  "connack_writes p =
     thenq (write_u8 (fixed_header p))
     (with_property_len_len (property_len p) (\<lambda>property_len_len.
       let rm_len = 2 + property_len p + property_len_len in
       thenq (write_variable_byte_int rm_len)
       (thenq (write_u8 (ack_flags p))
       (thenq (write_u8 (connect_reason_code p))
       (thenq (write_variable_byte_int (property_len p))
       (write_properties (properties p)))))))"

definition connack_encode :: "connack_packet \<Rightarrow> bytes \<Rightarrow> nat \<Rightarrow> (buffer_error, nat) outcome \<times> bytes" where
  "connack_encode p = encode_with (connack_writes p)"

definition connack_decode :: "nat \<Rightarrow> (connack_packet, unit) packet_op" where
  "connack_decode cap =
     andq (decode_fixed_header (connack_impl cap)) (\<lambda>t.
     if t \<noteq> Connack then throw PacketTypeMismatch
     else
       andq (on_reader read_u8) (\<lambda>b.
       thenq (modify_packet (\<lambda>p. p\<lparr>ack_flags := b\<rparr>))
       (andq (on_reader read_u8) (\<lambda>c.
       thenq (modify_packet (\<lambda>p. p\<lparr>connect_reason_code := c\<rparr>))
       (decode_properties (connack_impl cap))))))"

section \<open>DISCONNECT\<close>

record disconnect_packet = prop_packet +
  disconnect_reason :: u8

definition disconnect_new :: disconnect_packet where
  "disconnect_new = \<lparr>fixed_header = packet_type_byte Disconnect, remain_len = 5, property_len = 0,
     properties = [], disconnect_reason = 0x00\<rparr>"

definition add_reason :: "u8 \<Rightarrow> disconnect_packet \<Rightarrow> disconnect_packet" where
  "add_reason reason p = p\<lparr>disconnect_reason := reason\<rparr>"

definition disconnect_impl :: "nat \<Rightarrow> disconnect_packet packet_impl" where
  "disconnect_impl cap = prop_packet_impl disconnect_property cap"

definition disconnect_writes :: "disconnect_packet \<Rightarrow> unit writes" where
  "disconnect_writes p =
     thenq (write_u8 (fixed_header p))
     (with_property_len_len (property_len p) (\<lambda>property_len_len.
       let rm_len = 1 + property_len p + property_len_len in
       thenq (write_variable_byte_int rm_len)
       (thenq (write_u8 (disconnect_reason p))
       (thenq (write_variable_byte_int (property_len p))
       (write_properties (properties p))))))"

definition disconnect_encode :: "disconnect_packet \<Rightarrow> bytes \<Rightarrow> nat \<Rightarrow> (buffer_error, nat) outcome \<times> bytes" where
  "disconnect_encode p = encode_with (disconnect_writes p)"

definition disconnect_decode :: "nat \<Rightarrow> (disconnect_packet, unit) packet_op" where
  "disconnect_decode cap =
     andq (decode_fixed_header (disconnect_impl cap)) (\<lambda>t.
     if t \<noteq> Disconnect then throw WrongPacketToDecode
     else with_packet (\<lambda>p.
       if remain_len p = 0 then modify_packet (\<lambda>p. p\<lparr>disconnect_reason := 0x00\<rparr>)
       else
         andq (on_reader read_u8) (\<lambda>c.
         thenq (modify_packet (\<lambda>p. p\<lparr>disconnect_reason := c\<rparr>))
         (decode_properties (disconnect_impl cap)))))"

section \<open>AUTH\<close>

record auth_packet = prop_packet +
  auth_reason :: u8

definition auth_new :: auth_packet where
  "auth_new = \<lparr>fixed_header = packet_type_byte Auth, remain_len = 0, property_len = 0,
     properties = [], auth_reason = 0x00\<rparr>"

definition auth_impl :: "nat \<Rightarrow> auth_packet packet_impl" where
  "auth_impl cap = prop_packet_impl auth_property cap"

definition add_reason_code :: "u8 \<Rightarrow> auth_packet \<Rightarrow> auth_packet" where
  "add_reason_code code p =
     (if code \<noteq> 0 \<and> code \<noteq> 24 \<and> code \<noteq> 25 then p else p\<lparr>auth_reason := code\<rparr>)"

definition add_property :: "nat \<Rightarrow> property \<Rightarrow> auth_packet \<Rightarrow> auth_packet" where
  "add_property cap x p = (if auth_property x then push_to_properties (auth_impl cap) x p else p)"

definition auth_writes :: "auth_packet \<Rightarrow> unit writes" where
  "auth_writes p =
     with_property_len_len (property_len p) (\<lambda>property_len_len.
       let rm_ln = property_len p + property_len_len + 1 in
       thenq (write_u8 (fixed_header p))
       (thenq (write_variable_byte_int rm_ln)
       (thenq (write_u8 (auth_reason p))
       (thenq (write_variable_byte_int (property_len p))
       (write_properties (properties p))))))"

definition auth_encode :: "auth_packet \<Rightarrow> bytes \<Rightarrow> nat \<Rightarrow> (buffer_error, nat) outcome \<times> bytes" where
  "auth_encode p = encode_with (auth_writes p)"

definition auth_decode :: "nat \<Rightarrow> (auth_packet, unit) packet_op" where
  "auth_decode cap =
     thenq (decode_fixed_header (auth_impl cap))
     (andq (on_reader read_u8) (\<lambda>c.
     thenq (modify_packet (\<lambda>p. p\<lparr>auth_reason := c\<rparr>))
     (decode_properties (auth_impl cap))))"

section \<open>PINGREQ and PINGRESP\<close>

text \<open>A ping carries no properties: the accessors for them log an error and do nothing.\<close>

definition ping_impl :: "(property \<Rightarrow> bool) \<Rightarrow> base_packet packet_impl" where
  "ping_impl allowed =
     \<lparr>set_property_len = (\<lambda>_ p. p),
      get_property_len = (\<lambda>_. 0),
      push_to_properties = (\<lambda>_ p. p),
      property_allowed = allowed,
      set_fixed_header = (\<lambda>h p. p\<lparr>fixed_header := h\<rparr>),
      set_remaining_len = (\<lambda>v p. p\<lparr>remain_len := v\<rparr>)\<rparr>"

definition pingreq_new :: base_packet where
  "pingreq_new = \<lparr>fixed_header = packet_type_byte Pingreq, remain_len = 0\<rparr>"

definition pingreq_impl :: "base_packet packet_impl" where
  "pingreq_impl = ping_impl pingreq_property"

definition pingreq_writes :: "base_packet \<Rightarrow> unit writes" where
  "pingreq_writes p = thenq (write_u8 (fixed_header p)) (write_variable_byte_int 0)"

definition pingreq_encode :: "base_packet \<Rightarrow> bytes \<Rightarrow> nat \<Rightarrow> (buffer_error, nat) outcome \<times> bytes" where
  "pingreq_encode p = encode_with (pingreq_writes p)"

definition pingreq_decode :: "(base_packet, unit) packet_op" where
  "pingreq_decode = throw WrongPacketToDecode"

definition pingresp_new :: base_packet where
  "pingresp_new = \<lparr>fixed_header = packet_type_byte Pingresp, remain_len = 0\<rparr>"

definition pingresp_impl :: "base_packet packet_impl" where
  "pingresp_impl = ping_impl pingresp_property"

definition pingresp_writes :: "base_packet \<Rightarrow> unit writes" where
  "pingresp_writes p = thenq (write_u8 (fixed_header p)) (write_variable_byte_int (remain_len p))"

definition pingresp_encode :: "base_packet \<Rightarrow> bytes \<Rightarrow> nat \<Rightarrow> (buffer_error, nat) outcome \<times> bytes" where
  "pingresp_encode p = encode_with (pingresp_writes p)"

definition pingresp_decode :: "(base_packet, unit) packet_op" where
  "pingresp_decode =
     andq (decode_fixed_header pingresp_impl) (\<lambda>x.
     if x \<noteq> Pingresp then throw PacketTypeMismatch
     else with_packet (\<lambda>p. if remain_len p \<noteq> 0 then throw PacketTypeMismatch else ret ()))"

section \<open>Frames and contracts\<close>

text \<open>A packet whose body is some fixed bytes and the property section.\<close>

definition sendable :: "packet_type \<Rightarrow> nat \<Rightarrow> bytes \<Rightarrow> 'a prop_packet_scheme \<Rightarrow> bool" where
  "sendable t cap bs p \<longleftrightarrow> section_plain (property_len p) (properties p) \<and> length (properties p) \<le> cap
     \<and> packet_type_from (fixed_header p) = t \<and> length bs + length (section_bytes (properties p)) \<le> 268435455"

definition received :: "bytes \<Rightarrow> 'a prop_packet_scheme \<Rightarrow> 'a prop_packet_scheme" where
  "received bs p = p\<lparr>remain_len := of_nat (length (bs @ section_bytes (properties p)))\<rparr>"

lemma sendable_facts:
  assumes "sendable t cap bs p"
  shows "section_wf (property_len p) (properties p)" "unat (property_len p) \<le> 268435455"
    "section_plain (property_len p) (properties p)" "length (properties p) \<le> cap"
    "packet_type_from (fixed_header p) = t"
    "length (bs @ section_bytes (properties p)) \<le> 268435455"
    "of_nat (length (section_bytes (properties p)))
       = of_nat (length (vbi_bytes (property_len p))) + property_len p"
proof -
  note a = assms [unfolded sendable_def]
  show sec: "section_wf (property_len p) (properties p)" using a by (simp add: section_plain_def)
  show "unat (property_len p) \<le> 268435455" by (rule section_wf_bound [OF sec]) (use a in simp)
  show "of_nat (length (section_bytes (properties p)))
       = of_nat (length (vbi_bytes (property_len p))) + property_len p"
    by (simp add: length_section [OF sec])
qed (use assms in \<open>auto simp: sendable_def\<close>)

lemmas section_emits = emits_thenq emits_write_u8 emits_write_u16 emits_write_u32 emits_section

lemma emits_frame_late:
  assumes "length body \<le> 268435455" "rm = of_nat (length body)" "unat n \<le> 268435455" "emits m body"
    and "\<And>l. l = of_nat (length (vbi_bytes n)) \<Longrightarrow> f l = thenq (write_variable_byte_int rm) m"
  shows "emits (thenq (write_u8 h) (with_property_len_len n f)) (packet_frame h body)"
proof -
  have "emits (thenq (write_variable_byte_int rm) m) (vbi_bytes rm @ body)"
    by (intro emits_thenq emits_write_variable_byte_int assms(4)) (use assms(1,2) in \<open>simp add: unat_of_nat_len\<close>)
  then have "emits (with_property_len_len n f) (vbi_bytes rm @ body)"
    by (intro emits_with_property_len_len assms(3)) (simp add: assms(5))
  from emits_thenq [OF emits_write_u8 this] show ?thesis
    by (simp add: packet_frame_def assms(2))
qed

definition connack_head :: "connack_packet \<Rightarrow> bytes" where
  "connack_head p = [ack_flags p, connect_reason_code p]"

definition disconnect_head :: "disconnect_packet \<Rightarrow> bytes" where
  "disconnect_head p = [disconnect_reason p]"

definition auth_head :: "auth_packet \<Rightarrow> bytes" where
  "auth_head p = [auth_reason p]"

lemma emits_connack:
  assumes "sendable t cap (connack_head p) p"
  shows "emits (connack_writes p) (packet_frame (fixed_header p) (connack_head p @ section_bytes (properties p)))"
proof -
  note f = sendable_facts [OF assms]
  have "emits (thenq (write_u8 (ack_flags p)) (thenq (write_u8 (connect_reason_code p))
      (thenq (write_variable_byte_int (property_len p)) (write_properties (properties p)))))
     ([ack_flags p] @ [connect_reason_code p] @ section_bytes (properties p))"
    by (intro section_emits f(1,2))
  then show ?thesis
    unfolding connack_writes_def
    by (intro emits_frame_late [OF f(6) refl f(2)]) (simp_all add: f(7) connack_head_def ac_simps)
qed

lemma emits_disconnect:
  assumes "sendable t cap (disconnect_head p) p"
  shows "emits (disconnect_writes p) (packet_frame (fixed_header p) (disconnect_head p @ section_bytes (properties p)))"
proof -
  note f = sendable_facts [OF assms]
  have "emits (thenq (write_u8 (disconnect_reason p))
      (thenq (write_variable_byte_int (property_len p)) (write_properties (properties p))))
     ([disconnect_reason p] @ section_bytes (properties p))"
    by (intro section_emits f(1,2))
  then show ?thesis
    unfolding disconnect_writes_def
    by (intro emits_frame_late [OF f(6) refl f(2)]) (simp_all add: f(7) disconnect_head_def ac_simps)
qed

lemma emits_auth:
  assumes "sendable t cap (auth_head p) p"
  shows "emits (auth_writes p) (packet_frame (fixed_header p) (auth_head p @ section_bytes (properties p)))"
proof -
  note f = sendable_facts [OF assms]
  have "emits (thenq (write_u8 (auth_reason p))
      (thenq (write_variable_byte_int (property_len p)) (write_properties (properties p))))
     ([auth_reason p] @ section_bytes (properties p))"
    by (intro section_emits f(1,2))
  then show ?thesis
    unfolding auth_writes_def Let_def
    by (intro emits_with_property_len_len emits_frame f) (simp_all add: f(7) auth_head_def ac_simps)
qed

lemma connack_decode_parses:
  assumes "sendable Connack cap (connack_head p) p"
  shows "op_parses (connack_decode cap) connack_new
    (packet_frame (fixed_header p) (connack_head p @ section_bytes (properties p))) (received (connack_head p) p) ()"
proof -
  note f = sendable_facts [OF assms]
  let ?b = "connack_head p @ section_bytes (properties p)"
  let ?q = "connack_new\<lparr>fixed_header := fixed_header p, remain_len := of_nat (length ?b),
     ack_flags := ack_flags p, connect_reason_code := connect_reason_code p\<rparr>"
  have r: "?q\<lparr>property_len := property_len p, properties := properties p\<rparr> = received (connack_head p) p"
    by (cases p) (simp add: received_def connack_new_def)
  have "op_parses (decode_properties (prop_packet_impl connack_property cap)) ?q (section_bytes (properties p))
      (received (connack_head p) p) ()"
    unfolding r [symmetric] by (rule prop_section_parses [OF f(3,2) _ f(4)]) (simp add: connack_new_def)
  then show ?thesis
    unfolding connack_decode_def connack_impl_def
    by (intro header_then_parses f(6))
      (simp add: f(5) connack_head_def op_parses_read_u8 op_parses_set)
qed

lemma disconnect_decode_parses:
  assumes "sendable Disconnect cap (disconnect_head p) p"
  shows "op_parses (disconnect_decode cap) disconnect_new
    (packet_frame (fixed_header p) (disconnect_head p @ section_bytes (properties p))) (received (disconnect_head p) p) ()"
proof -
  note f = sendable_facts [OF assms]
  let ?b = "disconnect_head p @ section_bytes (properties p)"
  let ?h = "disconnect_new\<lparr>fixed_header := fixed_header p, remain_len := of_nat (length ?b)\<rparr>"
  let ?q = "?h\<lparr>disconnect_reason := disconnect_reason p\<rparr>"
  have r: "?q\<lparr>property_len := property_len p, properties := properties p\<rparr> = received (disconnect_head p) p"
    by (cases p) (simp add: received_def disconnect_new_def)
  have "unat (of_nat (length ?b) :: u32) = length ?b" using f(6) by (rule unat_of_nat_len)
  then have nz: "remain_len ?h \<noteq> 0" by (auto simp: disconnect_head_def simp flip: unat_eq_zero)
  have "op_parses (decode_properties (prop_packet_impl disconnect_property cap)) ?q (section_bytes (properties p))
      (received (disconnect_head p) p) ()"
    unfolding r [symmetric] by (rule prop_section_parses [OF f(3,2) _ f(4)]) (simp add: disconnect_new_def)
  then have "op_parses (andq (on_reader read_u8) (\<lambda>c. thenq (modify_packet (\<lambda>p. p\<lparr>disconnect_reason := c\<rparr>))
      (decode_properties (prop_packet_impl disconnect_property cap)))) ?h ?b (received (disconnect_head p) p) ()"
    by (simp add: disconnect_head_def op_parses_read_u8 op_parses_set)
  with nz show ?thesis
    unfolding disconnect_decode_def disconnect_impl_def
    by (intro header_then_parses f(6)) (simp add: f(5) op_parses_with)
qed

lemma auth_decode_parses:
  assumes "sendable Auth cap (auth_head p) p"
  shows "op_parses (auth_decode cap) auth_new
    (packet_frame (fixed_header p) (auth_head p @ section_bytes (properties p))) (received (auth_head p) p) ()"
proof -
  note f = sendable_facts [OF assms]
  let ?b = "auth_head p @ section_bytes (properties p)"
  let ?q = "auth_new\<lparr>fixed_header := fixed_header p, remain_len := of_nat (length ?b), auth_reason := auth_reason p\<rparr>"
  have r: "?q\<lparr>property_len := property_len p, properties := properties p\<rparr> = received (auth_head p) p"
    by (cases p) (simp add: received_def auth_new_def)
  have "op_parses (decode_properties (prop_packet_impl auth_property cap)) ?q (section_bytes (properties p))
      (received (auth_head p) p) ()"
    unfolding r [symmetric] by (rule prop_section_parses [OF f(3,2) _ f(4)]) (simp add: auth_new_def)
  then show ?thesis
    unfolding auth_decode_def auth_impl_def
    by (intro header_then_parses f(6)) (simp add: auth_head_def op_parses_read_u8 op_parses_set)
qed

interpretation connack_codec: packet_codec connack_writes fixed_header
    "\<lambda>p. connack_head p @ section_bytes (properties p)" "\<lambda>p. sendable Connack cap (connack_head p) p"
    "connack_decode cap" connack_new "\<lambda>p. received (connack_head p) p" for cap
  by unfold_locales (rule sendable_facts emits_connack connack_decode_parses, assumption)+

interpretation disconnect_codec: packet_codec disconnect_writes fixed_header
    "\<lambda>p. disconnect_head p @ section_bytes (properties p)" "\<lambda>p. sendable Disconnect cap (disconnect_head p) p"
    "disconnect_decode cap" disconnect_new "\<lambda>p. received (disconnect_head p) p" for cap
  by unfold_locales (rule sendable_facts emits_disconnect disconnect_decode_parses, assumption)+

interpretation auth_codec: packet_codec auth_writes fixed_header
    "\<lambda>p. auth_head p @ section_bytes (properties p)" "\<lambda>p. sendable Auth cap (auth_head p) p"
    "auth_decode cap" auth_new "\<lambda>p. received (auth_head p) p" for cap
  by unfold_locales (rule sendable_facts emits_auth auth_decode_parses, assumption)+

interpretation pingreq_encoder: packet_encoder pingreq_writes fixed_header "\<lambda>_. []" "\<lambda>_. True"
proof unfold_locales
  fix p :: base_packet
  have "emits (pingreq_writes p) ([fixed_header p] @ vbi_bytes 0)"
    unfolding pingreq_writes_def by (intro emits_thenq emits_write_u8 emits_write_variable_byte_int) simp
  then show "emits (pingreq_writes p) (packet_frame (fixed_header p) [])" by (simp add: packet_frame_def)
qed simp

section \<open>Properties\<close>

text \<open>
  A CONNACK survives the wire: encoded into a buffer large enough and decoded from the
  bytes the encoder reports, the packet comes back with its remaining length filled in.
\<close>

theorem connack_roundtrip:
  assumes "sendable Connack cap (connack_head p) p" "n \<le> length buf"
    and "length (packet_frame (fixed_header p) (connack_head p @ section_bytes (properties p))) \<le> n"
  shows "\<exists>k buf'. connack_encode p buf n = (Ok k, buf') \<and>
     connack_decode cap (connack_new, reader_new buf' k)
       = (Ok (), (received (connack_head p) p, increment_position k (reader_new buf' k)))"
  unfolding connack_encode_def using assms by (rule connack_codec.decode_encoded)

theorem connack_roundtrip_witness:
  "\<exists>p k buf'. p = connack_new\<lparr>connect_reason_code := 0x8C, property_len := 3, properties := [ServerKeepAlive 60]\<rparr> \<and>
     connack_encode p (replicate 10 0) 10 = (Ok k, buf') \<and>
     connack_decode 1 (connack_new, reader_new buf' k)
       = (Ok (), (received (connack_head p) p, increment_position k (reader_new buf' k)))"
proof -
  let ?p = "connack_new\<lparr>connect_reason_code := 0x8C, property_len := 3, properties := [ServerKeepAlive 60]\<rparr>"
  have len: "length (connack_head ?p) + length (section_bytes (properties ?p)) = 6" by code_simp
  have wf: "section_wf (property_len ?p) (properties ?p)" by code_simp
  have frame: "length (packet_frame (fixed_header ?p) (connack_head ?p @ section_bytes (properties ?p))) \<le> 10"
    by code_simp
  have ty: "packet_type_from (fixed_header ?p) = Connack" by code_simp
  have ok: "sendable Connack 1 (connack_head ?p) ?p"
    using len wf ty by (simp add: sendable_def section_plain_def property_fits_def)
  have n: "(10 :: nat) \<le> length (replicate 10 (0 :: u8))" by simp
  from connack_roundtrip [OF ok n frame] show ?thesis by blast
qed

text \<open>
  A DISCONNECT from the broker: with remaining length 0 it is decoded as reason 0; the form
  with a reason code alone (remaining length 1), which MQTT allows, is refused with
  \<open>InsufficientBufferSize\<close>, so the reason the broker gave is lost.
\<close>

theorem disconnect_short_forms:
  "disconnect_decode cap (disconnect_new, reader_new [0xE0, 0] 2)
     = (Ok (), (disconnect_new\<lparr>remain_len := 0\<rparr>, increment_position 2 (reader_new [0xE0, 0] 2)))
   \<and> fst (disconnect_decode cap (disconnect_new, reader_new [0xE0, 1, c] 3)) = Err InsufficientBufferSize"
proof
  have v: "vbi_bytes 0 = [0]" "vbi_bytes 1 = [1]" by code_simp+
  note hd = prop_trait.decode_fixed_header_parses [where allowed = disconnect_property and cap = cap
      and p = disconnect_new and h = "0xE0"]
  show "disconnect_decode cap (disconnect_new, reader_new [0xE0, 0] 2)
     = (Ok (), (disconnect_new\<lparr>remain_len := 0\<rparr>, increment_position 2 (reader_new [0xE0, 0] 2)))"
    using op_parsesD [OF hd [where n = 0] rd_inv_new, of 2 "[0xE0, 0]" "[]"]
    by (simp add: v remaining_new disconnect_decode_def disconnect_impl_def packet_type_from_def
        andq_Ok [of "decode_fixed_header m" s for m s] disconnect_new_def)
  have u8: "read_u8 (increment_position 2 (reader_new [0xE0, 1, c] 3))
      = (Ok c, increment_position 3 (reader_new [0xE0, 1, c] 3))"
    by (simp add: read_u8_def reader_new_def index_def increment_position_def)
  have vbi: "read_variable_byte_int (increment_position 3 (reader_new [0xE0, 1, c] 3))
      = (Err InsufficientBufferSize, increment_position 3 (reader_new [0xE0, 1, c] 3))"
    by (simp add: read_variable_byte_int_def read_vbi_loop.simps reader_new_def)
  show "fst (disconnect_decode cap (disconnect_new, reader_new [0xE0, 1, c] 3)) = Err InsufficientBufferSize"
    using op_parsesD [OF hd [where n = 1] rd_inv_new, of 3 "[0xE0, 1, c]" "[c]"]
    by (simp add: v remaining_new disconnect_decode_def disconnect_impl_def packet_type_from_def
        andq_Ok [of "decode_fixed_header m" s for m s] on_reader_simps(1) [of read_u8, OF u8 [unfolded numeral_2_eq_2]]
        decode_properties_def on_reader_simps(2) [of read_variable_byte_int, OF vbi])
qed

text \<open>
  The two bytes of a PINGRESP: decoding succeeds exactly when the type is PINGRESP and the
  length 0; any other complete header is a type mismatch.
\<close>

theorem pingresp_accepts:
  "fst (pingresp_decode (p, reader_new [h, l] 2)) =
     (if l AND 128 \<noteq> 0 then Err InsufficientBufferSize
      else if packet_type_from h = Pingresp \<and> l = 0 then Ok () else Err PacketTypeMismatch)"
proof -
  let ?r = "reader_new [h, l] 2"
  have u8: "read_u8 ?r = (Ok h, increment_position 1 ?r)"
    by (simp add: read_u8_def reader_new_def index_def)
  have inv: "rd_inv (increment_position 1 ?r)"
    by (rule rd_inv_increment [OF rd_inv_new]) (simp_all add: remaining_new)
  have rem: "remaining (increment_position 1 ?r) = [l]" by (simp add: remaining_increment remaining_new)
  show ?thesis
  proof (cases "l AND 128 = 0")
    case True
    then have "vbi_word [l]" by simp
    from read_variable_byte_int_word [OF inv _ this, of "[]"] True
    have vbi: "read_variable_byte_int (increment_position 1 ?r) = (Ok (ucast l), increment_position 2 ?r)"
      using rem by (simp add: numeral_2_eq_2)
    have "(ucast l :: u32) = 0 \<longleftrightarrow> l = 0"
      by transfer (simp add: take_bit_eq_mod)
    with True show ?thesis
      by (simp add: pingresp_decode_def decode_fixed_header_def andq_assoc pingresp_impl_def ping_impl_def
          on_reader_simps(1) [of read_u8, OF u8] on_reader_simps(1) [of read_variable_byte_int, OF vbi]
          del: One_nat_def)
  next
    case False
    then have "fst (read_variable_byte_int (increment_position 1 ?r)) = Err InsufficientBufferSize"
      unfolding read_variable_byte_int_outcomes [OF inv] rem by simp
    then obtain r' where vbi: "read_variable_byte_int (increment_position 1 ?r) = (Err InsufficientBufferSize, r')"
      by (metis prod.collapse)
    from False show ?thesis
      by (simp add: pingresp_decode_def decode_fixed_header_def andq_assoc pingresp_impl_def ping_impl_def
          on_reader_simps(1) [of read_u8, OF u8] on_reader_simps(2) [of read_variable_byte_int, OF vbi]
          del: One_nat_def)
  qed
qed

end
