(* ===== verification/Mqtt_Connect.thy ===== *)
theory Mqtt_Connect
  imports Mqtt_Packet
begin

text \<open>
  The CONNECT packet (rust-mqtt/src/packet/v5/connect_packet.rs): constructors, the setters of
  the optional fields with their flag bits, and the encoder. The frame a well-formed packet is
  encoded to carries the will, the user name and the password exactly when the flags say so.
\<close>

record connect_packet = prop_packet +
  protocol_name_len :: u16
  protocol_name :: u32
  protocol_version :: u8
  connect_flags :: u8
  keep_alive :: u16
  client_id :: encoded_string
  will_property_len :: u32
  will_properties :: "property list"
  will_topic :: encoded_string
  will_payload :: binary_data
  username :: encoded_string
  password :: binary_data

definition connect_new :: connect_packet where
  "connect_new = \<lparr>fixed_header = packet_type_byte Connect, remain_len = 0, property_len = 0,
     properties = [], protocol_name_len = 4, protocol_name = 0x4d515454, protocol_version = 5,
     connect_flags = 0x02, keep_alive = 180, client_id = encoded_string_new,
     will_property_len = 0, will_properties = [], will_topic = encoded_string_new,
     will_payload = binary_data_new, username = encoded_string_new, password = binary_data_new\<rparr>"

text \<open>\<open>clean\<close> announces three bytes of properties and pushes one that takes them.\<close>

definition connect_clean :: "nat \<Rightarrow> connect_packet" where
  "connect_clean cap =
     (let x = \<lparr>fixed_header = packet_type_byte Connect, remain_len = 0, property_len = 3,
        properties = [], protocol_name_len = 4, protocol_name = 0x4d515454, protocol_version = 5,
        connect_flags = 0x02, keep_alive = 60, client_id = encoded_string_new,
        will_property_len = 0, will_properties = [], will_topic = encoded_string_new,
        will_payload = binary_data_new, username = encoded_string_new, password = binary_data_new\<rparr>
      in x\<lparr>properties := vec_push cap (properties x) (ReceiveMaximum 20),
           client_id := (client_id x)\<lparr>es_len := 0\<rparr>\<rparr>)"

definition add_packet_type :: "packet_type \<Rightarrow> connect_packet \<Rightarrow> connect_packet" where
  "add_packet_type t p = p\<lparr>fixed_header := (fixed_header p AND 0x0F) OR packet_type_byte t\<rparr>"

definition add_username :: "encoded_string \<Rightarrow> connect_packet \<Rightarrow> connect_packet" where
  "add_username u p = p\<lparr>username := u, connect_flags := connect_flags p OR 0x80\<rparr>"

definition add_password :: "binary_data \<Rightarrow> connect_packet \<Rightarrow> connect_packet" where
  "add_password b p = p\<lparr>password := b, connect_flags := connect_flags p OR 0x40\<rparr>"

definition add_will :: "encoded_string \<Rightarrow> binary_data \<Rightarrow> bool \<Rightarrow> connect_packet \<Rightarrow> connect_packet" where
  "add_will topic payload retain p =
     (let q = p\<lparr>will_topic := topic, will_payload := payload, connect_flags := connect_flags p OR 0x04\<rparr>
      in if retain then q\<lparr>connect_flags := connect_flags q OR 0x20\<rparr> else q)"

definition add_client_id :: "encoded_string \<Rightarrow> connect_packet \<Rightarrow> connect_packet" where
  "add_client_id i p = p\<lparr>client_id := i\<rparr>"

definition connect_impl :: "nat \<Rightarrow> connect_packet packet_impl" where
  "connect_impl cap = prop_packet_impl connect_property cap"

text \<open>The remaining length the encoder computes: the will's own property length may be too
  large to encode, which is an error like that of the packet's.\<close>

definition connect_rm_ln :: "connect_packet \<Rightarrow> u32 \<Rightarrow> (buffer_error, u32) outcome" where
  "connect_rm_ln p property_len_len =
     (let rm_ln = property_len p + property_len_len + 10 + ucast (es_len (client_id p)) + 2 in
      bind_outcome
        (if connect_flags p AND 0x04 \<noteq> 0
         then bind_outcome (vbi_encode (will_property_len p)) (\<lambda>wil_prop_len_enc.
              bind_outcome (vbi_len wil_prop_len_enc) (\<lambda>wil_prop_len_len.
              Ok (rm_ln + of_nat wil_prop_len_len + will_property_len p
                  + ucast (es_len (will_topic p)) + 2 + ucast (bd_len (will_payload p)) + 2)))
         else Ok rm_ln) (\<lambda>rm_ln.
      let rm_ln = (if connect_flags p AND 0x80 \<noteq> 0 then rm_ln + ucast (es_len (username p)) + 2 else rm_ln);
          rm_ln = (if connect_flags p AND 0x40 \<noteq> 0 then rm_ln + ucast (bd_len (password p)) + 2 else rm_ln)
      in Ok rm_ln))"

definition connect_writes :: "connect_packet \<Rightarrow> unit writes" where
  "connect_writes p =
     with_property_len_len (property_len p) (\<lambda>property_len_len.
     andq (lift_outcome (connect_rm_ln p property_len_len)) (\<lambda>rm_ln.
     thenq (write_u8 (fixed_header p))
     (thenq (write_variable_byte_int rm_ln)
     (thenq (write_u16 (protocol_name_len p))
     (thenq (write_u32 (protocol_name p))
     (thenq (write_u8 (protocol_version p))
     (thenq (write_u8 (connect_flags p))
     (thenq (write_u16 (keep_alive p))
     (thenq (thenq (write_variable_byte_int (property_len p)) (write_properties (properties p)))
     (thenq (write_string_ref (client_id p))
     (thenq (if connect_flags p AND 0x04 \<noteq> 0
             then thenq (thenq (write_variable_byte_int (will_property_len p)) (write_properties (will_properties p)))
                  (thenq (write_string_ref (will_topic p)) (write_binary_ref (will_payload p)))
             else ret ())
     (thenq (if connect_flags p AND 0x80 \<noteq> 0 then write_string_ref (username p) else ret ())
     (if connect_flags p AND 0x40 \<noteq> 0 then write_binary_ref (password p) else ret ())))))))))))))"

definition connect_encode :: "connect_packet \<Rightarrow> bytes \<Rightarrow> nat \<Rightarrow> (buffer_error, nat) outcome \<times> bytes" where
  "connect_encode p = encode_with (connect_writes p)"

definition connect_decode :: "(connect_packet, unit) packet_op" where
  "connect_decode = throw WrongPacketToDecode"

section \<open>The frame of a CONNECT\<close>

definition connect_body :: "connect_packet \<Rightarrow> bytes" where
  "connect_body p =
     u16_to_be (protocol_name_len p) @ u32_to_be (protocol_name p) @ [protocol_version p] @
     [connect_flags p] @ u16_to_be (keep_alive p) @ section_bytes (properties p) @
     string_bytes (client_id p) @
     (if connect_flags p AND 0x04 \<noteq> 0
      then section_bytes (will_properties p) @ string_bytes (will_topic p) @ binary_bytes (will_payload p)
      else []) @
     (if connect_flags p AND 0x80 \<noteq> 0 then string_bytes (username p) else []) @
     (if connect_flags p AND 0x40 \<noteq> 0 then binary_bytes (password p) else [])"

definition connect_wf :: "connect_packet \<Rightarrow> bool" where
  "connect_wf p \<longleftrightarrow> section_wf (property_len p) (properties p) \<and> string_wf (client_id p)
     \<and> (if connect_flags p AND 0x04 \<noteq> 0
        then section_wf (will_property_len p) (will_properties p) \<and> string_wf (will_topic p) \<and> binary_wf (will_payload p)
        else True)
     \<and> (if connect_flags p AND 0x80 \<noteq> 0 then string_wf (username p) else True)
     \<and> (if connect_flags p AND 0x40 \<noteq> 0 then binary_wf (password p) else True)
     \<and> length (connect_body p) \<le> 268435455"

lemma string_bytes_count: "string_wf s \<Longrightarrow> (of_nat (length (string_bytes s)) :: u32) = ucast (es_len s) + 2"
  by (simp add: length_string_bytes)

lemma binary_bytes_count: "binary_wf b \<Longrightarrow> (of_nat (length (binary_bytes b)) :: u32) = ucast (bd_len b) + 2"
  by (simp add: length_binary_bytes)

text \<open>The three optional parts of the body and what the encoder counts for them.\<close>

definition will_bytes :: "connect_packet \<Rightarrow> bytes" where
  "will_bytes p = (if connect_flags p AND 0x04 \<noteq> 0
      then section_bytes (will_properties p) @ string_bytes (will_topic p) @ binary_bytes (will_payload p)
      else [])"

lemma connect_rm_ln_counts:
  assumes wf: "connect_wf p" and n: "unat (property_len p) \<le> 268435455"
    and wn: "connect_flags p AND 0x04 \<noteq> 0 \<Longrightarrow> unat (will_property_len p) \<le> 268435455"
  shows "connect_rm_ln p (of_nat (length (vbi_bytes (property_len p)))) = Ok (of_nat (length (connect_body p)))"
proof -
  note a = wf [unfolded connect_wf_def]
  let ?u = "if connect_flags p AND 0x80 \<noteq> 0 then string_bytes (username p) else []"
  let ?w = "if connect_flags p AND 0x40 \<noteq> 0 then binary_bytes (password p) else []"
  let ?r = "property_len p + of_nat (length (vbi_bytes (property_len p))) + 10 + ucast (es_len (client_id p)) + 2"
  have will: "(if connect_flags p AND 0x04 \<noteq> 0
      then bind_outcome (vbi_encode (will_property_len p)) (\<lambda>wil_prop_len_enc.
           bind_outcome (vbi_len wil_prop_len_enc) (\<lambda>wil_prop_len_len.
           Ok (?r + of_nat wil_prop_len_len + will_property_len p
               + ucast (es_len (will_topic p)) + 2 + ucast (bd_len (will_payload p)) + 2)))
      else Ok ?r) = Ok (?r + of_nat (length (will_bytes p)))"
  proof (cases "connect_flags p AND 0x04 = 0")
    case True
    then show ?thesis by (simp add: will_bytes_def)
  next
    case False
    with a have "section_wf (will_property_len p) (will_properties p)" "string_wf (will_topic p)"
      "binary_wf (will_payload p)" by auto
    with False wn show ?thesis
      by (simp add: will_bytes_def vbi_encode_Ok vbi_len_bytes length_section string_bytes_count
          binary_bytes_count algebra_simps)
  qed
  have u: "(if connect_flags p AND 0x80 \<noteq> 0 then r + ucast (es_len (username p)) + 2 else r)
      = r + of_nat (length ?u)" for r :: u32
    using a by (auto simp: string_bytes_count)
  have w: "(if connect_flags p AND 0x40 \<noteq> 0 then r + ucast (bd_len (password p)) + 2 else r)
      = r + of_nat (length ?w)" for r :: u32
    using a by (auto simp: binary_bytes_count)
  have "section_wf (property_len p) (properties p)" "string_wf (client_id p)" using a by auto
  then have b: "of_nat (length (connect_body p))
      = ?r + of_nat (length (will_bytes p)) + of_nat (length ?u) + of_nat (length ?w)"
    unfolding connect_body_def will_bytes_def [symmetric]
    by (simp add: length_section string_bytes_count algebra_simps)
  show ?thesis
    unfolding connect_rm_ln_def Let_def will bind_outcome.simps u w b ..
qed

lemma emits_connect_writes:
  assumes "connect_wf p"
  shows "emits (connect_writes p) (packet_frame (fixed_header p) (connect_body p))"
proof -
  note a = assms [unfolded connect_wf_def]
  have len: "length (connect_body p) \<le> 268435455" and sec: "section_wf (property_len p) (properties p)"
    using a by auto
  then have n: "unat (property_len p) \<le> 268435455"
    by (intro section_wf_bound [OF sec]) (simp add: connect_body_def)
  have wsec: "section_wf (will_property_len p) (will_properties p)" if "connect_flags p AND 0x04 \<noteq> 0"
    using that a by simp
  have will: "unat (will_property_len p) \<le> 268435455" if f: "connect_flags p AND 0x04 \<noteq> 0"
    by (rule section_wf_bound [OF wsec [OF f]]) (use f len in \<open>simp add: connect_body_def\<close>)
  have rm: "connect_rm_ln p (of_nat (length (vbi_bytes (property_len p)))) = Ok (of_nat (length (connect_body p)))"
    by (rule connect_rm_ln_counts [OF assms n]) (rule will)
  have will_part: "emits (if connect_flags p AND 0x04 \<noteq> 0
        then thenq (thenq (write_variable_byte_int (will_property_len p)) (write_properties (will_properties p)))
                  (thenq (write_string_ref (will_topic p)) (write_binary_ref (will_payload p)))
        else ret ())
      (if connect_flags p AND 0x04 \<noteq> 0
       then section_bytes (will_properties p) @ string_bytes (will_topic p) @ binary_bytes (will_payload p) else [])"
    using a will wsec by (simp add: emits_section emits_thenq emits_write_string_ref emits_write_binary_ref emits_ret)
  have user_part: "emits (if connect_flags p AND 0x80 \<noteq> 0 then write_string_ref (username p) else ret ())
      (if connect_flags p AND 0x80 \<noteq> 0 then string_bytes (username p) else [])"
    using a by (simp add: emits_write_string_ref emits_ret)
  have pass_part: "emits (if connect_flags p AND 0x40 \<noteq> 0 then write_binary_ref (password p) else ret ())
      (if connect_flags p AND 0x40 \<noteq> 0 then binary_bytes (password p) else [])"
    using a by (simp add: emits_write_binary_ref emits_ret)
  have "string_wf (client_id p)" using a by simp
  note parts = emits_write_u8 emits_write_u16 emits_write_u32 emits_section [OF sec n]
    emits_write_string_ref [OF this] will_part user_part pass_part
  show ?thesis
    unfolding connect_writes_def
    by (rule emits_with_property_len_len [OF n], rule emits_andq_lift [OF rm],
        rule emits_frame [OF len refl], unfold connect_body_def)
      (intro emits_thenq parts)
qed

interpretation connect_encoder: packet_encoder connect_writes fixed_header connect_body connect_wf
  by unfold_locales (simp_all add: emits_connect_writes connect_wf_def)

lemma connect_clean_wf: "1 \<le> cap \<Longrightarrow> connect_wf (connect_clean cap)"
proof -
  assume "1 \<le> cap"
  then have c: "connect_clean cap = connect_clean 1"
    by (simp add: connect_clean_def vec_push_def Let_def)
  have l: "length (connect_body (connect_clean 1)) = 16" by code_simp
  have "section_wf (property_len (connect_clean 1)) (properties (connect_clean 1))" by code_simp
  moreover have "string_wf (client_id (connect_clean 1))" by code_simp
  moreover have "connect_flags (connect_clean 1) = 2" by code_simp
  ultimately show ?thesis unfolding c connect_wf_def using l by simp
qed

section \<open>Properties\<close>

text \<open>
  C26. A CONNECT is encoded to exactly its frame: the header, a remaining length that is the
  number of bytes that follow it, the variable header, the property section, the client
  identifier, and then the will, the user name and the password, each if and only if its flag is
  set. The encoder reports the length of the frame and touches nothing behind it. A buffer too
  short for the frame is the error \<open>InsufficientBufferSize\<close>, never a panic.
\<close>

theorem connect_encode_exact:
  assumes "connect_wf p" "n \<le> length buf"
  shows "if length (packet_frame (fixed_header p) (connect_body p)) \<le> n
     then connect_encode p buf n = (Ok (length (packet_frame (fixed_header p) (connect_body p))),
            packet_frame (fixed_header p) (connect_body p)
              @ drop (length (packet_frame (fixed_header p) (connect_body p))) buf)
     else fst (connect_encode p buf n) = Err InsufficientBufferSize"
  unfolding connect_encode_def
  using connect_encoder.encode_frame [OF assms] connect_encoder.encode_short [OF assms]
  by auto

theorem connect_encode_exact_witness:
  "connect_encode (connect_clean 1) (replicate 20 9) 20
     = (Ok 18, [0x10, 16, 0, 4, 0x4d, 0x51, 0x54, 0x54, 5, 2, 0, 60, 3, 0x21, 0, 20, 0, 0, 9, 9])"
proof -
  have f: "packet_frame (fixed_header (connect_clean 1)) (connect_body (connect_clean 1))
      = [0x10, 16, 0, 4, 0x4d, 0x51, 0x54, 0x54, 5, 2, 0, 60, 3, 0x21, 0, 20, 0, 0]" by code_simp
  have d: "drop 18 (replicate 20 (9 :: u8)) = [9, 9]" by code_simp
  show ?thesis
    using connect_encode_exact [OF connect_clean_wf [OF order_refl], of 20 "replicate 20 9"]
    unfolding f by (simp add: d numeral_2_eq_2 del: One_nat_def)
qed

text \<open>
  \<open>add_properties\<close> takes the properties the packet admits, in order, as long as there is room,
  and silently drops the rest; the length it returns for the packet's property section counts
  the dropped ones as well.
\<close>

theorem add_properties_counts_dropped:
  assumes "\<forall>x \<in> set ps. property_fits x" "length (properties p) \<le> cap"
  shows "add_properties (connect_impl cap) ps 0 p =
     (Ok (of_nat (length (properties_bytes (filter connect_property ps)))),
      p\<lparr>properties := properties p @ take (cap - length (properties p)) (filter connect_property ps)\<rparr>)"
proof -
  have "\<forall>x \<in> set ps. property_allowed (prop_packet_impl connect_property cap) x \<longrightarrow> property_wf x"
    using assms(1) by (auto simp: property_fits_def)
  from prop_trait.add_properties_result [OF this, of 0 p] show ?thesis
    using assms by (simp add: connect_impl_def counted_exact push_all_prop_take)
qed

theorem add_properties_counts_dropped_witness:
  "add_properties (connect_impl 1) [ReceiveMaximum 20, TopicAlias 1, MaximumPacketSize 80] 0 connect_new
     = (Ok 8, connect_new\<lparr>properties := [ReceiveMaximum 20]\<rparr>)"
proof -
  have "\<forall>x \<in> set [ReceiveMaximum 20, TopicAlias 1, MaximumPacketSize 80]. property_fits x"
    by (simp add: property_fits_def)
  moreover have "length (properties connect_new) \<le> 1" by (simp add: connect_new_def)
  ultimately have "add_properties (connect_impl 1) [ReceiveMaximum 20, TopicAlias 1, MaximumPacketSize 80] 0 connect_new =
     (Ok (of_nat (length (properties_bytes (filter connect_property [ReceiveMaximum 20, TopicAlias 1, MaximumPacketSize 80])))),
      connect_new\<lparr>properties := properties connect_new @ take (1 - length (properties connect_new))
        (filter connect_property [ReceiveMaximum 20, TopicAlias 1, MaximumPacketSize 80])\<rparr>)"
    by (rule add_properties_counts_dropped)
  then show ?thesis
    by (simp add: connect_property_def connect_new_def property_bytes_def)
qed

end
