(* ===== verification/Mqtt_Publish.thy ===== *)
theory Mqtt_Publish
  imports Mqtt_Packet
begin

text \<open>
  The PUBLISH packet (rust-mqtt/src/packet/v5/publish_packet.rs): constructor, setters, encoder
  and decoder. The decoder takes as message what lies between the cursor and the end of the packet,
  which it computes from the remaining length; the cursor stays in front of the message.
\<close>

record publish_packet = prop_packet +
  topic_name :: encoded_string
  pub_identifier :: u16
  message :: "bytes option"

definition publish_new :: publish_packet where
  "publish_new = \<lparr>fixed_header = packet_type_byte Publish, remain_len = 0, property_len = 0,
     properties = [], topic_name = encoded_string_new, pub_identifier = 1, message = None\<rparr>"

definition add_topic_name :: "bytes \<Rightarrow> publish_packet \<Rightarrow> publish_packet" where
  "add_topic_name name p = p\<lparr>topic_name := \<lparr>es_string = name, es_len = of_nat (length name)\<rparr>\<rparr>"

definition add_message :: "bytes \<Rightarrow> publish_packet \<Rightarrow> publish_packet" where
  "add_message m p = p\<lparr>message := Some m\<rparr>"

definition add_qos :: "quality_of_service \<Rightarrow> publish_packet \<Rightarrow> publish_packet" where
  "add_qos qos p = p\<lparr>fixed_header := fixed_header p OR qos_byte qos\<rparr>"

definition add_retain :: "bool \<Rightarrow> publish_packet \<Rightarrow> publish_packet" where
  "add_retain retain p = p\<lparr>fixed_header := fixed_header p OR (if retain then 1 else 0)\<rparr>"

definition add_identifier :: "u16 \<Rightarrow> publish_packet \<Rightarrow> publish_packet" where
  "add_identifier i p = p\<lparr>pub_identifier := i\<rparr>"

definition publish_impl :: "nat \<Rightarrow> publish_packet packet_impl" where
  "publish_impl cap = prop_packet_impl publish_property cap"

definition publish_writes :: "publish_packet \<Rightarrow> unit writes" where
  "publish_writes p =
     with_property_len_len (property_len p) (\<lambda>property_len_len.
     andq (lift_outcome (unwrap_option (message p))) (\<lambda>msg.
     let msg_len = of_nat (length msg) :: u32;
         rm_ln = property_len p + property_len_len + msg_len + ucast (es_len (topic_name p)) + 2;
         qos = fixed_header p AND 0x06;
         rm_ln' = (if qos \<noteq> 0 then rm_ln + 2 else rm_ln)
     in
     thenq (write_u8 (fixed_header p))
     (thenq (write_variable_byte_int rm_ln')
     (thenq (write_string_ref (topic_name p))
     (thenq (if qos \<noteq> 0 then write_u16 (pub_identifier p) else ret ())
     (thenq (thenq (write_variable_byte_int (property_len p)) (write_properties (properties p)))
     (insert_ref (unat msg_len) msg)))))))"

definition publish_encode :: "publish_packet \<Rightarrow> bytes \<Rightarrow> nat \<Rightarrow> (buffer_error, nat) outcome \<times> bytes" where
  "publish_encode p = encode_with (publish_writes p)"

definition publish_decode :: "nat \<Rightarrow> (publish_packet, unit) packet_op" where
  "publish_decode cap =
     andq (decode_fixed_header (publish_impl cap)) (\<lambda>t.
     if t \<noteq> Publish then throw PacketTypeMismatch
     else
       andq (on_reader read_string) (\<lambda>s.
       thenq (modify_packet (\<lambda>p. p\<lparr>topic_name := s\<rparr>))
       (thenq (with_packet (\<lambda>p.
          if fixed_header p AND 0x06 \<noteq> 0
          then andq (on_reader read_u16) (\<lambda>i. modify_packet (\<lambda>p. p\<lparr>pub_identifier := i\<rparr>))
          else ret ()))
       (thenq (decode_properties (publish_impl cap))
       (with_packet (\<lambda>p.
          andq (lift_outcome (vbi_encode (remain_len p))) (\<lambda>enc.
          andq (lift_outcome (vbi_len enc)) (\<lambda>n.
          let total_len = n + 1 + unat (remain_len p) in
          andq (on_reader (read_message total_len)) (\<lambda>m.
          modify_packet (\<lambda>p. p\<lparr>message := Some m\<rparr>))))))))))"

section \<open>The frame of a PUBLISH\<close>

definition identifier_bytes :: "publish_packet \<Rightarrow> bytes" where
  "identifier_bytes p = (if fixed_header p AND 0x06 \<noteq> 0 then u16_to_be (pub_identifier p) else [])"

definition publish_head :: "publish_packet \<Rightarrow> bytes" where
  "publish_head p = string_bytes (topic_name p) @ identifier_bytes p @ section_bytes (properties p)"

definition publish_body :: "bytes \<Rightarrow> publish_packet \<Rightarrow> bytes" where
  "publish_body msg p = publish_head p @ msg"

definition publish_wf :: "bytes \<Rightarrow> publish_packet \<Rightarrow> bool" where
  "publish_wf msg p \<longleftrightarrow> message p = Some msg \<and> section_wf (property_len p) (properties p)
     \<and> string_wf (topic_name p) \<and> length (publish_body msg p) \<le> 268435455"

definition publish_sendable :: "nat \<Rightarrow> bytes \<Rightarrow> publish_packet \<Rightarrow> bool" where
  "publish_sendable cap msg p \<longleftrightarrow> publish_wf msg p \<and> section_plain (property_len p) (properties p)
     \<and> length (properties p) \<le> cap \<and> packet_type_from (fixed_header p) = Publish"

text \<open>What the receiver has: without quality of service the identifier stays that of a new packet.\<close>

definition publish_received :: "bytes \<Rightarrow> publish_packet \<Rightarrow> publish_packet" where
  "publish_received msg p = p\<lparr>remain_len := of_nat (length (publish_body msg p)),
     pub_identifier := (if fixed_header p AND 0x06 \<noteq> 0 then pub_identifier p else 1)\<rparr>"

lemma publish_wf_facts:
  assumes "publish_wf msg p"
  shows "message p = Some msg" "section_wf (property_len p) (properties p)" "string_wf (topic_name p)"
    "length (publish_body msg p) \<le> 268435455" "unat (property_len p) \<le> 268435455"
    "length msg \<le> 268435455" "unat (of_nat (length msg) :: u32) = length msg"
proof -
  show sec: "section_wf (property_len p) (properties p)" and "message p = Some msg" "string_wf (topic_name p)"
    and len: "length (publish_body msg p) \<le> 268435455" using assms by (auto simp: publish_wf_def)
  show "unat (property_len p) \<le> 268435455"
    by (rule section_wf_bound [OF sec]) (use len in \<open>simp add: publish_body_def publish_head_def\<close>)
  show "length msg \<le> 268435455" using len by (simp add: publish_body_def)
  then show "unat (of_nat (length msg) :: u32) = length msg" by (rule unat_of_nat_len)
qed

lemma emits_publish_writes:
  assumes "publish_wf msg p"
  shows "emits (publish_writes p) (packet_frame (fixed_header p) (publish_body msg p))"
proof -
  note f = publish_wf_facts [OF assms]
  have msg: "unwrap_option (message p) = Ok msg" using f(1) by simp
  have id: "emits (if fixed_header p AND 0x06 \<noteq> 0 then write_u16 (pub_identifier p) else ret ()) (identifier_bytes p)"
    by (simp add: identifier_bytes_def emits_write_u16 emits_ret)
  have ins: "emits (insert_ref (unat (of_nat (length msg) :: u32)) msg) msg"
    using emits_insert_ref [of "length msg" msg] f(7) by simp
  have strlen: "(of_nat (length (string_bytes (topic_name p))) :: u32) = ucast (es_len (topic_name p)) + 2"
    by (simp add: length_string_bytes [OF f(3)])
  have rm: "(if fixed_header p AND 0x06 \<noteq> 0
      then property_len p + of_nat (length (vbi_bytes (property_len p))) + of_nat (length msg) + ucast (es_len (topic_name p)) + 2 + 2
      else property_len p + of_nat (length (vbi_bytes (property_len p))) + of_nat (length msg) + ucast (es_len (topic_name p)) + 2)
    = of_nat (length (publish_body msg p))"
    by (simp add: publish_body_def publish_head_def identifier_bytes_def strlen length_section [OF f(2)])
  show ?thesis
    unfolding publish_writes_def Let_def
    by (rule emits_with_property_len_len [OF f(5)], rule emits_andq_lift [OF msg],
        rule emits_frame [OF f(4) rm], unfold publish_body_def publish_head_def append_assoc)
      (intro emits_thenq emits_write_string_ref f(2,3,5) id ins emits_section)
qed

interpretation publish_encoder: packet_encoder publish_writes fixed_header "publish_body msg" "publish_wf msg"
  for msg
  by unfold_locales (simp_all add: emits_publish_writes publish_wf_def)

text \<open>The part of the decoder that runs before the message is cut out.\<close>

lemma publish_head_parses:
  assumes s: "publish_sendable cap msg p"
  defines "n \<equiv> of_nat (length (publish_body msg p)) :: u32"
  shows "op_parses (andq (on_reader read_string) (\<lambda>s.
       thenq (modify_packet (\<lambda>p. p\<lparr>topic_name := s\<rparr>))
       (thenq (with_packet (\<lambda>p. if fixed_header p AND 0x06 \<noteq> 0
          then andq (on_reader read_u16) (\<lambda>i. modify_packet (\<lambda>p. p\<lparr>pub_identifier := i\<rparr>)) else ret ()))
       (decode_properties (prop_packet_impl publish_property cap)))))
     (publish_new\<lparr>fixed_header := fixed_header p, remain_len := n\<rparr>) (publish_head p)
     (publish_received msg p\<lparr>message := None\<rparr>) ()"
proof -
  have wf: "publish_wf msg p" and plain: "section_plain (property_len p) (properties p)"
    and cap: "length (properties p) \<le> cap" using s by (auto simp: publish_sendable_def)
  note f = publish_wf_facts [OF wf]
  let ?h = "publish_new\<lparr>fixed_header := fixed_header p, remain_len := n, topic_name := topic_name p\<rparr>"
  let ?q = "?h\<lparr>pub_identifier := (if fixed_header p AND 0x06 \<noteq> 0 then pub_identifier p else 1)\<rparr>"
  have "op_parses (andq (on_reader read_u16) (\<lambda>i. modify_packet (\<lambda>p. p\<lparr>pub_identifier := i\<rparr>))) ?h
      (u16_to_be (pub_identifier p) @ []) (?h\<lparr>pub_identifier := pub_identifier p\<rparr>) ()"
    by (rule op_parses_read [OF parses_read_u16 op_parses_modify])
  then have id: "op_parses (with_packet (\<lambda>p. if fixed_header p AND 0x06 \<noteq> 0
      then andq (on_reader read_u16) (\<lambda>i. modify_packet (\<lambda>p. p\<lparr>pub_identifier := i\<rparr>)) else ret ()))
      ?h (identifier_bytes p) ?q ()"
    using op_parses_ret [of "()" ?h]
    by (intro op_parses_with) (simp add: identifier_bytes_def publish_new_def)
  have r: "?q\<lparr>property_len := property_len p, properties := properties p\<rparr> = publish_received msg p\<lparr>message := None\<rparr>"
    by (cases p) (simp add: publish_received_def publish_new_def n_def)
  have "op_parses (decode_properties (prop_packet_impl publish_property cap)) ?q (section_bytes (properties p))
      (publish_received msg p\<lparr>message := None\<rparr>) ()"
    unfolding r [symmetric] by (rule prop_section_parses [OF plain f(5) _ cap]) (simp add: publish_new_def)
  from op_parses_andq [OF id this]
  show ?thesis
    unfolding publish_head_def
    by (intro op_parses_read [OF parses_read_string [OF f(3)]] op_parses_set) simp
qed

text \<open>The last part: the message is what lies between the cursor and the end of the packet.\<close>

lemma read_message_slice:
  "rd_inv r \<Longrightarrow> rd_position r \<le> t \<Longrightarrow> t \<le> rd_len r \<Longrightarrow>
   read_message t r = (Ok (take (t - rd_position r) (remaining r)), r)"
  using slice_remaining [of r "t - rd_position r"] by (simp add: read_message_def)

lemma publish_decode_split:
  "publish_decode cap = andq (decode_fixed_header (prop_packet_impl publish_property cap)) (\<lambda>t.
     if t \<noteq> Publish then throw PacketTypeMismatch
     else thenq (andq (on_reader read_string) (\<lambda>s.
       thenq (modify_packet (\<lambda>p. p\<lparr>topic_name := s\<rparr>))
       (thenq (with_packet (\<lambda>p. if fixed_header p AND 0x06 \<noteq> 0
          then andq (on_reader read_u16) (\<lambda>i. modify_packet (\<lambda>p. p\<lparr>pub_identifier := i\<rparr>)) else ret ()))
       (decode_properties (prop_packet_impl publish_property cap)))))
       (with_packet (\<lambda>p.
          andq (lift_outcome (vbi_encode (remain_len p))) (\<lambda>enc.
          andq (lift_outcome (vbi_len enc)) (\<lambda>n.
          let total_len = n + 1 + unat (remain_len p) in
          andq (on_reader (read_message total_len)) (\<lambda>m.
          modify_packet (\<lambda>p. p\<lparr>message := Some m\<rparr>)))))))"
  unfolding publish_decode_def publish_impl_def andq_assoc ..

lemma publish_decode_frame:
  assumes s: "publish_sendable cap msg p" and n: "n \<le> length buf"
    and frame: "take n buf = packet_frame (fixed_header p) (publish_body msg p) @ rest"
  shows "publish_decode cap (publish_new, reader_new buf n) =
    (Ok (), (publish_received msg p,
      increment_position (length (packet_frame (fixed_header p) (publish_head p @ msg)) - length msg) (reader_new buf n)))"
proof -
  have wf: "publish_wf msg p" and ty: "packet_type_from (fixed_header p) = Publish"
    using s by (auto simp: publish_sendable_def)
  note f = publish_wf_facts [OF wf]
  let ?b = "publish_body msg p" and ?r = "reader_new buf n"
  let ?n = "of_nat (length ?b) :: u32"
  have un: "unat ?n = length ?b" by (rule unat_of_nat_len [OF f(4)])
  then have n28: "unat ?n \<le> 268435455" using f(4) by simp
  let ?k = "1 + length (vbi_bytes ?n) + length (publish_head p)"
  have inv: "rd_inv ?r" by (rule rd_inv_new [OF n])
  have rem: "remaining ?r = (fixed_header p # vbi_bytes ?n) @ publish_head p @ msg @ rest"
    by (simp add: remaining_new frame packet_frame_def publish_body_def)
  have hd: "decode_fixed_header (prop_packet_impl publish_property cap) (publish_new, ?r)
      = (Ok Publish, (publish_new\<lparr>fixed_header := fixed_header p, remain_len := ?n\<rparr>,
          increment_position (length (fixed_header p # vbi_bytes ?n)) ?r))"
    using op_parsesD [OF prop_trait.decode_fixed_header_parses [OF n28] inv rem] ty by simp
  have k: "?k \<le> length (remaining ?r)" unfolding rem by simp
  have rem1: "remaining (increment_position (length (fixed_header p # vbi_bytes ?n)) ?r) = publish_head p @ msg @ rest"
    unfolding remaining_increment rem by simp
  have inv1: "rd_inv (increment_position (length (fixed_header p # vbi_bytes ?n)) ?r)"
    by (rule rd_inv_increment [OF inv]) (simp add: rem)
  note hp = op_parsesD [OF publish_head_parses [OF s] inv1 rem1]
  have invk: "rd_inv (increment_position ?k ?r)" by (rule rd_inv_increment [OF inv k])
  have remk: "remaining (increment_position ?k ?r) = msg @ rest"
    by (simp add: remaining_increment rem)
  have lb: "length ?b = length (publish_head p) + length msg" by (simp add: publish_body_def)
  have pos: "rd_position (increment_position ?k ?r) = ?k" by (simp add: reader_new_def)
  have rl: "length (vbi_bytes ?n) + 1 + length ?b \<le> rd_len (increment_position ?k ?r)"
    using length_remaining [OF inv, unfolded rem] by (simp add: reader_new_def lb)
  have msg: "read_message (length (vbi_bytes ?n) + 1 + unat ?n) (increment_position ?k ?r)
      = (Ok msg, increment_position ?k ?r)"
  proof -
    have le: "?k \<le> length (vbi_bytes ?n) + 1 + length ?b" and
      m: "length (vbi_bytes ?n) + 1 + length ?b - ?k = length msg" using lb by simp_all
    have "read_message (length (vbi_bytes ?n) + 1 + length ?b) (increment_position ?k ?r)
       = (Ok (take (length msg) (msg @ rest)), increment_position ?k ?r)"
      using read_message_slice [OF invk _ rl] le unfolding pos remk m by blast
    then show ?thesis unfolding un by (simp del: increment_position_simps)
  qed
  have fin: "publish_received msg p\<lparr>message := None\<rparr>\<lparr>message := Some msg\<rparr> = publish_received msg p"
    using f(1) by (cases p) (simp add: publish_received_def)
  have idx: "length (packet_frame (fixed_header p) (publish_head p @ msg)) - length msg = ?k"
    by (simp add: packet_frame_def publish_body_def)
  have rl': "remain_len (publish_received msg p\<lparr>message := None\<rparr>) = ?n" by (simp add: publish_received_def)
  have kk: "increment_position (length (publish_head p)) (increment_position (length (fixed_header p # vbi_bytes ?n)) ?r)
     = increment_position ?k ?r" by simp
  show ?thesis
    unfolding publish_decode_split idx
    by (subst andq_Ok, rule hd, simp only: not_True_eq_False if_False simp_thms,
        subst andq_Ok, rule hp [unfolded kk],
        simp only: with_packet_simp rl' lift_vbi_encode [OF n28] lift_vbi_len [OF n28] Let_def on_reader_simps(1) [of "read_message _", OF msg]
          modify_packet_apply fin)
qed

section \<open>Properties\<close>

text \<open>
  C27. A PUBLISH is encoded to exactly its frame: the remaining length counts topic, identifier
  (with a quality of service above 0), properties and message, and the message stands at the end
  as it was given. Too short a buffer is \<open>InsufficientBufferSize\<close>.
\<close>

theorem publish_encode_exact:
  assumes "publish_wf msg p" "n \<le> length buf"
  shows "if length (packet_frame (fixed_header p) (publish_body msg p)) \<le> n
     then publish_encode p buf n = (Ok (length (packet_frame (fixed_header p) (publish_body msg p))),
            packet_frame (fixed_header p) (publish_body msg p)
              @ drop (length (packet_frame (fixed_header p) (publish_body msg p))) buf)
     else fst (publish_encode p buf n) = Err InsufficientBufferSize"
  unfolding publish_encode_def
  using publish_encoder.encode_frame [OF assms] publish_encoder.encode_short [OF assms]
  by auto

definition sample_publish :: publish_packet where
  "sample_publish = add_message [1, 2, 3] (add_identifier 7 (add_qos QoS1 (add_topic_name (lit ''a/b'') publish_new)))"

lemma sample_publish_sendable: "publish_sendable 0 [1, 2, 3] sample_publish"
proof -
  have "message sample_publish = Some [1, 2, 3]" "section_wf (property_len sample_publish) (properties sample_publish)"
    "string_wf (topic_name sample_publish)" "length (publish_body [1, 2, 3] sample_publish) = 11"
    "properties sample_publish = []" "packet_type_from (fixed_header sample_publish) = Publish"
    by code_simp+
  then show ?thesis by (simp add: publish_sendable_def publish_wf_def section_plain_def)
qed

theorem publish_encode_exact_witness:
  "publish_encode sample_publish (replicate 14 0) 13
     = (Ok 13, [0x32, 11, 0, 3, 97, 47, 98, 0, 7, 0, 1, 2, 3, 0])"
proof -
  have f: "packet_frame (fixed_header sample_publish) (publish_body [1, 2, 3] sample_publish)
      = [0x32, 11, 0, 3, 97, 47, 98, 0, 7, 0, 1, 2, 3]" by code_simp
  have d: "drop 13 (replicate 14 (0 :: u8)) = [0]" by code_simp
  have wf: "publish_wf [1, 2, 3] sample_publish"
    using sample_publish_sendable by (simp add: publish_sendable_def)
  show ?thesis
    using publish_encode_exact [OF wf, of 13 "replicate 14 0"] unfolding f by (simp add: d)
qed

text \<open>
  C11. A PUBLISH survives the wire, whatever bytes follow it in the receive buffer: decoding gives
  topic, properties and the very message back, the identifier too unless the quality of
  service is 0, and the remaining length filled in.
\<close>

theorem publish_roundtrip:
  assumes "publish_sendable cap msg p" "n \<le> length buf"
    and "length (packet_frame (fixed_header p) (publish_body msg p)) \<le> n"
  shows "\<exists>k buf'. publish_encode p buf n = (Ok k, buf') \<and>
     (\<forall>m. k \<le> m \<and> m \<le> length buf' \<longrightarrow>
       (\<exists>r. publish_decode cap (publish_new, reader_new buf' m) = (Ok (), (publish_received msg p, r))))"
proof -
  let ?f = "packet_frame (fixed_header p) (publish_body msg p)"
  let ?b = "?f @ drop (length ?f) buf"
  have wf: "publish_wf msg p" using assms(1) by (simp add: publish_sendable_def)
  have dec: "publish_decode cap (publish_new, reader_new ?b m) = (Ok (), (publish_received msg p,
      increment_position (length (packet_frame (fixed_header p) (publish_head p @ msg)) - length msg) (reader_new ?b m)))"
    if "length ?f \<le> m" "m \<le> length ?b" for m
    using that by (intro publish_decode_frame [OF assms(1), where rest = "take (m - length ?f) (drop (length ?f) buf)"]) auto
  have "publish_encode p buf n = (Ok (length ?f), ?b)"
    unfolding publish_encode_def by (rule publish_encoder.encode_frame [OF wf assms(2,3)])
  moreover have "\<forall>m. length ?f \<le> m \<and> m \<le> length ?b \<longrightarrow>
      (\<exists>r. publish_decode cap (publish_new, reader_new ?b m) = (Ok (), (publish_received msg p, r)))"
    using dec by blast
  ultimately show ?thesis by blast
qed

theorem publish_roundtrip_witness:
  "\<exists>k buf'. publish_encode sample_publish (replicate 20 0) 20 = (Ok k, buf') \<and>
     (\<forall>m. k \<le> m \<and> m \<le> length buf' \<longrightarrow>
       (\<exists>r. publish_decode 0 (publish_new, reader_new buf' m) = (Ok (), (publish_received [1, 2, 3] sample_publish, r))))"
proof (rule publish_roundtrip [OF sample_publish_sendable])
  show "(20 :: nat) \<le> length (replicate 20 (0 :: u8))" by simp
  show "length (packet_frame (fixed_header sample_publish) (publish_body [1, 2, 3] sample_publish)) \<le> 20"
    by code_simp
qed

text \<open>
  The end of the message is computed from the shortest encoding of the remaining length. A
  PUBLISH of quality 0 without properties and message whose remaining length is sent in one byte more
  than needed makes the decoder slice up to an end that lies before its cursor: it panics, for every topic.
\<close>

theorem publish_overlong_length_panics:
  assumes "string_wf s" "length (es_string s) < 120"
  shows "fst (publish_decode cap (publish_new,
      reader_new ([0x30, 0x80 OR of_nat (length (es_string s) + 3), 0] @ string_bytes s @ [0])
        (6 + length (es_string s)))) = Panic"
proof -
  let ?l = "length (es_string s)" and ?n = "of_nat (length (es_string s) + 3) :: u32"
  let ?b = "0x80 OR of_nat (?l + 3) :: u8"
  let ?buf = "[0x30, ?b, 0] @ string_bytes s @ [0]"
  let ?r = "reader_new ?buf (6 + ?l)"
  have lb: "length (string_bytes s) = 2 + ?l"
    using assms(1) by (simp add: length_string_bytes string_wf_def)
  have inv: "rd_inv ?r" by (rule rd_inv_new) (simp add: lb)
  have rem: "remaining ?r = ([0x30] @ [?b, 0]) @ (string_bytes s @ [0]) @ []"
    by (simp add: remaining_new lb)
  have gb: "?b AND 128 \<noteq> 0" "?b AND 127 = of_nat (?l + 3)"
    using group_bits(2,3) [of "?l + 3"] assms(2) by (simp_all add: or.commute)
  have "parses read_variable_byte_int [?b, 0] ?n"
    unfolding parses_def
  proof (intro allI impI)
    fix r cs assume "rd_inv r" "remaining r = [?b, 0] @ cs"
    moreover have "vbi_word [?b, 0]" using gb by simp
    ultimately have "read_variable_byte_int r = (Ok (of_nat (vbi_value [?b, 0])), increment_position (length [?b, 0]) r)"
      by (intro read_variable_byte_int_word) auto
    moreover have "vbi_value [?b, 0] = ?l + 3"
      using gb group_bits(4) [of "?l + 3"] assms(2) by (simp del: of_nat_add)
    ultimately show "read_variable_byte_int r = (Ok ?n, increment_position (length [?b, 0]) r)"
      by (simp only:)
  qed
  note v = op_parses_read [OF this]
  have "op_parses (decode_fixed_header (prop_packet_impl publish_property cap)) publish_new
      ([0x30] @ [?b, 0] @ [])
      (set_remaining_len (prop_packet_impl publish_property cap) ?n
        (set_fixed_header (prop_packet_impl publish_property cap) 0x30 publish_new)) (packet_type_from 0x30)"
    unfolding decode_fixed_header_def
    by (rule op_parses_read [OF parses_read_u8] op_parses_set op_parses_ret v)+
  then have hd: "op_parses (decode_fixed_header (prop_packet_impl publish_property cap)) publish_new
      ([0x30] @ [?b, 0]) (publish_new\<lparr>remain_len := ?n\<rparr>) Publish"
    by (simp add: publish_new_def packet_type_from_def)
  have wfs: "section_plain 0 []" by (simp add: section_plain_def section_wf_def)
  have z: "section_bytes [] = [0]" by code_simp
  have props: "op_parses (decode_properties (prop_packet_impl publish_property cap))
      (publish_new\<lparr>remain_len := ?n, topic_name := s\<rparr>) [0] (publish_new\<lparr>remain_len := ?n, topic_name := s\<rparr>) ()"
    using prop_section_parses [OF wfs, of "publish_new\<lparr>remain_len := ?n, topic_name := s\<rparr>" cap publish_property]
    by (simp add: z publish_new_def)
  have "op_parses (with_packet (\<lambda>p. if fixed_header p AND 0x06 \<noteq> 0
      then andq (on_reader read_u16) (\<lambda>i. modify_packet (\<lambda>p. p\<lparr>pub_identifier := i\<rparr>)) else ret ()))
      (publish_new\<lparr>remain_len := ?n, topic_name := s\<rparr>) [] (publish_new\<lparr>remain_len := ?n, topic_name := s\<rparr>) ()"
    by (rule op_parses_with) (simp add: publish_new_def op_parses_ret)
  from op_parses_andq [OF this props]
  have rest: "op_parses (andq (on_reader read_string) (\<lambda>s.
       thenq (modify_packet (\<lambda>p. p\<lparr>topic_name := s\<rparr>))
       (thenq (with_packet (\<lambda>p. if fixed_header p AND 0x06 \<noteq> 0
          then andq (on_reader read_u16) (\<lambda>i. modify_packet (\<lambda>p. p\<lparr>pub_identifier := i\<rparr>)) else ret ()))
       (decode_properties (prop_packet_impl publish_property cap)))))
     (publish_new\<lparr>remain_len := ?n\<rparr>) (string_bytes s @ [0]) (publish_new\<lparr>remain_len := ?n, topic_name := s\<rparr>) ()"
    by (intro op_parses_read [OF parses_read_string [OF assms(1)]] op_parses_set) simp
  let ?r1 = "increment_position (length ([0x30] @ [?b, 0])) ?r"
    and ?r2 = "increment_position (length (string_bytes s @ [0])) (increment_position (length ([0x30] @ [?b, 0])) ?r)"
  have inv1: "rd_inv ?r1" by (rule rd_inv_increment [OF inv], unfold rem, simp)
  have rem1: "remaining ?r1 = (string_bytes s @ [0]) @ []" unfolding remaining_increment rem by simp
  have rem': "remaining ?r = ([0x30] @ [?b, 0]) @ (string_bytes s @ [0])" unfolding rem by simp
  note h = op_parsesD [OF hd inv rem'] and t = op_parsesD [OF rest inv1 rem1]
  have un: "unat ?n = ?l + 3" using assms(2) by (intro unat_of_nat_len) simp
  have n28: "unat ?n \<le> 268435455" using assms(2) un by simp
  have vl: "length (vbi_bytes ?n) = 1"
    using un assms(2) vbi_groups.simps(2) [of 3 "?l + 3"] by (simp add: vbi_bytes_def del: vbi_groups.simps)
  have pos: "rd_position ?r2 = 6 + ?l" by (simp add: lb reader_new_def)
  have "read_message (1 + 1 + unat ?n) ?r2 = (Panic, ?r2)"
    unfolding read_message_def pos un by (simp add: slice_def reader_new_def)
  note msg = on_reader_simps(3) [of "read_message _", OF this]
  have rl: "remain_len (publish_new\<lparr>remain_len := ?n, topic_name := s\<rparr>) = ?n" by simp
  show ?thesis
    unfolding publish_decode_split
    by (subst andq_Ok, rule h, simp only: not_True_eq_False if_False simp_thms,
        subst andq_Ok, rule t, simp only: with_packet_simp rl lift_vbi_encode [OF n28]
          lift_vbi_len [OF n28] vl Let_def msg fst_conv)
qed

theorem publish_overlong_length_panics_witness:
  "fst (publish_decode 4 (publish_new, reader_new [0x30, 0x84, 0, 0, 1, 97, 0] 7)) = Panic"
proof -
  let ?s = "\<lparr>es_string = [97], es_len = 1\<rparr>"
  have "string_wf ?s" "length (es_string ?s) < 120" by code_simp+
  moreover have "string_bytes ?s = [0, 1, 97]" by code_simp
  moreover have "0x80 OR of_nat (length (es_string ?s) + 3) = (0x84 :: u8)" by code_simp
  ultimately show ?thesis using publish_overlong_length_panics [of ?s 4] by simp
qed

end
