(* ===== verification/Mqtt_Subscribe.thy ===== *)
theory Mqtt_Subscribe
  imports Mqtt_Packet
begin

text \<open>
  SUBSCRIBE, UNSUBSCRIBE and their acknowledgements (rust-mqtt/src/packet/v5/subscription_packet.rs,
  unsubscription_packet.rs, suback_packet.rs, unsuback_packet.rs). The two requests have the same
  fields and one record; so have the two acknowledgements. \<open>cap\<close>, \<open>fcap\<close> and \<open>rcap\<close> are
  \<open>MAX_PROPERTIES\<close>, \<open>MAX_FILTERS\<close> and \<open>MAX_REASONS\<close>.
\<close>

section \<open>Requests\<close>

record filter_packet = prop_packet +
  filter_identifier :: u16
  topic_filter_len :: u16
  topic_filters :: "topic_filter list"

definition subscription_new :: filter_packet where
  "subscription_new = \<lparr>fixed_header = packet_type_byte Subscribe, remain_len = 0, property_len = 0,
     properties = [], filter_identifier = 1, topic_filter_len = 0, topic_filters = []\<rparr>"

text \<open>A full vector drops the filter, the counter moves all the same.\<close>

definition subscription_add_new_filter ::
    "nat \<Rightarrow> bytes \<Rightarrow> quality_of_service \<Rightarrow> filter_packet \<Rightarrow> filter_packet" where
  "subscription_add_new_filter fcap name qos p =
     (let new_filter = topic_filter_new
            \<lparr>tf_filter := \<lparr>es_string = name, es_len = of_nat (length name)\<rparr>,
             tf_sub_options := tf_sub_options topic_filter_new OR drop_bit 1 (qos_byte qos)\<rparr>
      in p\<lparr>topic_filters := vec_push fcap (topic_filters p) new_filter,
           topic_filter_len := topic_filter_len p + 1\<rparr>)"

definition subscription_impl :: "nat \<Rightarrow> filter_packet packet_impl" where
  "subscription_impl cap = prop_packet_impl subscribe_property cap"

text \<open>The loop that adds up the filters in a \<open>u16\<close>; \<open>k\<close> is what a filter takes beside its name.\<close>

function filters_len_loop :: "u16 \<Rightarrow> u16 \<Rightarrow> topic_filter list \<Rightarrow> nat \<Rightarrow> u16 \<Rightarrow> (buffer_error, u16) outcome" where
  "filters_len_loop k count filters lt filters_len =
     (case index filters lt of
        None \<Rightarrow> Panic
      | Some f \<Rightarrow>
          let filters_len' = filters_len + es_len (tf_filter f) + k
          in if Suc lt = unat count then Ok filters_len'
             else filters_len_loop k count filters (Suc lt) filters_len')"
  by pat_completeness auto
termination
  by (relation "measure (\<lambda>(k, t, fs, lt, l). length fs - lt)") (auto simp: index_def split: if_splits)

declare filters_len_loop.simps [simp del]

definition filter_packet_writes :: "bool \<Rightarrow> u16 \<Rightarrow> filter_packet \<Rightarrow> unit writes" where
  "filter_packet_writes sub k p =
     with_property_len_len (property_len p) (\<lambda>property_len_len.
     andq (lift_outcome (filters_len_loop k (topic_filter_len p) (topic_filters p) 0 0)) (\<lambda>filters_len.
     let rm_ln = property_len p + property_len_len + 2 + ucast filters_len in
     thenq (write_u8 (fixed_header p))
     (thenq (write_variable_byte_int rm_ln)
     (thenq (write_u16 (filter_identifier p))
     (thenq (thenq (write_variable_byte_int (property_len p)) (write_properties (properties p)))
     (write_topic_filters_ref sub (unat (topic_filter_len p)) (topic_filters p)))))))"

definition subscription_encode :: "filter_packet \<Rightarrow> bytes \<Rightarrow> nat \<Rightarrow> (buffer_error, nat) outcome \<times> bytes" where
  "subscription_encode p = encode_with (filter_packet_writes True 3 p)"

definition subscription_decode :: "(filter_packet, unit) packet_op" where
  "subscription_decode = throw WrongPacketToDecode"

definition unsubscription_new :: filter_packet where
  "unsubscription_new = \<lparr>fixed_header = packet_type_byte Unsubscribe, remain_len = 0, property_len = 0,
     properties = [], filter_identifier = 0, topic_filter_len = 0, topic_filters = []\<rparr>"

definition unsubscription_add_new_filter :: "nat \<Rightarrow> bytes \<Rightarrow> filter_packet \<Rightarrow> filter_packet" where
  "unsubscription_add_new_filter fcap name p =
     (let new_filter = topic_filter_new
            \<lparr>tf_filter := \<lparr>es_string = name, es_len = of_nat (length name)\<rparr>,
             tf_sub_options := tf_sub_options topic_filter_new OR 0x01\<rparr>
      in p\<lparr>topic_filters := vec_push fcap (topic_filters p) new_filter,
           topic_filter_len := topic_filter_len p + 1\<rparr>)"

definition unsubscription_impl :: "nat \<Rightarrow> filter_packet packet_impl" where
  "unsubscription_impl cap = prop_packet_impl unsubscribe_property cap"

definition unsubscription_encode :: "filter_packet \<Rightarrow> bytes \<Rightarrow> nat \<Rightarrow> (buffer_error, nat) outcome \<times> bytes" where
  "unsubscription_encode p = encode_with (filter_packet_writes False 2 p)"

definition unsubscription_decode :: "(filter_packet, unit) packet_op" where
  "unsubscription_decode = throw WrongPacketToDecode"

section \<open>Acknowledgements\<close>

record reasons_packet = prop_packet +
  reasons_identifier :: u16
  reason_codes :: bytes

definition suback_new :: reasons_packet where
  "suback_new = \<lparr>fixed_header = packet_type_byte Suback, remain_len = 0, property_len = 0,
     properties = [], reasons_identifier = 0, reason_codes = []\<rparr>"

definition suback_impl :: "nat \<Rightarrow> reasons_packet packet_impl" where
  "suback_impl cap = prop_packet_impl suback_property cap"

lemma read_u8_Ok: "read_u8 r = (Ok b, r') \<Longrightarrow> r' = increment_position 1 r \<and> rd_position r < rd_len r"
  by (auto simp: read_u8_def split: if_splits option.splits)

text \<open>The loop over the reason codes of a SUBACK ends at the end of the packet.\<close>

function suback_reasons_loop :: "nat \<Rightarrow> nat \<Rightarrow> reasons_packet \<times> buff_reader \<Rightarrow>
    (buffer_error, unit) outcome \<times> (reasons_packet \<times> buff_reader)" where
  "suback_reasons_loop rcap maxi (p, r) =
     (case read_u8 r of
        (Ok b, r') \<Rightarrow>
          let p' = p\<lparr>reason_codes := vec_push rcap (reason_codes p) b\<rparr>
          in if rd_position r' = maxi then (Ok (), (p', r')) else suback_reasons_loop rcap maxi (p', r')
      | (Err e, r') \<Rightarrow> (Err e, (p, r'))
      | (Panic, r') \<Rightarrow> (Panic, (p, r')))"
  by pat_completeness auto
termination
  by (relation "measure (\<lambda>(c, m, p, r). rd_len r - rd_position r)") (auto dest!: read_u8_Ok [OF sym])

declare suback_reasons_loop.simps [simp del]

definition suback_read_reason_codes :: "nat \<Rightarrow> (reasons_packet, unit) packet_op" where
  "suback_read_reason_codes rcap =
     with_packet (\<lambda>p.
     andq (lift_outcome (unwrap_result (vbi_encode (remain_len p)))) (\<lambda>enc.
     andq (lift_outcome (vbi_len enc)) (\<lambda>rm_ln_ln (p, r).
     let maxi = unat (remain_len p) + rm_ln_ln + 1
     in if rd_position r \<ge> maxi then (Ok (), (p, r)) else suback_reasons_loop rcap maxi (p, r))))"

definition suback_encode :: "reasons_packet \<Rightarrow> bytes \<Rightarrow> nat \<Rightarrow> (buffer_error, nat) outcome \<times> bytes" where
  "suback_encode p buffer buffer_len = (Err WrongPacketToEncode, buffer)"

definition suback_decode :: "nat \<Rightarrow> nat \<Rightarrow> (reasons_packet, unit) packet_op" where
  "suback_decode rcap cap =
     andq (decode_fixed_header (suback_impl cap)) (\<lambda>t.
     if t \<noteq> Suback then throw PacketTypeMismatch
     else
       andq (on_reader read_u16) (\<lambda>i.
       thenq (modify_packet (\<lambda>p. p\<lparr>reasons_identifier := i\<rparr>))
       (thenq (decode_properties (suback_impl cap))
       (suback_read_reason_codes rcap))))"

definition unsuback_new :: reasons_packet where
  "unsuback_new = \<lparr>fixed_header = packet_type_byte Unsuback, remain_len = 0, property_len = 0,
     properties = [], reasons_identifier = 0, reason_codes = []\<rparr>"

definition unsuback_impl :: "nat \<Rightarrow> reasons_packet packet_impl" where
  "unsuback_impl cap = prop_packet_impl unsuback_property cap"

text \<open>The loop of an UNSUBACK counts to \<open>MAX_REASONS\<close>, whatever the packet holds.\<close>

function unsuback_reasons_loop :: "nat \<Rightarrow> nat \<Rightarrow> reasons_packet \<times> buff_reader \<Rightarrow>
    (buffer_error, unit) outcome \<times> (reasons_packet \<times> buff_reader)" where
  "unsuback_reasons_loop rcap i (p, r) =
     (case read_u8 r of
        (Ok b, r') \<Rightarrow>
          let p' = p\<lparr>reason_codes := vec_push rcap (reason_codes p) b\<rparr>
          in if Suc i = rcap then (Ok (), (p', r')) else unsuback_reasons_loop rcap (Suc i) (p', r')
      | (Err e, r') \<Rightarrow> (Err e, (p, r'))
      | (Panic, r') \<Rightarrow> (Panic, (p, r')))"
  by pat_completeness auto
termination
  by (relation "measure (\<lambda>(c, i, p, r). rd_len r - rd_position r)") (auto dest!: read_u8_Ok [OF sym])

declare unsuback_reasons_loop.simps [simp del]

definition unsuback_read_reason_codes :: "nat \<Rightarrow> (reasons_packet, unit) packet_op" where
  "unsuback_read_reason_codes rcap = unsuback_reasons_loop rcap 0"

definition unsuback_encode :: "reasons_packet \<Rightarrow> bytes \<Rightarrow> nat \<Rightarrow> (buffer_error, nat) outcome \<times> bytes" where
  "unsuback_encode p buffer buffer_len = (Err WrongPacketToEncode, buffer)"

definition unsuback_decode :: "nat \<Rightarrow> nat \<Rightarrow> (reasons_packet, unit) packet_op" where
  "unsuback_decode rcap cap =
     andq (decode_fixed_header (unsuback_impl cap)) (\<lambda>t.
     if t \<noteq> Unsuback then throw PacketTypeMismatch
     else
       andq (on_reader read_u16) (\<lambda>i.
       thenq (modify_packet (\<lambda>p. p\<lparr>reasons_identifier := i\<rparr>))
       (thenq (decode_properties (unsuback_impl cap))
       (unsuback_read_reason_codes rcap))))"

section \<open>The length of the filters\<close>

definition filters_bytes :: "bool \<Rightarrow> topic_filter list \<Rightarrow> bytes" where
  "filters_bytes sub ts = concat (map (filter_bytes sub) ts)"

lemma filters_len_loop_sum:
  "lt < length fs \<Longrightarrow> length fs = unat t \<Longrightarrow>
   filters_len_loop k t fs lt acc = Ok (acc + (\<Sum>f\<leftarrow>drop lt fs. es_len (tf_filter f) + k))"
proof (induction "length fs - lt" arbitrary: lt acc)
  case (Suc d)
  have dr: "drop lt fs = fs ! lt # drop (Suc lt) fs"
    using Suc.prems(1) by (rule Cons_nth_drop_Suc [symmetric])
  show ?case
  proof (cases "Suc lt = length fs")
    case True
    then show ?thesis using Suc.prems
      by (subst filters_len_loop.simps) (simp add: index_def dr Let_def)
  next
    case False
    then have "filters_len_loop k t fs (Suc lt) (acc + es_len (tf_filter (fs ! lt)) + k)
        = Ok (acc + es_len (tf_filter (fs ! lt)) + k + (\<Sum>f\<leftarrow>drop (Suc lt) fs. es_len (tf_filter f) + k))"
      using Suc.prems Suc.hyps(2) by (intro Suc.hyps(1)) auto
    then show ?thesis using Suc.prems False
      by (subst filters_len_loop.simps) (simp add: index_def dr Let_def add.assoc)
  qed
qed simp

text \<open>Fewer filters than the counter says, or a counter of 0: the loop runs off the vector.\<close>

lemma filters_len_loop_panic:
  "lt \<le> length fs \<Longrightarrow> unat t \<le> lt \<or> length fs < unat t \<Longrightarrow> filters_len_loop k t fs lt acc = Panic"
proof (induction "length fs - lt" arbitrary: lt acc)
  case 0
  then show ?case by (subst filters_len_loop.simps) (simp add: index_def)
next
  case (Suc d)
  have ne: "Suc lt \<noteq> unat t" and le: "Suc lt \<le> length fs" and lt: "lt < length fs"
    using Suc.prems Suc.hyps(2) by auto
  have "filters_len_loop k t fs (Suc lt) (acc + es_len (tf_filter (fs ! lt)) + k) = Panic"
    using Suc.prems Suc.hyps(2) le ne by (intro Suc.hyps(1)) auto
  then show ?case using ne lt by (subst filters_len_loop.simps) (simp add: index_def Let_def)
qed

lemma length_filter_bytes:
  "filter_wf t \<Longrightarrow> length (filter_bytes sub t) = unat (es_len (tf_filter t)) + (if sub then 3 else 2)"
  by (simp add: filter_bytes_def filter_wf_def length_string_bytes)

lemma filters_count:
  "\<forall>t \<in> set ts. filter_wf t \<Longrightarrow>
   (\<Sum>t\<leftarrow>ts. es_len (tf_filter t) + (if sub then 3 else 2)) = of_nat (length (filters_bytes sub ts))"
  by (induction ts) (simp_all add: filters_bytes_def length_filter_bytes)

section \<open>The frame of a request\<close>

definition filter_packet_body :: "bool \<Rightarrow> filter_packet \<Rightarrow> bytes" where
  "filter_packet_body sub p = u16_to_be (filter_identifier p) @ section_bytes (properties p) @
     filters_bytes sub (topic_filters p)"

text \<open>Well formed: the counter counts the filters, there is at least one, and together they
  take less than 64 KiB.\<close>

definition filter_packet_wf :: "bool \<Rightarrow> filter_packet \<Rightarrow> bool" where
  "filter_packet_wf sub p \<longleftrightarrow> section_wf (property_len p) (properties p)
     \<and> (\<forall>t \<in> set (topic_filters p). filter_wf t) \<and> topic_filters p \<noteq> []
     \<and> unat (topic_filter_len p) = length (topic_filters p)
     \<and> length (filters_bytes sub (topic_filters p)) < 65536
     \<and> length (filter_packet_body sub p) \<le> 268435455"

lemma emits_filter_packet:
  assumes "filter_packet_wf sub p"
  shows "emits (filter_packet_writes sub (if sub then 3 else 2) p) (packet_frame (fixed_header p) (filter_packet_body sub p))"
proof -
  note a = assms [unfolded filter_packet_wf_def]
  have sec: "section_wf (property_len p) (properties p)" and len: "length (filter_packet_body sub p) \<le> 268435455"
    and fs: "\<forall>t \<in> set (topic_filters p). filter_wf t" and f16: "length (filters_bytes sub (topic_filters p)) < 65536"
    using a by auto
  have n: "unat (property_len p) \<le> 268435455"
    by (rule section_wf_bound [OF sec]) (use len in \<open>simp add: filter_packet_body_def\<close>)
  have ne: "0 < length (topic_filters p)" and c: "length (topic_filters p) = unat (topic_filter_len p)"
    using a by simp_all
  have loop: "filters_len_loop (if sub then 3 else 2) (topic_filter_len p) (topic_filters p) 0 0
      = Ok (of_nat (length (filters_bytes sub (topic_filters p))))"
    using filters_len_loop_sum [OF ne c] filters_count [OF fs, of sub] by simp
  have u: "ucast (of_nat (length (filters_bytes sub (topic_filters p))) :: u16)
      = (of_nat (length (filters_bytes sub (topic_filters p))) :: u32)"
    using f16 by (simp add: unsigned_of_nat take_bit_nat_eq_self)
  have "emits (write_topic_filters_ref sub (unat (topic_filter_len p)) (topic_filters p)) (filters_bytes sub (topic_filters p))"
    unfolding filters_bytes_def using fs by (rule emits_write_topic_filters_ref)
  note parts = emits_write_u16 emits_section [OF sec n] this
  show ?thesis
    unfolding filter_packet_writes_def Let_def
    by (rule emits_with_property_len_len [OF n], rule emits_andq_lift [OF loop], rule emits_frame [OF len])
      (simp add: filter_packet_body_def length_section [OF sec] u,
       unfold filter_packet_body_def, intro emits_thenq parts)
qed

interpretation subscription_encoder: packet_encoder "filter_packet_writes True 3" fixed_header
    "filter_packet_body True" "filter_packet_wf True"
  using emits_filter_packet [of True] by unfold_locales (auto simp: filter_packet_wf_def)

interpretation unsubscription_encoder: packet_encoder "filter_packet_writes False 2" fixed_header
    "filter_packet_body False" "filter_packet_wf False"
  using emits_filter_packet [of False] by unfold_locales (auto simp: filter_packet_wf_def)

section \<open>Reading the reason codes\<close>

definition push_codes :: "nat \<Rightarrow> bytes \<Rightarrow> bytes \<Rightarrow> bytes" where
  "push_codes rcap cs xs = foldl (vec_push rcap) xs cs"

lemma push_codes_simps [simp]:
  "push_codes rcap [] xs = xs"
  "push_codes rcap (c # cs) xs = push_codes rcap cs (vec_push rcap xs c)"
  by (simp_all add: push_codes_def)

lemma push_codes_take: "length xs \<le> rcap \<Longrightarrow> push_codes rcap cs xs = xs @ take (rcap - length xs) cs"
proof (induction cs arbitrary: xs)
  case (Cons c cs)
  show ?case
  proof (cases "length xs < rcap")
    case True
    then obtain k where "rcap - length xs = Suc k" "rcap - Suc (length xs) = k" by (metis Suc_diff_Suc)
    with True Cons show ?thesis by (simp add: vec_push_def)
  next
    case False
    with Cons show ?thesis by (simp add: vec_push_def)
  qed
qed simp

lemma read_u8_Cons: "rd_inv r \<Longrightarrow> remaining r = b # cs \<Longrightarrow> read_u8 r = (Ok b, increment_position 1 r)"
  using parsesD [OF parses_read_u8, of r b cs] by simp

lemma read_u8_end: "rd_inv r \<Longrightarrow> remaining r = [] \<Longrightarrow> read_u8 r = (Err InsufficientBufferSize, r)"
  using length_remaining [of r] by (auto simp: read_u8_def rd_inv_def)

lemma suback_reasons_loop_reads:
  "rd_inv r \<Longrightarrow> remaining r = codes @ cs \<Longrightarrow> codes \<noteq> [] \<Longrightarrow> maxi = rd_position r + length codes \<Longrightarrow>
   suback_reasons_loop rcap maxi (p, r)
     = (Ok (), (p\<lparr>reason_codes := push_codes rcap codes (reason_codes p)\<rparr>, increment_position (length codes) r))"
proof (induction codes arbitrary: p r)
  case (Cons b codes)
  have u8: "read_u8 r = (Ok b, increment_position 1 r)"
    by (rule read_u8_Cons [OF Cons.prems(1)]) (simp add: Cons.prems(2))
  let ?p = "p\<lparr>reason_codes := vec_push rcap (reason_codes p) b\<rparr>"
  show ?case
  proof (cases "codes = []")
    case True
    then show ?thesis using Cons.prems by (subst suback_reasons_loop.simps) (simp add: u8)
  next
    case False
    have "suback_reasons_loop rcap maxi (?p, increment_position 1 r) = (Ok (),
        (?p\<lparr>reason_codes := push_codes rcap codes (reason_codes ?p)\<rparr>, increment_position (length codes) (increment_position 1 r)))"
    proof (rule Cons.IH)
      show "rd_inv (increment_position 1 r)" by (rule rd_inv_increment [OF Cons.prems(1)]) (simp add: Cons.prems(2))
      show "remaining (increment_position 1 r) = codes @ cs" by (simp add: remaining_increment Cons.prems(2))
    qed (use False Cons.prems in auto)
    then show ?thesis using Cons.prems(4) False
      by (subst suback_reasons_loop.simps) (simp add: u8 Let_def)
  qed
qed simp

lemma unsuback_reasons_loop_short:
  "rd_inv r \<Longrightarrow> i + length (remaining r) < rcap \<Longrightarrow>
   fst (unsuback_reasons_loop rcap i (p, r)) = Err InsufficientBufferSize"
proof (induction "remaining r" arbitrary: p r i)
  case Nil
  then show ?case by (subst unsuback_reasons_loop.simps) (simp add: read_u8_end)
next
  case (Cons b cs)
  have u8: "read_u8 r = (Ok b, increment_position 1 r)"
    using Cons.prems(1) Cons.hyps(2) by (intro read_u8_Cons [of r b cs]) simp_all
  have rem: "remaining (increment_position 1 r) = cs" by (simp add: remaining_increment Cons.hyps(2) [symmetric])
  have inv: "rd_inv (increment_position 1 r)"
    by (rule rd_inv_increment [OF Cons.prems(1)]) (simp add: Cons.hyps(2) [symmetric])
  have "fst (unsuback_reasons_loop rcap (Suc i) (p\<lparr>reason_codes := vec_push rcap (reason_codes p) b\<rparr>,
      increment_position 1 r)) = Err InsufficientBufferSize"
    using Cons.prems(2) unfolding Cons.hyps(2) [symmetric]
    by (intro Cons.hyps(1) inv) (simp_all only: rem list.size)
  moreover have "Suc i \<noteq> rcap" using Cons.prems(2) by (simp add: Cons.hyps(2) [symmetric])
  ultimately show ?case by (subst unsuback_reasons_loop.simps) (simp add: u8)
qed

section \<open>The frame of an acknowledgement\<close>

definition reasons_body :: "u16 \<Rightarrow> property list \<Rightarrow> bytes \<Rightarrow> bytes" where
  "reasons_body i ps codes = u16_to_be i @ section_bytes ps @ codes"

text \<open>Everything up to the reason codes, for either acknowledgement.\<close>

lemma reasons_head_parses:
  assumes ps: "section_plain n ps" "length ps \<le> cap" "properties q = []" "unat n \<le> 268435455"
  shows "op_parses (andq (on_reader read_u16) (\<lambda>i.
       thenq (modify_packet (\<lambda>p. p\<lparr>reasons_identifier := i\<rparr>))
       (decode_properties (prop_packet_impl allowed cap)))) q (u16_to_be i @ section_bytes ps)
     (q\<lparr>reasons_identifier := i, property_len := n, properties := ps\<rparr>) ()"
  using prop_section_parses [OF ps(1,4), of "q\<lparr>reasons_identifier := i\<rparr>" cap allowed] ps(2,3)
  by (intro op_parses_read [OF parses_read_u16] op_parses_set) simp

lemma reasons_decode_run:
  assumes n: "n \<le> length buf" "take n buf = packet_frame h (reasons_body i ps codes) @ rest"
    and ps: "section_plain pl ps" "length ps \<le> cap" "properties q = []"
    and b: "length (reasons_body i ps codes) \<le> 268435455" and t: "packet_type_from h = t"
  defines "m \<equiv> of_nat (length (reasons_body i ps codes)) :: u32"
  defines "k \<equiv> 1 + length (vbi_bytes m) + 2 + length (section_bytes ps)"
  shows "andq (decode_fixed_header (prop_packet_impl allowed cap)) (\<lambda>t'.
       if t' \<noteq> t then throw PacketTypeMismatch
       else thenq (andq (on_reader read_u16) (\<lambda>i.
         thenq (modify_packet (\<lambda>p. p\<lparr>reasons_identifier := i\<rparr>))
         (decode_properties (prop_packet_impl allowed cap)))) g) (q, reader_new buf n)
     = g (q\<lparr>fixed_header := h, remain_len := m, reasons_identifier := i, property_len := pl, properties := ps\<rparr>,
          increment_position k (reader_new buf n))"
    and "rd_inv (increment_position k (reader_new buf n))"
    and "remaining (increment_position k (reader_new buf n)) = codes @ rest"
proof -
  have sec: "section_wf pl ps" using ps(1) by (simp add: section_plain_def)
  have pl: "unat pl \<le> 268435455" by (rule section_wf_bound [OF sec]) (use b in \<open>simp add: reasons_body_def\<close>)
  have m28: "unat m \<le> 268435455" using b unfolding m_def by (simp add: unat_of_nat_len)
  let ?q = "q\<lparr>fixed_header := h, remain_len := m\<rparr>"
  have "op_parses (andq (on_reader read_u16) (\<lambda>i.
         thenq (modify_packet (\<lambda>p. p\<lparr>reasons_identifier := i\<rparr>))
         (decode_properties (prop_packet_impl allowed cap)))) ?q (u16_to_be i @ section_bytes ps)
       (?q\<lparr>reasons_identifier := i, property_len := pl, properties := ps\<rparr>) ()"
    by (rule reasons_head_parses [OF ps(1,2) _ pl]) (simp add: ps(3))
  note head = op_parsesD [OF this]
  note hd = op_parsesD [OF prop_trait.decode_fixed_header_parses [OF m28, of allowed cap q h]]
  have inv: "rd_inv (reader_new buf n)" by (rule rd_inv_new [OF n(1)])
  have rem: "remaining (reader_new buf n) = (h # vbi_bytes m) @ ((u16_to_be i @ section_bytes ps) @ (codes @ rest))"
    by (simp add: remaining_new n(2) packet_frame_def m_def reasons_body_def)
  let ?r1 = "increment_position (length (h # vbi_bytes m)) (reader_new buf n)"
  have inv1: "rd_inv ?r1" by (rule rd_inv_increment [OF inv], unfold rem, simp)
  have rem1: "remaining ?r1 = (u16_to_be i @ section_bytes ps) @ (codes @ rest)"
    unfolding remaining_increment rem by simp
  have kk: "increment_position (length (u16_to_be i @ section_bytes ps)) ?r1 = increment_position k (reader_new buf n)"
    by (simp add: k_def)
  show "andq (decode_fixed_header (prop_packet_impl allowed cap)) (\<lambda>t'.
       if t' \<noteq> t then throw PacketTypeMismatch
       else thenq (andq (on_reader read_u16) (\<lambda>i.
         thenq (modify_packet (\<lambda>p. p\<lparr>reasons_identifier := i\<rparr>))
         (decode_properties (prop_packet_impl allowed cap)))) g) (q, reader_new buf n)
     = g (q\<lparr>fixed_header := h, remain_len := m, reasons_identifier := i, property_len := pl, properties := ps\<rparr>,
          increment_position k (reader_new buf n))"
    by (subst andq_Ok, rule hd [OF inv rem], simp only: not_True_eq_False if_False simp_thms t prop_packet_impl_simps,
        subst andq_Ok, rule head [OF inv1 rem1, unfolded kk]) simp
  show "rd_inv (increment_position k (reader_new buf n))"
    by (rule rd_inv_increment [OF inv], unfold rem, simp add: k_def)
  show "remaining (increment_position k (reader_new buf n)) = codes @ rest"
    unfolding remaining_increment rem by (simp add: k_def)
qed

lemma suback_decode_split:
  "suback_decode rcap cap = andq (decode_fixed_header (prop_packet_impl suback_property cap)) (\<lambda>t.
     if t \<noteq> Suback then throw PacketTypeMismatch
     else thenq (andq (on_reader read_u16) (\<lambda>i.
       thenq (modify_packet (\<lambda>p. p\<lparr>reasons_identifier := i\<rparr>))
       (decode_properties (prop_packet_impl suback_property cap)))) (suback_read_reason_codes rcap))"
  unfolding suback_decode_def suback_impl_def andq_assoc ..

lemma unsuback_decode_split:
  "unsuback_decode rcap cap = andq (decode_fixed_header (prop_packet_impl unsuback_property cap)) (\<lambda>t.
     if t \<noteq> Unsuback then throw PacketTypeMismatch
     else thenq (andq (on_reader read_u16) (\<lambda>i.
       thenq (modify_packet (\<lambda>p. p\<lparr>reasons_identifier := i\<rparr>))
       (decode_properties (prop_packet_impl unsuback_property cap)))) (unsuback_read_reason_codes rcap))"
  unfolding unsuback_decode_def unsuback_impl_def andq_assoc ..

lemma suback_read_reason_codes_eq:
  assumes "unat (remain_len q) \<le> 268435455"
  shows "suback_read_reason_codes rcap (q, r) =
    (let maxi = unat (remain_len q) + length (vbi_bytes (remain_len q)) + 1
     in if rd_position r \<ge> maxi then (Ok (), (q, r)) else suback_reasons_loop rcap maxi (q, r))"
proof -
  have un: "unwrap_result (vbi_encode (remain_len q)) = (vbi_encode (remain_len q) :: (buffer_error, bytes) outcome)"
    by (simp add: vbi_encode_Ok [OF assms])
  show ?thesis
    unfolding suback_read_reason_codes_def with_packet_simp un lift_vbi_encode [OF assms] lift_vbi_len [OF assms]
    by simp
qed

section \<open>Properties\<close>

text \<open>
  C28. SUBSCRIBE and UNSUBSCRIBE are encoded to exactly their frame, with the filters in the
  order they were added and the remaining length counting them; too short a buffer is
  \<open>InsufficientBufferSize\<close>.
\<close>

theorem filter_request_encode_exact:
  assumes "filter_packet_wf sub p" "n \<le> length buf"
    and "enc = (if sub then subscription_encode else unsubscription_encode)"
  shows "if length (packet_frame (fixed_header p) (filter_packet_body sub p)) \<le> n
     then enc p buf n = (Ok (length (packet_frame (fixed_header p) (filter_packet_body sub p))),
            packet_frame (fixed_header p) (filter_packet_body sub p)
              @ drop (length (packet_frame (fixed_header p) (filter_packet_body sub p))) buf)
     else fst (enc p buf n) = Err InsufficientBufferSize"
proof (cases sub)
  case True
  then show ?thesis
    using assms subscription_encoder.encode_frame [of p n buf] subscription_encoder.encode_short [of p n buf]
    by (simp add: subscription_encode_def)
next
  case False
  then show ?thesis
    using assms unsubscription_encoder.encode_frame [of p n buf] unsubscription_encoder.encode_short [of p n buf]
    by (simp add: unsubscription_encode_def)
qed

theorem filter_request_encode_exact_witness:
  "subscription_encode (subscription_add_new_filter 2 (lit ''a'') QoS1 subscription_new) (replicate 10 0) 9
     = (Ok 9, [0x82, 7, 0, 1, 0, 0, 1, 97, 1, 0])"
proof -
  let ?p = "subscription_add_new_filter 2 (lit ''a'') QoS1 subscription_new"
  have "section_wf (property_len ?p) (properties ?p)" "\<forall>t \<in> set (topic_filters ?p). filter_wf t"
    "topic_filters ?p \<noteq> []" "unat (topic_filter_len ?p) = length (topic_filters ?p)"
    "length (filters_bytes True (topic_filters ?p)) = 4" "length (filter_packet_body True ?p) = 7"
    by code_simp+
  then have wf: "filter_packet_wf True ?p" by (simp add: filter_packet_wf_def)
  have f: "packet_frame (fixed_header ?p) (filter_packet_body True ?p) = [0x82, 7, 0, 1, 0, 0, 1, 97, 1]"
    by code_simp
  have d: "drop 9 (replicate 10 (0 :: u8)) = [0]" by code_simp
  show ?thesis
    using filter_request_encode_exact [OF wf, of 9 "replicate 10 0" subscription_encode] unfolding f by (simp add: d)
qed

text \<open>
  Asking for more topics than the packet has room for is not refused: the filter is dropped
  and still counted, and encoding the request then panics. So does a request without topics.
\<close>

theorem subscription_overflow_panics:
  assumes "p = foldl (\<lambda>p (name, qos). subscription_add_new_filter fcap name qos p) subscription_new topics"
    and "topics = [] \<or> fcap < length topics" "length topics < 65536"
  shows "fst (subscription_encode p buf n) = Panic"
proof -
  have inv: "length (topic_filters q) = min fcap k \<Longrightarrow> topic_filter_len q = of_nat k \<Longrightarrow> property_len q = 0 \<Longrightarrow>
      (let q' = foldl (\<lambda>p (name, qos). subscription_add_new_filter fcap name qos p) q ts
       in length (topic_filters q') = min fcap (k + length ts) \<and> topic_filter_len q' = of_nat (k + length ts)
          \<and> property_len q' = 0)" for q k ts
  proof (induction ts arbitrary: q k)
    case (Cons t ts)
    obtain name qos where t: "t = (name, qos)" by (cases t)
    show ?case
      using Cons.IH [of "subscription_add_new_filter fcap name qos q" "Suc k"] Cons.prems
      by (simp add: t subscription_add_new_filter_def vec_push_def Let_def min_def ac_simps split: if_splits)
  qed simp
  have p: "length (topic_filters p) = min fcap (length topics)" "topic_filter_len p = of_nat (length topics)"
    "property_len p = 0"
    using inv [of subscription_new 0 topics] by (simp_all add: assms(1) subscription_new_def Let_def)
  have u: "unat (topic_filter_len p) = length topics"
    using assms(3) by (simp add: p unat_of_nat take_bit_nat_eq_self)
  have "filters_len_loop 3 (topic_filter_len p) (topic_filters p) 0 0 = Panic"
    using assms(2) by (intro filters_len_loop_panic) (auto simp: p(1) u)
  then show ?thesis
    by (simp add: subscription_encode_def encode_with_def filter_packet_writes_def with_property_len_len_def
        lift_vbi_encode lift_vbi_len p(3)) (simp add: andq_def)
qed

theorem subscription_overflow_panics_witness:
  "fst (subscription_encode (subscription_add_new_filter 1 [98] QoS1 (subscription_add_new_filter 1 [97] QoS0 subscription_new))
     (replicate 40 0) 40) = Panic"
  using subscription_overflow_panics [of _ 1 "[([97], QoS0), ([98], QoS1)]" "replicate 40 0" 40] by simp

text \<open>
  Decoding a SUBACK, whatever follows it in the buffer, gives its identifier, its
  properties and its reason codes, the codes cut to the room the packet has for them; the
  reader stands behind the packet.
\<close>

theorem suback_decodes:
  assumes "n \<le> length buf" "take n buf = packet_frame h (reasons_body i ps codes) @ rest"
    and "packet_type_from h = Suback" "section_plain pl ps" "length ps \<le> cap"
    and "length (reasons_body i ps codes) \<le> 268435455"
  shows "suback_decode rcap cap (suback_new, reader_new buf n) =
    (Ok (), (suback_new\<lparr>fixed_header := h, remain_len := of_nat (length (reasons_body i ps codes)),
        reasons_identifier := i, property_len := pl, properties := ps, reason_codes := take rcap codes\<rparr>,
      increment_position (length (packet_frame h (reasons_body i ps codes))) (reader_new buf n)))"
proof -
  let ?m = "of_nat (length (reasons_body i ps codes)) :: u32"
  let ?k = "1 + length (vbi_bytes ?m) + 2 + length (section_bytes ps)"
  let ?q = "suback_new\<lparr>fixed_header := h, remain_len := ?m, reasons_identifier := i, property_len := pl, properties := ps\<rparr>"
  let ?r = "increment_position ?k (reader_new buf n)"
  have q: "properties suback_new = []" by (simp add: suback_new_def)
  note run = reasons_decode_run(1) [OF assms(1,2,4,5) q assms(6,3), where allowed = suback_property and g = "suback_read_reason_codes rcap"]
    and at = reasons_decode_run(2,3) [OF assms(1,2,4,5) q assms(6,3)]
  have u: "unat ?m = length (reasons_body i ps codes)" by (rule unat_of_nat_len [OF assms(6)])
  then have m28: "unat ?m \<le> 268435455" using assms(6) by simp
  have pos: "rd_position ?r = ?k" by (simp add: reader_new_def)
  have maxi: "unat ?m + length (vbi_bytes ?m) + 1 = ?k + length codes"
    unfolding u by (simp add: reasons_body_def)
  have len: "length (packet_frame h (reasons_body i ps codes)) = ?k + length codes"
    by (simp add: packet_frame_def reasons_body_def)
  have rl: "remain_len ?q = ?m" by simp
  have eq: "suback_read_reason_codes rcap (?q, ?r) = (if ?k \<ge> ?k + length codes then (Ok (), (?q, ?r))
      else suback_reasons_loop rcap (?k + length codes) (?q, ?r))"
    unfolding suback_read_reason_codes_eq [of ?q, unfolded rl, OF m28] Let_def maxi pos ..
  have "suback_read_reason_codes rcap (?q, ?r)
      = (Ok (), (?q\<lparr>reason_codes := push_codes rcap codes []\<rparr>, increment_position (length codes) ?r))"
  proof (cases "codes = []")
    case True
    then show ?thesis unfolding eq by (simp add: suback_new_def)
  next
    case False
    have "suback_reasons_loop rcap (?k + length codes) (?q, ?r)
        = (Ok (), (?q\<lparr>reason_codes := push_codes rcap codes (reason_codes ?q)\<rparr>, increment_position (length codes) ?r))"
      by (rule suback_reasons_loop_reads [OF at False]) (simp only: pos)
    with False show ?thesis unfolding eq by (simp add: suback_new_def)
  qed
  then show ?thesis
    unfolding suback_decode_split run len
    by (simp add: push_codes_take suback_new_def)
qed

theorem suback_decodes_witness:
  "suback_decode 1 0 (suback_new, reader_new [0x90, 5, 0, 9, 0, 1, 2, 77] 8) =
    (Ok (), (suback_new\<lparr>fixed_header := 0x90, remain_len := 5,
        reasons_identifier := 9, property_len := 0, properties := [], reason_codes := [1]\<rparr>,
      increment_position 7 (reader_new [0x90, 5, 0, 9, 0, 1, 2, 77] 8)))"
proof -
  have a: "reasons_body 9 [] [1, 2] = [0, 9, 0, 1, 2]" "packet_frame 0x90 [0, 9, 0, 1, 2] = [0x90, 5, 0, 9, 0, 1, 2]"
    "packet_type_from 0x90 = Suback"
    by code_simp+
  show ?thesis
    using suback_decodes [of 8 "[0x90, 5, 0, 9, 0, 1, 2, 77]" "0x90" 9 "[]" "[1, 2]" "[77]" 0 0 1]
    by (simp add: a section_plain_def section_wf_def)
qed

text \<open>
  Decoding an UNSUBACK reads exactly \<open>MAX_REASONS\<close> codes: a broker that answers with fewer,
  at the end of the received bytes, makes the decoder fail with \<open>InsufficientBufferSize\<close>.
\<close>

theorem unsuback_short_fails:
  assumes "packet_type_from h = Unsuback" "section_plain pl ps" "length ps \<le> cap"
    and "length (reasons_body i ps codes) \<le> 268435455" "length codes < rcap"
    and "buf = packet_frame h (reasons_body i ps codes) @ rest" "n = length (packet_frame h (reasons_body i ps codes))"
  shows "fst (unsuback_decode rcap cap (unsuback_new, reader_new buf n)) = Err InsufficientBufferSize"
proof -
  have n: "n \<le> length buf" "take n buf = packet_frame h (reasons_body i ps codes) @ []"
    by (simp_all add: assms(6,7))
  have q: "properties unsuback_new = []" by (simp add: unsuback_new_def)
  note run = reasons_decode_run(1) [OF n assms(2,3) q assms(4,1), where allowed = unsuback_property and g = "unsuback_read_reason_codes rcap"]
    and at = reasons_decode_run(2,3) [OF n assms(2,3) q assms(4,1)]
  show ?thesis
    unfolding unsuback_decode_split run
    unfolding unsuback_read_reason_codes_def
    by (rule unsuback_reasons_loop_short [OF at(1)], unfold at(2)) (use assms(5) in simp)
qed

theorem unsuback_short_fails_witness:
  "fst (unsuback_decode 2 0 (unsuback_new, reader_new [0xB0, 4, 0, 9, 0, 17] 6)) = Err InsufficientBufferSize"
proof -
  have a: "reasons_body 9 [] [17] = [0, 9, 0, 17]" "packet_frame 0xB0 [0, 9, 0, 17] = [0xB0, 4, 0, 9, 0, 17]"
    "packet_type_from 0xB0 = Unsuback"
    by code_simp+
  show ?thesis
    using unsuback_short_fails [of "0xB0" 0 "[]" 0 9 "[17]" 2 "[0xB0, 4, 0, 9, 0, 17]" "[]" 6]
    by (simp add: a section_plain_def section_wf_def)
qed

end
