(* ===== verification/Mqtt_Network.thy ===== *)
theory Mqtt_Network
  imports Mqtt_Writer Mqtt_Codes
begin

text \<open>
  The network connection (rust-mqtt/src/network/mod.rs) and the reception of one packet
  (\<open>receive_packet\<close> of rust-mqtt/src/client/raw_client.rs, in the builds without and with the feature \<open>tls\<close>).

  The transport below is a type the client is generic in (\<open>embedded_io_async::Read + Write\<close>), so
  it is a parameter: what a read into \<open>n\<close> bytes and a write of some bytes do to the transport's
  own state \<open>'io\<close>. An operation that never completes is \<open>None\<close>: a pending read, or a loop
  that goes on for ever. Where the code relies on the transport to deliver a byte stream, that is
  the hypothesis \<open>stream_transport\<close>.
\<close>

text \<open>A read gives the bytes put into the buffer (none at the end of the stream) or an error; a
  write gives how many bytes were accepted or an error.\<close>

record 'io transport =
  io_read :: "'io \<Rightarrow> nat \<Rightarrow> (bytes option \<times> 'io) option"
  io_write :: "'io \<Rightarrow> bytes \<Rightarrow> (nat option \<times> 'io) option"

section \<open>The connection\<close>

text \<open>\<open>send\<close> drops the number of bytes the transport accepted.\<close>

definition send :: "'io transport \<Rightarrow> bytes \<Rightarrow> 'io \<Rightarrow> ((reason_code, unit) outcome \<times> 'io) option" where
  "send T buffer io =
     (case io_write T io buffer of
        None \<Rightarrow> None
      | Some (None, io') \<Rightarrow> Some (Err NetworkError, io')
      | Some (Some n, io') \<Rightarrow> Some (Ok (), io'))"

definition receive :: "'io transport \<Rightarrow> nat \<Rightarrow> 'io \<Rightarrow> ((reason_code, bytes) outcome \<times> 'io) option" where
  "receive T n io =
     (case io_read T io n of
        None \<Rightarrow> None
      | Some (None, io') \<Rightarrow> Some (Err NetworkError, io')
      | Some (Some chunk, io') \<Rightarrow> Some (Ok chunk, io'))"

section \<open>Receiving a packet\<close>

type_synonym 'io rx_state = "buff_writer \<times> bytes \<times> 'io"

text \<open>First loop: byte by byte until the remaining length is complete. The result is the number
  of bytes read and the four bytes of the length.\<close>

function receive_header :: "'io transport \<Rightarrow> nat \<Rightarrow> buff_writer \<Rightarrow> bytes \<Rightarrow> 'io \<Rightarrow>
    ((reason_code, nat \<times> bytes) outcome \<times> 'io rx_state) option" where
  "receive_header T i w recv io =
     (case slice recv (wr_position w) (wr_position w + 1) of
        None \<Rightarrow> Some (Panic, (w, recv, io))
      | Some _ \<Rightarrow>
      case receive T 1 io of
        None \<Rightarrow> None
      | Some (Err e, io') \<Rightarrow> Some (Err e, (w, recv, io'))
      | Some (Panic, io') \<Rightarrow> Some (Panic, (w, recv, io'))
      | Some (Ok chunk, io') \<Rightarrow>
          let len = length chunk; recv' = splice recv (wr_position w) chunk; i' = i + len in
          if len = 0 then Some (Err NetworkError, (w, recv', io'))
          else case slice recv' (wr_position w) i' of
            None \<Rightarrow> Some (Panic, (w, recv', io'))
          | Some part \<Rightarrow>
          case insert_ref len part w of
            (Err _, w') \<Rightarrow> Some (Err BuffError, (w', recv', io'))
          | (Panic, w') \<Rightarrow> Some (Panic, (w', recv', io'))
          | (Ok _, w') \<Rightarrow>
              if i' > 1
              then case get_rem_len w' of
                     Ok (Some v) \<Rightarrow> Some (Ok (i', v), (w', recv', io'))
                   | Ok None \<Rightarrow> if i' \<ge> 5 then Some (Err NetworkError, (w', recv', io'))
                               else receive_header T i' w' recv' io'
                   | Err _ \<Rightarrow> Some (Panic, (w', recv', io'))
                   | Panic \<Rightarrow> Some (Panic, (w', recv', io'))
              else receive_header T i' w' recv' io')"
  by pat_completeness auto
termination
  by (relation "measure (\<lambda>(T, i, w, recv, io). 5 - i)") (auto simp flip: length_greater_0_conv)

declare receive_header.simps [simp del]

text \<open>Second loop: the body, in as many reads as the transport needs. The slice handed to the
  writer starts at the cursor and has the length of all that was read so far.\<close>

partial_function (option) receive_body :: "'io transport \<Rightarrow> nat \<Rightarrow> nat \<Rightarrow> nat \<Rightarrow> buff_writer \<Rightarrow> bytes \<Rightarrow> 'io \<Rightarrow>
    ((reason_code, nat) outcome \<times> 'io rx_state) option" where
  "receive_body T target_len rem_len_len i w recv io =
     (if wr_position w = target_len + rem_len_len
      then Some (Ok (target_len + rem_len_len), (w, recv, io))
      else case slice recv (wr_position w) (wr_position w + (target_len - i)) of
        None \<Rightarrow> Some (Panic, (w, recv, io))
      | Some _ \<Rightarrow>
      (case receive T (target_len - i) io of
        None \<Rightarrow> None
      | Some (outcome.Err e, io') \<Rightarrow> Some (Err e, (w, recv, io'))
      | Some (outcome.Panic, io') \<Rightarrow> Some (Panic, (w, recv, io'))
      | Some (outcome.Ok chunk, io') \<Rightarrow>
          (let len = length chunk; recv' = splice recv (wr_position w) chunk; i' = i + len in
          case slice recv' (wr_position w) (wr_position w + i') of
            None \<Rightarrow> Some (Panic, (w, recv', io'))
          | Some part \<Rightarrow>
          (case insert_ref len part w of
            (outcome.Err _, w') \<Rightarrow> Some (Err BuffError, (w', recv', io'))
          | (outcome.Panic, w') \<Rightarrow> Some (Panic, (w', recv', io'))
          | (outcome.Ok _, w') \<Rightarrow> receive_body T target_len rem_len_len i' w' recv' io'))))"

definition receive_packet :: "'io transport \<Rightarrow> bytes \<Rightarrow> nat \<Rightarrow> bytes \<Rightarrow> 'io \<Rightarrow>
    ((reason_code, nat) outcome \<times> 'io rx_state) option" where
  "receive_packet T buffer buffer_len recv_buffer io =
     (case receive_header T 0 (writer_new buffer buffer_len) recv_buffer io of
        None \<Rightarrow> None
      | Some (Err e, s) \<Rightarrow> Some (Err e, s)
      | Some (Panic, s) \<Rightarrow> Some (Panic, s)
      | Some (Ok (rem_len_len, rem_len), (w, recv, io')) \<Rightarrow>
          case vbi_decode rem_len of
            Ok l \<Rightarrow> receive_body T (unat l) rem_len_len 0 w recv io'
          | Err _ \<Rightarrow> Some (Err BuffError, (w, recv, io'))
          | Panic \<Rightarrow> Some (Panic, (w, recv, io')))"

text \<open>The build with the feature \<open>tls\<close>, in which a read is to give one whole record: a single read.\<close>

definition receive_packet_tls :: "'io transport \<Rightarrow> bytes \<Rightarrow> nat \<Rightarrow> bytes \<Rightarrow> 'io \<Rightarrow>
    ((reason_code, nat) outcome \<times> 'io rx_state) option" where
  "receive_packet_tls T buffer buffer_len recv_buffer io =
     (let w = writer_new buffer buffer_len in
      case receive T (length recv_buffer) io of
        None \<Rightarrow> None
      | Some (Err e, io') \<Rightarrow> Some (Err e, (w, recv_buffer, io'))
      | Some (Panic, io') \<Rightarrow> Some (Panic, (w, recv_buffer, io'))
      | Some (Ok chunk, io') \<Rightarrow>
          let len = length chunk; recv' = splice recv_buffer 0 chunk in
          case slice recv' (wr_position w) (wr_position w + len) of
            None \<Rightarrow> Some (Panic, (w, recv', io'))
          | Some part \<Rightarrow>
          (case insert_ref len part w of
            (Err _, w') \<Rightarrow> Some (Err BuffError, (w', recv', io'))
          | (Panic, w') \<Rightarrow> Some (Panic, (w', recv', io'))
          | (Ok _, w') \<Rightarrow> Some (Ok len, (w', recv', io'))))"

section \<open>The hypotheses on a transport\<close>

text \<open>A byte stream: \<open>pend io\<close> are the bytes still to come; a read of at least one byte while
  bytes are to come delivers a non-empty prefix of them, of any size up to the buffer's.\<close>

definition stream_transport :: "'io transport \<Rightarrow> ('io \<Rightarrow> bytes) \<Rightarrow> bool" where
  "stream_transport T pend \<longleftrightarrow> (\<forall>io n. 0 < n \<longrightarrow> pend io \<noteq> [] \<longrightarrow>
     (\<exists>chunk io'. io_read T io n = Some (Some chunk, io') \<and> chunk \<noteq> [] \<and> length chunk \<le> n
        \<and> pend io = chunk @ pend io'))"

text \<open>A transport played from a script: the chunks a read finds, in order, each cut to the
  buffer; writes are recorded and each accepts at most as many bytes as planned.\<close>

record script =
  chunks :: "bytes list"
  closed :: bool
  accepts :: "nat list"
  sent :: "bytes list"

fun script_read :: "script \<Rightarrow> nat \<Rightarrow> (bytes option \<times> script) option" where
  "script_read io n = (case chunks io of
     [] \<Rightarrow> if closed io then Some (Some [], io) else None
   | c # cs \<Rightarrow> if length c \<le> n then Some (Some c, io\<lparr>chunks := cs\<rparr>)
               else Some (Some (take n c), io\<lparr>chunks := drop n c # cs\<rparr>))"

fun script_write :: "script \<Rightarrow> bytes \<Rightarrow> (nat option \<times> script) option" where
  "script_write io bs = (case accepts io of
     [] \<Rightarrow> Some (Some (length bs), io\<lparr>sent := sent io @ [bs]\<rparr>)
   | n # ns \<Rightarrow> Some (Some (min n (length bs)), io\<lparr>sent := sent io @ [take n bs], accepts := ns\<rparr>))"

definition script_transport :: "script transport" where
  "script_transport = \<lparr>io_read = script_read, io_write = script_write\<rparr>"

section \<open>The length on the wire, byte by byte\<close>

lemma insert_ref_put:
  "wr_inv w \<Longrightarrow> fits (take len part) w \<Longrightarrow> len \<le> length part \<Longrightarrow>
   insert_ref len part w = (Ok (), put_bytes (take len part) w)"
  using emitsD [OF emits_insert_ref] by blast

lemma get_rem_len_loop_word:
  "vbi_word bs \<Longrightarrow> buffer = h # ps @ bs @ cs \<Longrightarrow> length ps + length bs \<le> 4 \<Longrightarrow>
   length ps + length bs \<le> maxi \<Longrightarrow>
   get_rem_len_loop buffer maxi (Suc (length ps)) (ps @ replicate (4 - length ps) 0)
     = Ok (Some (ps @ bs @ replicate (4 - length ps - length bs) 0))"
proof (induction bs arbitrary: ps)
  case (Cons b bs)
  have nth: "buffer ! Suc (length ps) = b" using Cons.prems(2) by (simp add: nth_append)
  have ps: "length ps < 4" using Cons.prems(3) by simp
  then obtain m where m: "4 - length ps = Suc m" by (metis Suc_diff_Suc)
  have in_range: "Suc (length ps) < length buffer" using Cons.prems(2) by simp
  show ?case
  proof (cases "b AND 128 = 0")
    case True
    with Cons.prems nth ps m in_range show ?thesis
      by (subst get_rem_len_loop.simps) (simp add: list_update_append)
  next
    case False
    then have ne: "bs \<noteq> []" and w: "vbi_word bs" using Cons.prems(1) by auto
    have "get_rem_len_loop buffer maxi (Suc (length (ps @ [b]))) ((ps @ [b]) @ replicate (4 - length (ps @ [b])) 0)
        = Ok (Some ((ps @ [b]) @ bs @ replicate (4 - length (ps @ [b]) - length bs) 0))"
      by (rule Cons.IH) (use Cons.prems False w in auto)
    moreover have "4 - length (ps @ [b]) = m" using m by simp
    moreover have "Suc (length ps) \<noteq> maxi" using Cons.prems(4) ne by (cases bs) auto
    ultimately show ?thesis using False nth ps m in_range
      by (subst get_rem_len_loop.simps) (simp add: list_update_append Let_def)
  qed
qed simp

lemma get_rem_len_loop_open:
  "\<forall>b \<in> set qs. b AND 128 \<noteq> 0 \<Longrightarrow> qs \<noteq> [] \<Longrightarrow> buffer = h # ps @ qs @ cs \<Longrightarrow> length ps + length qs < 4 \<Longrightarrow>
   get_rem_len_loop buffer (length ps + length qs) (Suc (length ps)) (ps @ replicate (4 - length ps) 0) = Ok None"
proof (induction qs arbitrary: ps)
  case (Cons b bs)
  have nth: "buffer ! Suc (length ps) = b" using Cons.prems(3) by (simp add: nth_append)
  have ps: "length ps < 4" using Cons.prems(4) by simp
  then obtain m where m: "4 - length ps = Suc m" by (metis Suc_diff_Suc)
  have in_range: "Suc (length ps) < length buffer" using Cons.prems(3) by simp
  have c: "b AND 128 \<noteq> 0" using Cons.prems(1) by simp
  show ?case
  proof (cases "bs = []")
    case True
    with Cons.prems nth ps m in_range c show ?thesis
      by (subst get_rem_len_loop.simps) (simp add: list_update_append Let_def)
  next
    case False
    have "get_rem_len_loop buffer (length (ps @ [b]) + length bs) (Suc (length (ps @ [b])))
        ((ps @ [b]) @ replicate (4 - length (ps @ [b])) 0) = Ok None"
      by (rule Cons.IH) (use Cons.prems False in auto)
    moreover have "4 - length (ps @ [b]) = m" using m by simp
    ultimately show ?thesis using False c nth ps m in_range
      by (subst get_rem_len_loop.simps) (simp add: list_update_append Let_def)
  qed
qed simp

lemma stream_read1:
  assumes "stream_transport T pend" "pend io = b # bs"
  shows "\<exists>io'. receive T 1 io = Some (Ok [b], io') \<and> pend io' = bs"
proof -
  from assms obtain chunk io' where c: "io_read T io 1 = Some (Some chunk, io')" "chunk \<noteq> []"
    "length chunk \<le> 1" "b # bs = chunk @ pend io'"
    unfolding stream_transport_def by (metis less_one list.discI zero_less_one)
  then have "chunk = [b]" by (cases chunk) auto
  with c show ?thesis by (simp add: receive_def)
qed

lemma wr_new_simps [simp]:
  "wr_position (writer_new buf n) = 0" "wr_buffer (writer_new buf n) = buf" "wr_len (writer_new buf n) = n"
  by (simp_all add: writer_new_def)

lemma put_bytes_new_buffer:
  "wr_buffer (put_bytes bs (writer_new buf n)) = bs @ drop (length bs) buf"
  by (simp add: put_bytes_def splice_def)

lemma get_rem_len_partial:
  assumes bs: "vbi_word bs" "length bs \<le> 4" and k: "1 \<le> k" "k \<le> length bs"
  shows "get_rem_len (put_bytes (h # take k bs) (writer_new buf n))
    = (if k = length bs then Ok (Some (bs @ replicate (4 - length bs) 0)) else Ok None)"
proof -
  let ?w = "put_bytes (h # take k bs) (writer_new buf n)"
  have pos: "wr_position ?w = Suc k" using k by (simp add: min_def)
  have maxi: "(if wr_position ?w \<ge> 5 then 4 else if wr_position ?w = 0 then 2 ^ 32 - 1 else wr_position ?w - 1) = k"
    using k bs(2) unfolding pos by simp
  have zeros: "[0, 0, 0, 0] = replicate 4 (0 :: u8)" by code_simp
  show ?thesis
  proof (cases "k = length bs")
    case True
    have b: "wr_buffer ?w = h # [] @ bs @ drop (Suc k) buf"
      using True by (simp add: put_bytes_new_buffer)
    have "get_rem_len_loop (wr_buffer ?w) k (Suc (length ([] :: bytes))) ([] @ replicate (4 - length ([] :: bytes)) 0)
        = Ok (Some ([] @ bs @ replicate (4 - length ([] :: bytes) - length bs) 0))"
      by (rule get_rem_len_loop_word [OF bs(1) b]) (use bs True in simp_all)
    then show ?thesis using True unfolding get_rem_len_def Let_def maxi zeros by simp
  next
    case False
    then have k': "k < length bs" using k by simp
    have b: "wr_buffer ?w = h # [] @ take k bs @ drop (Suc k) buf"
      using k by (simp add: put_bytes_new_buffer min_def)
    have ne: "take k bs \<noteq> []" using k by (cases bs) auto
    have l: "length (take k bs) = k" using k by simp
    have "get_rem_len_loop (wr_buffer ?w) (length ([] :: bytes) + length (take k bs)) (Suc (length ([] :: bytes)))
        ([] @ replicate (4 - length ([] :: bytes)) 0) = Ok None"
      by (rule get_rem_len_loop_open [OF vbi_word_long [OF bs(1) k'] ne b]) (use k' bs(2) in simp)
    then show ?thesis using False unfolding get_rem_len_def Let_def maxi zeros l by simp
  qed
qed

lemma slice_splice_at: "p + length ys \<le> length xs \<Longrightarrow> slice (splice xs p ys) p (p + length ys) = Some ys"
  by (simp add: slice_def splice_def)

lemma receive_header_reads:
  assumes T: "stream_transport T pend" and bs: "1 \<le> length bs" "length bs \<le> 4"
    and grl: "\<And>k. 1 \<le> k \<Longrightarrow> k \<le> length bs \<Longrightarrow> get_rem_len (put_bytes (h # take k bs) (writer_new buf n))
      = (if k = length bs then Ok (Some v) else Ok None)"
    and n: "n \<le> length buf" "Suc (length bs) \<le> n"
  shows "k \<le> length bs \<Longrightarrow> pend io = drop k (h # bs) @ rest \<Longrightarrow> Suc (length bs) \<le> length recv \<Longrightarrow>
    w = put_bytes (take k (h # bs)) (writer_new buf n) \<Longrightarrow>
    \<exists>io' recv'. receive_header T k w recv io =
        Some (Ok (Suc (length bs), v), (put_bytes (h # bs) (writer_new buf n), recv', io'))
      \<and> pend io' = rest \<and> length recv' = length recv"
proof (induction "length bs - k" arbitrary: k io recv w rule: less_induct)
  case less
  let ?b = "(h # bs) ! k"
  have dr: "drop k (h # bs) = ?b # drop (Suc k) (h # bs)"
    using less.prems(1) by (metis Cons_nth_drop_Suc length_Cons less_Suc_eq_le)
  obtain io' where io': "receive T 1 io = Some (Ok [?b], io')" "pend io' = drop (Suc k) (h # bs) @ rest"
    using stream_read1 [OF T, of io ?b "drop (Suc k) (h # bs) @ rest"] less.prems(2) dr by auto
  have pos: "wr_position w = k" using less.prems(1,4) by (simp add: min_def)
  have sl: "slice recv k (k + 1) = Some (take 1 (drop k recv))"
    using less.prems(1,3) by (simp add: slice_def)
  have sl': "slice (splice recv k [?b]) k (k + 1) = Some [?b]"
    using slice_splice_at [of k "[?b]" recv] less.prems(1,3) by simp
  have tk: "take (Suc k) (h # bs) = take k (h # bs) @ [?b]"
    by (rule take_Suc_conv_app_nth) (use less.prems(1) in simp)
  have inv0: "wr_inv (writer_new buf n)" by (simp add: wr_inv_def n(1))
  have f0: "fits (take k (h # bs)) (writer_new buf n)" and f1: "fits (take (Suc k) (h # bs)) (writer_new buf n)"
    using n(2) less.prems(1) by (simp_all add: fits_def)
  have inv: "wr_inv w" unfolding less.prems(4) by (rule wr_inv_put_bytes [OF inv0 f0])
  have f: "fits [?b] w" using f1 unfolding tk fits_put_bytes less.prems(4) by simp
  have w': "put_bytes [?b] w = put_bytes (take (Suc k) (h # bs)) (writer_new buf n)"
    using put_bytes_append [OF inv0 f1 [unfolded tk]] unfolding less.prems(4) tk .
  have ins: "insert_ref (length [?b]) [?b] w = (Ok (), put_bytes (take (Suc k) (h # bs)) (writer_new buf n))"
    using insert_ref_put [OF inv, of "length [?b]" "[?b]"] f by (simp add: w' del: take_Suc_Cons)
  have len': "length (splice recv k [?b]) = length recv" using less.prems(1,3) by simp
  have l1: "length [?b] = 1" by simp
  have step: "receive_header T k w recv io =
      (if k + 1 > 1
       then case get_rem_len (put_bytes (take (Suc k) (h # bs)) (writer_new buf n)) of
              Ok (Some x) \<Rightarrow> Some (Ok (k + 1, x), (put_bytes (take (Suc k) (h # bs)) (writer_new buf n), splice recv k [?b], io'))
            | Ok None \<Rightarrow> if k + 1 \<ge> 5 then Some (Err NetworkError, (put_bytes (take (Suc k) (h # bs)) (writer_new buf n), splice recv k [?b], io'))
                   else receive_header T (k + 1) (put_bytes (take (Suc k) (h # bs)) (writer_new buf n)) (splice recv k [?b]) io'
            | Err _ \<Rightarrow> Some (Panic, (put_bytes (take (Suc k) (h # bs)) (writer_new buf n), splice recv k [?b], io'))
            | Panic \<Rightarrow> Some (Panic, (put_bytes (take (Suc k) (h # bs)) (writer_new buf n), splice recv k [?b], io'))
       else receive_header T (k + 1) (put_bytes (take (Suc k) (h # bs)) (writer_new buf n)) (splice recv k [?b]) io')"
    by (subst receive_header.simps)
      (simp only: pos sl option.case io'(1) prod.case outcome.case Let_def l1 sl' ins [unfolded l1]
        one_neq_zero if_False)
  show ?case
  proof (cases "k = length bs")
    case True
    then have k: "1 \<le> k" using bs(1) by simp
    then have g: "get_rem_len (put_bytes (take (Suc k) (h # bs)) (writer_new buf n)) = Ok (Some (v))"
      using grl [OF k] True by simp
    have c: "k + 1 > 1" using k by simp
    have "receive_header T k w recv io = Some (Ok (k + 1, v),
        (put_bytes (take (Suc k) (h # bs)) (writer_new buf n), splice recv k [?b], io'))"
      unfolding step g by (simp only: c if_True outcome.case option.case)
    moreover have "take (Suc k) (h # bs) = h # bs" "pend io' = rest" using True io'(2) by simp_all
    ultimately show ?thesis using True len' by (metis Suc_eq_plus1)
  next
    case False
    then have k: "Suc k \<le> length bs" using less.prems(1) by simp
    have "get_rem_len (put_bytes (take (Suc k) (h # bs)) (writer_new buf n)) = Ok None" if "1 \<le> k"
      using grl [OF that] False k by simp
    then have "receive_header T k w recv io = receive_header T (Suc k) (put_bytes (take (Suc k) (h # bs)) (writer_new buf n)) (splice recv k [?b]) io'"
      using k bs(2) unfolding step by simp
    moreover have "\<exists>io'' recv'. receive_header T (Suc k) (put_bytes (take (Suc k) (h # bs)) (writer_new buf n)) (splice recv k [?b]) io' =
        Some (Ok (Suc (length bs), v), (put_bytes (h # bs) (writer_new buf n), recv', io''))
      \<and> pend io'' = rest \<and> length recv' = length (splice recv k [?b])"
      by (rule less.hyps) (use k io'(2) len' less.prems(3) in auto)
    ultimately show ?thesis unfolding len' by simp
  qed
qed

section \<open>The body, in fragments\<close>

lemma receive_body_step:
  assumes pos: "wr_position w = rlen + i" and i: "i < target"
    and recv: "rlen + target \<le> length recv"
    and rd: "receive T (target - i) io = Some (Ok chunk, io')" "length chunk \<le> target - i"
    and w: "wr_inv w" "fits chunk w"
  shows "receive_body T target rlen i w recv io =
    (if length recv < rlen + i + (i + length chunk) then Some (Panic, (w, splice recv (rlen + i) chunk, io'))
     else receive_body T target rlen (i + length chunk) (put_bytes chunk w) (splice recv (rlen + i) chunk) io')"
proof -
  have sl: "slice recv (rlen + i) (rlen + i + (target - i)) = Some (take (target - i) (drop (rlen + i) recv))"
    using i recv by (simp add: slice_def)
  have len': "length (splice recv (rlen + i) chunk) = length recv"
    using i recv rd(2) by (intro length_splice) simp
  have ne: "rlen + i \<noteq> target + rlen" using i by simp
  note step = receive_body.simps [of T target rlen i w recv io, unfolded pos if_not_P [OF ne] sl option.case rd(1) prod.case outcome.case Let_def]
  show ?thesis
  proof (cases "length recv < rlen + i + (i + length chunk)")
    case True
    then have "slice (splice recv (rlen + i) chunk) (rlen + i) (rlen + i + (i + length chunk)) = None"
      by (simp add: slice_def len')
    then show ?thesis unfolding step using True by simp
  next
    case False
    let ?part = "take (i + length chunk) (drop (rlen + i) (splice recv (rlen + i) chunk))"
    have sl': "slice (splice recv (rlen + i) chunk) (rlen + i) (rlen + i + (i + length chunk)) = Some ?part"
      using False by (simp add: slice_def len')
    have "drop (rlen + i) (splice recv (rlen + i) chunk) = chunk @ drop (rlen + i + length chunk) recv"
      using i recv by (simp add: splice_def)
    then have part: "take (length chunk) ?part = chunk" "length chunk \<le> length ?part"
      using False by (simp_all add: min_def)
    have "insert_ref (length chunk) ?part w = (Ok (), put_bytes chunk w)"
      using insert_ref_put [OF w(1), of "length chunk" ?part] part w(2) by simp
    then show ?thesis unfolding step sl' using False by simp
  qed
qed

lemma receive_body_done:
  "wr_position w = target + rlen \<Longrightarrow> receive_body T target rlen i w recv io = Some (Ok (target + rlen), (w, recv, io))"
  by (subst receive_body.simps) simp

lemma receive_body_reads:
  assumes T: "stream_transport T pend"
  shows "wr_inv w \<Longrightarrow> fits body w \<Longrightarrow> wr_position w = rlen + i \<Longrightarrow> i + length body = target \<Longrightarrow>
    pend io = body @ rest \<Longrightarrow> rlen + 2 * target \<le> length recv \<Longrightarrow>
    \<exists>recv' io'. receive_body T target rlen i w recv io = Some (Ok (target + rlen), (put_bytes body w, recv', io'))
      \<and> pend io' = rest \<and> length recv' = length recv"
proof (induction "length body" arbitrary: body w i recv io rule: less_induct)
  case less
  show ?case
  proof (cases "body = []")
    case True
    with less.prems show ?thesis by (simp add: receive_body_done)
  next
    case False
    then have i: "i < target" using less.prems(4) by (cases body) auto
    obtain chunk io' where c: "io_read T io (target - i) = Some (Some chunk, io')" "chunk \<noteq> []"
      "length chunk \<le> target - i" "body @ rest = chunk @ pend io'"
      using T i False less.prems(5) unfolding stream_transport_def
      by (metis append_is_Nil_conv zero_less_diff)
    have "length chunk \<le> length body" using c(3) less.prems(4) by simp
    then obtain body' where body: "body = chunk @ body'" "pend io' = body' @ rest"
      using c(4) by (metis append_eq_append_conv_if append_eq_conv_conj append_take_drop_id)
    have fc: "fits chunk w" and fb: "fits body' (put_bytes chunk w)"
      using less.prems(2) by (simp_all add: body(1) fits_put_bytes)
    have rd: "receive T (target - i) io = Some (Ok chunk, io')" using c(1) by (simp add: receive_def)
    have nl: "\<not> length recv < rlen + i + (i + length chunk)" using i c(3) less.prems(6) by simp
    have "rlen + target \<le> length recv" using less.prems(6) by simp
    note step = receive_body_step [OF less.prems(3) i this rd c(3) less.prems(1) fc, unfolded if_not_P [OF nl]]
    have len: "length (splice recv (rlen + i) chunk) = length recv"
      using less.prems(6) i c(3) by (intro length_splice) simp
    have "\<exists>recv' io''. receive_body T target rlen (i + length chunk) (put_bytes chunk w) (splice recv (rlen + i) chunk) io'
        = Some (Ok (target + rlen), (put_bytes body' (put_bytes chunk w), recv', io'')) \<and> pend io'' = rest
          \<and> length recv' = length (splice recv (rlen + i) chunk)"
    proof (rule less.hyps)
      show "length body' < length body" using c(2) body(1) by (cases chunk) auto
      show "wr_inv (put_bytes chunk w)" by (rule wr_inv_put_bytes [OF less.prems(1) fc])
      show "rlen + 2 * target \<le> length (splice recv (rlen + i) chunk)" using less.prems(6) len by simp
    qed (use less.prems(3,4) body fb in auto)
    then show ?thesis
      unfolding step len using put_bytes_append [OF less.prems(1), of chunk body'] less.prems(2) body(1) by simp
  qed
qed

text \<open>Reading a packet leaves alone whatever a single read of the transport leaves alone.\<close>

definition reads_keep :: "'io transport \<Rightarrow> ('io \<Rightarrow> 'l) \<Rightarrow> bool" where
  "reads_keep T log \<longleftrightarrow> (\<forall>io n r io'. io_read T io n = Some (r, io') \<longrightarrow> log io' = log io)"

lemma receive_keeps: "reads_keep T log \<Longrightarrow> receive T n io = Some (r, io') \<Longrightarrow> log io' = log io"
  by (auto simp: reads_keep_def receive_def split: option.splits)

lemma receive_header_keeps:
  assumes "reads_keep T log"
  shows "receive_header T i w recv io = Some (r, (w', recv', io')) \<Longrightarrow> log io' = log io"
proof (induction "5 - i" arbitrary: i w recv io rule: less_induct)
  case less
  have ih: "log io' = log io1" if "receive_header T (i + k) w1 recv1 io1 = Some (r, (w', recv', io'))" "0 < k" "i + k < 5" for k w1 recv1 io1
    using less.hyps [OF _ that(1)] that(2,3) by simp
  show ?case
    using less.prems unfolding receive_header.simps [of T i w recv io] Let_def
    by (auto split: option.splits prod.splits outcome.splits if_splits dest: receive_keeps [OF assms] dest!: ih simp del: One_nat_def)
qed

lemma receive_body_keeps:
  assumes "receive_body T n rl i w recv io = Some y"
  shows "reads_keep T log \<longrightarrow> log (snd (snd (snd y))) = log io"
proof (rule receive_body.raw_induct [OF _ assms,
      where P = "\<lambda>T n rl i w recv io y. reads_keep T log \<longrightarrow> log (snd (snd (snd y))) = log io"], goal_cases)
  case (1 f T n rl i w recv io y)
  show ?case
    using 1(2) unfolding Let_def
    by (auto split: option.splits prod.splits outcome.splits if_splits dest: receive_keeps dest!: 1(1))
qed

lemma receive_packet_keeps:
  assumes "reads_keep T log" "receive_packet T buf n recv io = Some (r, (w, recv', io'))"
  shows "log io' = log io"
  using assms(2) receive_header_keeps [OF assms(1), of 0 "writer_new buf n" recv io] receive_body_keeps [of T] assms(1)
  by (fastforce simp: receive_packet_def split: option.splits prod.splits outcome.splits)

text \<open>At the end of the stream inside a packet, every further read gives no bytes and changes
  nothing: the loop does not end.\<close>

definition eof_state :: "'io transport \<Rightarrow> 'io \<Rightarrow> 'io transport \<Rightarrow> nat \<Rightarrow> nat \<Rightarrow> nat \<Rightarrow> buff_writer \<Rightarrow> bytes \<Rightarrow> 'io \<Rightarrow> bool" where
  "eof_state T io T' target rlen i w recv io' \<longleftrightarrow> T' = T \<and> io' = io \<and> wr_inv w \<and> wr_position w = rlen + i \<and>
     i < target \<and> rlen + target \<le> length recv \<and> rlen + i + i \<le> length recv"

lemma receive_body_eof_diverges:
  assumes eof: "\<And>n. io_read T io n = Some (Some [], io)"
    and st: "eof_state T io T target rlen i w recv io"
  shows "receive_body T target rlen i w recv io = None"
proof -
  have "\<not> eof_state T io T' target rlen i w recv io'" if "receive_body T' target rlen i w recv io' = Some y"
    for T' target rlen i w recv io' y
    using that
  proof (rule receive_body.raw_induct [where P = "\<lambda>T' target rlen i w recv io' y. \<not> eof_state T io T' target rlen i w recv io'", rotated])
    fix f :: "'a transport \<Rightarrow> nat \<Rightarrow> nat \<Rightarrow> nat \<Rightarrow> buff_writer \<Rightarrow> bytes \<Rightarrow> 'a \<Rightarrow> ((reason_code, nat) outcome \<times> 'a rx_state) option"
      and T' target rlen i w recv io' y
    assume IH: "\<And>T' target rlen i w recv io' y. f T' target rlen i w recv io' = Some y \<Longrightarrow>
        \<not> eof_state T io T' target rlen i w recv io'"
      and body: "(if wr_position w = target + rlen then Some (Ok (target + rlen), (w, recv, io'))
      else case slice recv (wr_position w) (wr_position w + (target - i)) of
        None \<Rightarrow> Some (Panic, (w, recv, io'))
      | Some _ \<Rightarrow>
      (case receive T' (target - i) io' of
        None \<Rightarrow> None
      | Some (Err e, io'') \<Rightarrow> Some (Err e, (w, recv, io''))
      | Some (Panic, io'') \<Rightarrow> Some (Panic, (w, recv, io''))
      | Some (Ok chunk, io'') \<Rightarrow>
          (let len = length chunk; recv' = splice recv (wr_position w) chunk; i' = i + len in
          case slice recv' (wr_position w) (wr_position w + i') of
            None \<Rightarrow> Some (Panic, (w, recv', io''))
          | Some part \<Rightarrow>
          (case insert_ref len part w of
            (Err _, w') \<Rightarrow> Some (Err BuffError, (w', recv', io''))
          | (Panic, w') \<Rightarrow> Some (Panic, (w', recv', io''))
          | (Ok _, w') \<Rightarrow> f T' target rlen i' w' recv' io'')))) = Some y"
    show "\<not> eof_state T io T' target rlen i w recv io'"
    proof
      assume s: "eof_state T io T' target rlen i w recv io'"
      note c = s [unfolded eof_state_def]
      have rd: "receive T' (target - i) io' = Some (Ok [], io)" using eof c by (simp add: receive_def)
      have ne: "wr_position w \<noteq> target + rlen" using c by simp
      have sl: "slice recv (wr_position w) (wr_position w + (target - i)) = Some (take (target - i) (drop (rlen + i) recv))"
        and sl': "slice recv (wr_position w) (wr_position w + i) = Some (take i (drop (rlen + i) recv))"
        using c by (simp_all add: slice_def)
      have w: "wr_inv w" using c by simp
      have ins: "insert_ref 0 part w = (Ok (), w)" for part
        using insert_ref_put [OF w, of 0 part] fits_Nil [OF w] by simp
      from body have "f T' target rlen i w recv io = Some y"
        using ne by (simp add: sl rd sl' ins)
      from IH [OF this] s c show False by simp
    qed
  qed
  with st show ?thesis by (metis not_None_eq)
qed

lemma get_rem_len_overlong:
  assumes bs: "length bs = 4" "\<forall>b \<in> set bs. b AND 128 \<noteq> 0" and k: "1 \<le> k" "k \<le> length bs"
  shows "get_rem_len (put_bytes (h # take k bs) (writer_new buf n)) = (if k = length bs then Ok (Some bs) else Ok None)"
proof -
  let ?w = "put_bytes (h # take k bs) (writer_new buf n)"
  have pos: "wr_position ?w = Suc k" using k by (simp add: min_def)
  have maxi: "(if wr_position ?w \<ge> 5 then 4 else if wr_position ?w = 0 then 2 ^ 32 - 1 else wr_position ?w - 1) = k"
    using k bs(1) unfolding pos by simp
  have b: "wr_buffer ?w = h # [] @ take k bs @ drop (Suc k) buf"
    using k by (simp add: put_bytes_new_buffer min_def)
  show ?thesis
  proof (cases "k = length bs")
    case True
    obtain a c d e where "bs = [a, c, d, e]" using bs(1) by (auto simp: length_Suc_conv eval_nat_numeral)
    then show ?thesis
      using True bs(2) unfolding get_rem_len_def Let_def maxi b
      by (simp add: get_rem_len_loop.simps)
  next
    case False
    have zeros: "[0, 0, 0, 0] = replicate 4 (0 :: u8)" by code_simp
    have l: "length (take k bs) = k" using k by simp
    have c: "\<forall>b \<in> set (take k bs). b AND 128 \<noteq> 0" using bs(2) by (auto dest: in_set_takeD)
    have ne: "take k bs \<noteq> []" using k by (cases bs) auto
    have "get_rem_len_loop (wr_buffer ?w) (length ([] :: bytes) + length (take k bs)) (Suc (length ([] :: bytes)))
        ([] @ replicate (4 - length ([] :: bytes)) 0) = Ok None"
      by (rule get_rem_len_loop_open [OF c ne b]) (use False k bs(1) in simp)
    then show ?thesis using False unfolding get_rem_len_def Let_def maxi zeros l by simp
  qed
qed

text \<open>The scripted transport is a byte stream as long as its chunks are not empty.\<close>

definition script_pend :: "script \<Rightarrow> bytes" where
  "script_pend io = concat (takeWhile (\<lambda>c. c \<noteq> []) (chunks io))"

lemma stream_script: "stream_transport script_transport script_pend"
  unfolding stream_transport_def
proof (intro allI impI)
  fix io n assume n: "0 < (n :: nat)" and "script_pend io \<noteq> []"
  then obtain c cs where c: "chunks io = c # cs" "c \<noteq> []"
    by (cases "chunks io") (auto simp: script_pend_def split: if_splits)
  show "\<exists>chunk io'. io_read script_transport io n = Some (Some chunk, io') \<and> chunk \<noteq> [] \<and> length chunk \<le> n
        \<and> script_pend io = chunk @ script_pend io'"
    using n c by (cases "length c \<le> n") (auto simp: script_transport_def script_pend_def)
qed

section \<open>Properties\<close>

lemma receive_packet_run:
  assumes "stream_transport T pend" "pend io = (h # vbi_bytes m @ body) @ rest"
    and "unat m = length body" "length body \<le> 268435455"
    and "n \<le> length buf" "length (h # vbi_bytes m @ body) \<le> n"
    and "length (h # vbi_bytes m @ body) + length body \<le> length recv"
  shows "\<exists>recv' io'. receive_packet T buf n recv io =
      Some (Ok (length (h # vbi_bytes m @ body)), (put_bytes (h # vbi_bytes m @ body) (writer_new buf n), recv', io'))
    \<and> pend io' = rest \<and> length recv' = length recv"
proof -
  have m28: "unat m \<le> 268435455" using assms(3,4) by simp
  let ?v = "vbi_bytes m" and ?w = "put_bytes (h # vbi_bytes m) (writer_new buf n)"
  have wd: "vbi_word ?v" and v4: "length ?v \<le> 4" by (rule vbi_word_bytes [OF m28], rule vbi_groups_4_length)
  have "Suc (length ?v) \<le> n" "Suc (length ?v) \<le> length recv" using assms(6,7) by simp_all
  then obtain io1 recv1 where hdr: "receive_header T 0 (writer_new buf n) recv io =
      Some (Ok (Suc (length ?v), ?v @ replicate (4 - length ?v) 0), (?w, recv1, io1))"
    "pend io1 = body @ rest" "length recv1 = length recv"
    using receive_header_reads [OF assms(1) vbi_word_nonempty [OF wd] v4 get_rem_len_partial [OF wd v4] assms(5),
        of 0 io h "body @ rest" recv "writer_new buf n"] assms(2)
    by auto
  have dec: "vbi_decode (?v @ replicate (4 - length ?v) 0) = Ok m"
    using vbi_decode_value [of "?v @ replicate (4 - length ?v) 0"] v4 vbi_ends_append [OF vbi_ends_bytes [OF m28]]
      vbi_value_bytes [OF m28] by simp
  have inv0: "wr_inv (writer_new buf n)" using assms(5) by (simp add: wr_inv_def)
  have fh: "fits (h # ?v) (writer_new buf n)" and fall: "fits ((h # ?v) @ body) (writer_new buf n)"
    using assms(6) by (simp_all add: fits_def)
  have winv: "wr_inv ?w" by (rule wr_inv_put_bytes [OF inv0 fh])
  have fb: "fits body ?w" using fall by (simp only: fits_put_bytes)
  have "\<exists>recv' io'. receive_body T (unat m) (Suc (length ?v)) 0 ?w recv1 io1
      = Some (Ok (unat m + Suc (length ?v)), (put_bytes body ?w, recv', io')) \<and> pend io' = rest
      \<and> length recv' = length recv1"
    by (rule receive_body_reads [OF assms(1) winv fb]) (use assms(3,7) hdr(2,3) in simp_all)
  moreover have "put_bytes body ?w = put_bytes (h # ?v @ body) (writer_new buf n)"
    using put_bytes_append [OF inv0 fall] by simp
  ultimately show ?thesis
    using assms(3) by (simp add: receive_packet_def hdr(1,3) dec ac_simps)
qed

text \<open>
  C10. Reception of a packet over a byte stream that may deliver it in fragments of any size: if the
  working buffer holds the packet and the receive buffer has room for it and once more its body,
  exactly the packet is taken from the stream and stands at the start of the buffer, and its
  length is returned.
\<close>

theorem receive_packet_correct:
  assumes "stream_transport T pend" "pend io = (h # vbi_bytes m @ body) @ rest"
    and "unat m = length body" "length body \<le> 268435455"
    and "n \<le> length buf" "length (h # vbi_bytes m @ body) \<le> n"
    and "length (h # vbi_bytes m @ body) + length body \<le> length recv"
  shows "\<exists>recv' io'. receive_packet T buf n recv io =
      Some (Ok (length (h # vbi_bytes m @ body)), (put_bytes (h # vbi_bytes m @ body) (writer_new buf n), recv', io'))
    \<and> pend io' = rest \<and> length recv' = length recv"
  using assms by (rule receive_packet_run)

theorem receive_packet_correct_witness:
  "\<exists>recv' io'. receive_packet script_transport (replicate 8 0) 8 (replicate 12 0)
        \<lparr>chunks = [[0x40, 3, 0], [9, 0, 0xD0], [0]], closed = True, accepts = [], sent = []\<rparr> =
      Some (Ok (length (0x40 # vbi_bytes 3 @ [0, 9, 0])),
        (put_bytes (0x40 # vbi_bytes 3 @ [0, 9, 0]) (writer_new (replicate 8 0) 8), recv', io'))
    \<and> script_pend io' = [0xD0, 0] \<and> length recv' = length (replicate 12 (0 :: u8))"
proof -
  have v: "vbi_bytes 3 = [3]" by code_simp
  show ?thesis
    by (rule receive_packet_correct [OF stream_script]) (simp_all add: v script_pend_def)
qed

text \<open>
  A receive buffer that holds the packet but not more is not enough: a body that arrives in
  two reads makes the second round slice beyond the receive buffer, and the client panics. The
  place where the body is cut does not matter.
\<close>

theorem fragmented_body_panics:
  assumes "b1 \<noteq> []" "b2 \<noteq> []" "target = length b1 + length b2"
    and "receive T target io = Some (Ok b1, io1)" "receive T (length b2) io1 = Some (Ok b2, io2)"
    and "wr_inv w" "fits (b1 @ b2) w" "wr_position w = rlen" "length recv = rlen + target"
  shows "\<exists>s. receive_body T target rlen 0 w recv io = Some (Panic, s)"
proof -
  have f1: "fits b1 w" and f2: "fits b2 (put_bytes b1 w)" using assms(7) by (simp_all add: fits_put_bytes)
  have p0: "wr_position w = rlen + 0" and t: "0 < target" and l: "rlen + target \<le> length recv"
    using assms(1,3,8,9) by auto
  have r0: "receive T (target - 0) io = Some (Ok b1, io1)" "length b1 \<le> target - 0" using assms(3,4) by simp_all
  let ?recv = "splice recv (rlen + 0) b1"
  have "receive_body T target rlen 0 w recv io = receive_body T target rlen (0 + length b1) (put_bytes b1 w) ?recv io1"
    using receive_body_step [OF p0 t l r0 assms(6) f1] assms(3,9) by simp
  also have "\<dots> = Some (Panic, (put_bytes b1 w, splice ?recv (rlen + (0 + length b1)) b2, io2))"
  proof -
    have len: "length ?recv = length recv" using assms(3,9) by (intro length_splice) simp
    have p1: "wr_position (put_bytes b1 w) = rlen + (0 + length b1)" and t1: "0 + length b1 < target"
      using assms(2,3,8) by auto
    have l1: "rlen + target \<le> length ?recv" using l len by simp
    have r1: "receive T (target - (0 + length b1)) io1 = Some (Ok b2, io2)" "length b2 \<le> target - (0 + length b1)"
      using assms(3,5) by simp_all
    have big: "length ?recv < rlen + (0 + length b1) + (0 + length b1 + length b2)"
      unfolding len using assms(1,3,9) by (cases b1) auto
    show ?thesis
      using receive_body_step [OF p1 t1 l1 r1 wr_inv_put_bytes [OF assms(6) f1] f2] big by (simp only: if_True)
  qed
  finally show ?thesis by blast
qed

theorem fragmented_body_panics_witness:
  "\<exists>s. receive_body script_transport 4 2 0 (put_bytes [0x30, 4] (writer_new (replicate 6 0) 6)) (replicate 6 0)
     \<lparr>chunks = [[0], [1, 97, 0]], closed = False, accepts = [], sent = []\<rparr> = Some (Panic, s)"
  by (rule fragmented_body_panics [of "[0]" "[1, 97, 0]" 4 script_transport _
        "\<lparr>chunks = [[1, 97, 0]], closed = False, accepts = [], sent = []\<rparr>"
        "\<lparr>chunks = [], closed = False, accepts = [], sent = []\<rparr>"])
    (simp_all add: receive_def script_transport_def wr_inv_def fits_def put_bytes_def)

text \<open>
  C40. If the peer closes the connection inside a packet, reception never returns: every further
  read gives 0 bytes, which the loop over the body does not test for.
\<close>

theorem eof_in_body_never_returns:
  assumes "\<forall>n. io_read T io n = Some (Some [], io)" "eof_state T io T target rlen i w recv io"
  shows "receive_body T target rlen i w recv io = None"
  using assms by (intro receive_body_eof_diverges) auto

theorem eof_in_body_never_returns_witness:
  "receive_body script_transport 4 2 1 (put_bytes [0x30, 4, 0] (writer_new (replicate 6 0) 6)) (replicate 6 0)
     \<lparr>chunks = [], closed = True, accepts = [], sent = []\<rparr> = None"
  by (rule eof_in_body_never_returns)
    (simp_all add: script_transport_def eof_state_def wr_inv_def put_bytes_def)

text \<open>
  A peer that sends a header byte and four bytes with the continuation bit makes the client
  panic: the length is handed to the decoder, which reads past its four bytes. The error return the
  code has for this case is not reached.
\<close>

theorem overlong_length_panics:
  assumes "stream_transport T pend" "pend io = (h # bs) @ rest" "length bs = 4"
    and "\<forall>b \<in> set bs. b AND 128 \<noteq> 0"
    and "n \<le> length buf" "5 \<le> n" "5 \<le> length recv"
  shows "\<exists>s. receive_packet T buf n recv io = Some (Panic, s)"
proof -
  have l: "1 \<le> length bs" "length bs \<le> 4" "Suc (length bs) \<le> n" "Suc (length bs) \<le> length recv"
    using assms(3,6,7) by simp_all
  obtain io1 recv1 where "receive_header T 0 (writer_new buf n) recv io =
      Some (Ok (Suc (length bs), bs), (put_bytes (h # bs) (writer_new buf n), recv1, io1))"
    using receive_header_reads [OF assms(1) l(1,2) get_rem_len_overlong [OF assms(3,4)] assms(5) l(3),
        of 0 io h rest recv "writer_new buf n"] assms(2) l(4) by auto
  moreover have "vbi_decode bs = Panic"
    by (rule vbi_decode_panic_4 [OF assms(3)]) (use assms(4) in \<open>simp add: vbi_ends_def\<close>)
  ultimately show ?thesis by (simp add: receive_packet_def)
qed

theorem overlong_length_panics_witness:
  "\<exists>s. receive_packet script_transport (replicate 8 0) 8 (replicate 8 0)
     \<lparr>chunks = [[0x30, 255, 255, 255, 255]], closed = False, accepts = [], sent = []\<rparr> = Some (Panic, s)"
  by (rule overlong_length_panics [OF stream_script, of _ "0x30" "[255, 255, 255, 255]" "[]"])
    (simp_all add: script_pend_def)

section \<open>One read per packet\<close>

text \<open>Under \<open>tls\<close> a packet is whatever one read delivers: a packet in two pieces is returned as two, a
  read with two packets as one, and the end of the stream as a packet of no bytes rather than as the
  error of the other build.\<close>

lemma receive_packet_tls_one_read:
  assumes "io_read T io (length recv) = Some (Some chunk, io')" "length chunk \<le> length recv" "length chunk \<le> length buffer"
  shows "\<exists>w recv'. receive_packet_tls T buffer (length buffer) recv io = Some (Ok (length chunk), (w, recv', io')) \<and>
    wr_buffer w = chunk @ drop (length chunk) buffer"
proof -
  have "slice (splice recv 0 chunk) 0 (length chunk) = Some chunk" using assms(2) by (simp add: slice_def splice_def)
  then show ?thesis using assms
    by (simp add: receive_packet_tls_def receive_def Let_def writer_new_def insert_ref_def splice_def slice_def wr_increment_position_def)
qed

lemma receive_packet_tls_end:
  "receive_packet_tls script_transport [0, 0] 2 [0, 0] \<lparr>chunks = [], closed = True, accepts = [], sent = []\<rparr> =
   Some (Ok 0, (writer_new [0, 0] 2, [0, 0], \<lparr>chunks = [], closed = True, accepts = [], sent = []\<rparr>))"
  by code_simp

end
