(* ===== verification/Mqtt_Config.thy ===== *)
theory Mqtt_Config
  imports Mqtt_Property Mqtt_Codes
begin

text \<open>
  The client configuration (rust-mqtt/src/client/client_config.rs) and the counting generator of
  packet identifiers (rust-mqtt/src/utils/rng_generator.rs). The generator is a parameter of the
  configuration's type in the code; here it is the one the crate provides and its user picks.
\<close>

section \<open>The counting generator\<close>

definition next_u64 :: "u64 \<Rightarrow> u64 \<times> u64" where
  "next_u64 s = (let s1 = s + 1; s2 = (if s1 > 65535 then 1 else s1) in (s2, s2))"

definition next_u32 :: "u64 \<Rightarrow> u32 \<times> u64" where
  "next_u32 s = (let (x, s') = next_u64 s in (ucast x, s'))"

section \<open>The configuration\<close>

datatype mqtt_version = MQTTv3 | MQTTv5

record client_config =
  max_subscribe_qos :: quality_of_service
  cfg_keep_alive :: u16
  username_flag :: bool
  cfg_username :: encoded_string
  password_flag :: bool
  cfg_password :: binary_data
  cfg_properties :: "property list"
  max_packet_size :: u32
  mqtt_version :: mqtt_version
  rng :: u64
  will_flag :: bool
  cfg_will_topic :: encoded_string
  cfg_will_payload :: binary_data
  will_retain :: bool
  cfg_client_id :: encoded_string

definition client_config_new :: "mqtt_version \<Rightarrow> u64 \<Rightarrow> client_config" where
  "client_config_new version r = \<lparr>max_subscribe_qos = QoS0, cfg_keep_alive = 60,
     username_flag = False, cfg_username = encoded_string_new, password_flag = False,
     cfg_password = binary_data_new, cfg_properties = [], max_packet_size = 265000,
     mqtt_version = version, rng = r, will_flag = False, cfg_will_topic = encoded_string_new,
     cfg_will_payload = binary_data_new, will_retain = False, cfg_client_id = encoded_string_new\<rparr>"

definition cfg_add_max_subscribe_qos :: "quality_of_service \<Rightarrow> client_config \<Rightarrow> client_config" where
  "cfg_add_max_subscribe_qos qos c = c\<lparr>max_subscribe_qos := qos\<rparr>"

definition cfg_add_will :: "bytes \<Rightarrow> bytes \<Rightarrow> bool \<Rightarrow> client_config \<Rightarrow> client_config" where
  "cfg_add_will topic payload retain c =
     c\<lparr>will_flag := True, will_retain := retain,
       cfg_will_topic := \<lparr>es_string = topic, es_len = of_nat (length topic)\<rparr>,
       cfg_will_payload := \<lparr>bd_bin = payload, bd_len = of_nat (length payload)\<rparr>\<rparr>"

definition cfg_add_username :: "bytes \<Rightarrow> client_config \<Rightarrow> client_config" where
  "cfg_add_username name c =
     c\<lparr>username_flag := True, cfg_username := \<lparr>es_string = name, es_len = of_nat (length name)\<rparr>\<rparr>"

definition cfg_add_password :: "bytes \<Rightarrow> client_config \<Rightarrow> client_config" where
  "cfg_add_password pass c =
     c\<lparr>cfg_password := \<lparr>bd_bin = pass, bd_len = of_nat (length pass)\<rparr>, password_flag := True\<rparr>"

definition cfg_add_property :: "nat \<Rightarrow> property \<Rightarrow> client_config \<Rightarrow> client_config" where
  "cfg_add_property cap prop c =
     (if length (cfg_properties c) < cap then c\<lparr>cfg_properties := vec_push cap (cfg_properties c) prop\<rparr> else c)"

definition add_max_packet_size_as_prop :: "nat \<Rightarrow> client_config \<Rightarrow> u32 \<times> client_config" where
  "add_max_packet_size_as_prop cap c =
     (if length (cfg_properties c) < cap
      then (5, c\<lparr>cfg_properties := vec_push cap (cfg_properties c) (MaximumPacketSize (max_packet_size c))\<rparr>)
      else (0, c))"

definition cfg_add_client_id :: "bytes \<Rightarrow> client_config \<Rightarrow> client_config" where
  "cfg_add_client_id name c = c\<lparr>cfg_client_id := \<lparr>es_string = name, es_len = of_nat (length name)\<rparr>\<rparr>"

section \<open>Packet identifiers\<close>

text \<open>The \<open>k\<close>-th identifier drawn from a generator, as the client takes it: the low 16 bits.\<close>

fun packet_id :: "u64 \<Rightarrow> nat \<Rightarrow> u16" where
  "packet_id s 0 = ucast (fst (next_u32 s))"
| "packet_id s (Suc k) = packet_id (snd (next_u32 s)) k"

lemma next_u64_value:
  assumes "unat s \<le> 65535"
  shows "unat (fst (next_u64 s)) = unat s mod 65535 + 1" "snd (next_u64 s) = fst (next_u64 s)"
proof -
  have s1: "unat (s + 1) = unat s + 1"
    using assms by (subst unat_plus_simple [THEN iffD1]) (auto simp: word_le_nat_alt unat_word_ariths)
  show "unat (fst (next_u64 s)) = unat s mod 65535 + 1"
  proof (cases "unat s = 65535")
    case True
    then have "s + 1 > 65535" using s1 by (simp add: word_less_nat_alt)
    with True show ?thesis by (simp add: next_u64_def Let_def)
  next
    case False
    then have "\<not> s + 1 > 65535" using s1 assms by (simp add: word_less_nat_alt)
    with False assms s1 show ?thesis by (simp add: next_u64_def Let_def)
  qed
  show "snd (next_u64 s) = fst (next_u64 s)" by (simp add: next_u64_def Let_def)
qed

lemma unat_low16: "unat (x :: u64) < 65536 \<Longrightarrow> unat (ucast (ucast x :: u32) :: u16) = unat x"
  by (simp add: unsigned_ucast_eq unsigned_take_bit_eq take_bit_nat_eq_self)

lemma packet_id_value: "unat s \<le> 65535 \<Longrightarrow> unat (packet_id s k) = (unat s + k) mod 65535 + 1"
proof (induction k arbitrary: s)
  case 0
  have "unat (fst (next_u64 s)) < 65536" using next_u64_value(1) [OF 0] by (simp add: mod_less_eq_dividend)
  then show ?case
    using next_u64_value(1) [OF 0]
    by (simp add: next_u32_def split_beta unat_low16)
next
  case (Suc k)
  have s': "unat (snd (next_u32 s)) = unat s mod 65535 + 1"
    using next_u64_value [OF Suc.prems] by (simp add: next_u32_def split_beta)
  then have "unat (snd (next_u32 s)) \<le> 65535" using mod_less_divisor [of 65535 "unat s"] by simp
  from Suc.IH [OF this] show ?case
    using mod_add_left_eq [of "unat s" 65535 "Suc k"] by (simp add: s')
qed

section \<open>Properties\<close>

text \<open>
  C33. The packet identifiers a client draws from the counting generator are never 0 and do not
  repeat within 65535 consecutive draws, from any start the generator is given in its range.
\<close>

theorem identifiers_nonzero_distinct:
  assumes "unat s \<le> 65535" "i < j" "j < i + 65535"
  shows "packet_id s i \<noteq> 0 \<and> packet_id s i \<noteq> packet_id s j"
proof -
  have "(unat s + i) mod 65535 \<noteq> (unat s + j) mod 65535"
  proof
    assume "(unat s + i) mod 65535 = (unat s + j) mod 65535"
    then have "65535 dvd (unat s + j) - (unat s + i)"
      using assms(2) by (intro mod_eq_dvd_iff_nat [THEN iffD1]) auto
    then have "65535 dvd j - i" by simp
    with assms(2,3) show False by (auto dest!: dvd_imp_le)
  qed
  with packet_id_value [OF assms(1), of i] packet_id_value [OF assms(1), of j] show ?thesis
    by auto
qed

theorem identifiers_nonzero_distinct_witness:
  "packet_id 65534 0 \<noteq> 0 \<and> packet_id 65534 0 \<noteq> packet_id 65534 2"
  by (rule identifiers_nonzero_distinct) simp_all

end
