(* ===== verification/Mqtt_Client.thy ===== *)
theory Mqtt_Client
  imports Mqtt_Acks Mqtt_Control Mqtt_Connect Mqtt_Publish Mqtt_Subscribe Mqtt_Network Mqtt_Config
begin

text \<open>
  The MQTT client: \<open>RawMqttClient\<close> (rust-mqtt/src/client/raw_client.rs) with its operations and
  \<open>poll\<close>, and \<open>MqttClient\<close> (rust-mqtt/src/client/client.rs), whose operations send a request and
  wait for the answer. \<open>T\<close> is the transport, \<open>cap\<close> the constant \<open>MAX_PROPERTIES\<close>. An operation
  that does not complete is \<open>None\<close>.
\<close>

section \<open>State and events\<close>

datatype event =
    EvConnack
  | EvPuback u16
  | EvSuback u16
  | EvUnsuback u16
  | EvPingresp
  | EvMessage bytes bytes
  | EvDisconnect reason_code

record 'io raw_client =
  connection :: "'io option"
  buffer :: bytes
  buffer_len :: nat
  recv_buffer :: bytes
  recv_buffer_len :: nat
  config :: client_config

type_synonym ('io, 'a) client_op =
  "'io raw_client \<Rightarrow> ((reason_code, 'a) outcome \<times> 'io raw_client) option"

definition raw_client_new :: "'io \<Rightarrow> bytes \<Rightarrow> nat \<Rightarrow> bytes \<Rightarrow> nat \<Rightarrow> client_config \<Rightarrow> 'io raw_client" where
  "raw_client_new driver buf len recv rlen cfg =
     \<lparr>connection = Some driver, buffer = buf, buffer_len = len, recv_buffer = recv,
      recv_buffer_len = rlen, config = cfg\<rparr>"

text \<open>\<open>.await?\<close>: go on with the value, return the error, or never complete.\<close>

definition await :: "('io, 'a) client_op \<Rightarrow> ('a \<Rightarrow> ('io, 'b) client_op) \<Rightarrow> ('io, 'b) client_op" where
  "await m f c = (case m c of
       None \<Rightarrow> None
     | Some (Ok a, c') \<Rightarrow> f a c'
     | Some (Err e, c') \<Rightarrow> Some (Err e, c')
     | Some (Panic, c') \<Rightarrow> Some (Panic, c'))"

definition finish :: "(reason_code, 'a) outcome \<Rightarrow> ('io, 'a) client_op" where
  "finish r c = Some (r, c)"

text \<open>The end of every request: an encoding error is \<open>BuffError\<close>; otherwise the bytes the encoder
  reports are sent from the buffer, and the given value is the result.\<close>

definition send_encoded :: "'io transport \<Rightarrow> 'io \<Rightarrow> (buffer_error, nat) outcome \<times> bytes \<Rightarrow> 'a \<Rightarrow> ('io, 'a) client_op" where
  "send_encoded T io enc a c =
     (let c' = c\<lparr>buffer := snd enc\<rparr> in
      case fst enc of
        Err _ \<Rightarrow> Some (Err BuffError, c')
      | Panic \<Rightarrow> Some (Panic, c')
      | Ok len \<Rightarrow>
          (case slice (buffer c') 0 len of
             None \<Rightarrow> Some (Panic, c')
           | Some packet \<Rightarrow>
               (case send T packet io of
                  None \<Rightarrow> None
                | Some (Ok _, io') \<Rightarrow> Some (Ok a, c'\<lparr>connection := Some io'\<rparr>)
                | Some (Err e, io') \<Rightarrow> Some (Err e, c'\<lparr>connection := Some io'\<rparr>)
                | Some (Panic, io') \<Rightarrow> Some (Panic, c'\<lparr>connection := Some io'\<rparr>))))"

section \<open>Requests\<close>

text \<open>The CONNECT packet the configuration asks for.\<close>

definition connect_packet_of :: "client_config \<Rightarrow> connect_packet \<Rightarrow> connect_packet" where
  "connect_packet_of cfg p =
     (let p1 = (if username_flag cfg then add_username (cfg_username cfg) p else p);
          p2 = (if password_flag cfg then add_password (cfg_password cfg) p1 else p1);
          p3 = (if will_flag cfg then add_will (cfg_will_topic cfg) (cfg_will_payload cfg) (will_retain cfg) p2 else p2)
      in add_client_id (cfg_client_id cfg) p3)"

definition connect_to_broker_v5 :: "'io transport \<Rightarrow> nat \<Rightarrow> ('io, unit) client_op" where
  "connect_to_broker_v5 T cap c =
     (case connection c of
        None \<Rightarrow> Some (Err NetworkError, c)
      | Some io \<Rightarrow>
          (let cfg = snd (add_max_packet_size_as_prop cap (config c));
               c1 = c\<lparr>config := cfg\<rparr>;
               p0 = connect_new\<lparr>keep_alive := cfg_keep_alive cfg\<rparr>
           in case add_properties (connect_impl cap) (cfg_properties cfg) 0 p0 of
                (Err _, _) \<Rightarrow> Some (Err BuffError, c1)
              | (Panic, _) \<Rightarrow> Some (Panic, c1)
              | (Ok n, p1) \<Rightarrow>
                  send_encoded T io
                    (connect_encode (connect_packet_of cfg (p1\<lparr>property_len := n\<rparr>)) (buffer c1) (buffer_len c1)) () c1))"

definition disconnect_v5 :: "'io transport \<Rightarrow> nat \<Rightarrow> ('io, unit) client_op" where
  "disconnect_v5 T cap c =
     (case connection c of
        None \<Rightarrow> Some (Err NetworkError, c)
      | Some io \<Rightarrow>
          (let enc = disconnect_encode disconnect_new (buffer c) (buffer_len c); c1 = c\<lparr>buffer := snd enc\<rparr> in
           case fst enc of
             Err _ \<Rightarrow> Some (Err BuffError, c1\<lparr>connection := None\<rparr>)
           | Panic \<Rightarrow> Some (Panic, c1)
           | Ok len \<Rightarrow>
               (case slice (buffer c1) 0 len of
                  None \<Rightarrow> Some (Panic, c1)
                | Some packet \<Rightarrow>
                    (case send T packet io of
                       None \<Rightarrow> None
                     | Some (Panic, io') \<Rightarrow> Some (Panic, c1\<lparr>connection := Some io'\<rparr>)
                     | Some (_, io') \<Rightarrow> Some (Ok (), c1\<lparr>connection := None\<rparr>)))))"

definition send_message_v5 ::
    "'io transport \<Rightarrow> nat \<Rightarrow> bytes \<Rightarrow> bytes \<Rightarrow> quality_of_service \<Rightarrow> bool \<Rightarrow> ('io, u16) client_op" where
  "send_message_v5 T cap topic msg qos retain c =
     (case connection c of
        None \<Rightarrow> Some (Err NetworkError, c)
      | Some io \<Rightarrow>
          (let (x, r') = next_u32 (rng (config c)); ident = ucast x :: u16;
               c1 = c\<lparr>config := (config c)\<lparr>rng := r'\<rparr>\<rparr>;
               packet = add_retain retain (add_message msg (add_identifier ident
                          (add_qos qos (add_topic_name topic publish_new))))
           in send_encoded T io (publish_encode packet (buffer c1) (buffer_len c1)) ident c1))"

definition subscribe_to_topics_v5 :: "'io transport \<Rightarrow> nat \<Rightarrow> nat \<Rightarrow> bytes list \<Rightarrow> ('io, u16) client_op" where
  "subscribe_to_topics_v5 T cap topics_cap names c =
     (case connection c of
        None \<Rightarrow> Some (Err NetworkError, c)
      | Some io \<Rightarrow>
          (let (x, r') = next_u32 (rng (config c)); ident = ucast x :: u16;
               c1 = c\<lparr>config := (config c)\<lparr>rng := r'\<rparr>\<rparr>;
               subs = foldl (\<lambda>p name. subscription_add_new_filter topics_cap name (max_subscribe_qos (config c)) p)
                        (subscription_new\<lparr>filter_identifier := ident\<rparr>) names
           in send_encoded T io (subscription_encode subs (buffer c1) (buffer_len c1)) ident c1))"

definition unsubscribe_from_topic_v5 :: "'io transport \<Rightarrow> nat \<Rightarrow> bytes \<Rightarrow> ('io, u16) client_op" where
  "unsubscribe_from_topic_v5 T cap name c =
     (case connection c of
        None \<Rightarrow> Some (Err NetworkError, c)
      | Some io \<Rightarrow>
          (let (x, r') = next_u32 (rng (config c)); ident = ucast x :: u16;
               c1 = c\<lparr>config := (config c)\<lparr>rng := r'\<rparr>\<rparr>;
               unsub = unsubscription_add_new_filter 1 name (unsubscription_new\<lparr>filter_identifier := ident\<rparr>)
           in send_encoded T io (unsubscription_encode unsub (buffer c1) (buffer_len c1)) ident c1))"

definition send_ping_v5 :: "'io transport \<Rightarrow> ('io, unit) client_op" where
  "send_ping_v5 T c =
     (case connection c of
        None \<Rightarrow> Some (Err NetworkError, c)
      | Some io \<Rightarrow> send_encoded T io (pingreq_encode pingreq_new (buffer c) (buffer_len c)) () c)"

text \<open>Every public operation refuses MQTT 3 and hands the rest to its version 5.\<close>

definition by_version :: "('io, 'a) client_op \<Rightarrow> ('io, 'a) client_op" where
  "by_version v5 c = (case mqtt_version (config c) of
       MQTTv3 \<Rightarrow> Some (Err UnsupportedProtocolVersion, c)
     | MQTTv5 \<Rightarrow> v5 c)"

definition raw_connect_to_broker :: "'io transport \<Rightarrow> nat \<Rightarrow> ('io, unit) client_op" where
  "raw_connect_to_broker T cap = by_version (connect_to_broker_v5 T cap)"

definition raw_disconnect :: "'io transport \<Rightarrow> nat \<Rightarrow> ('io, unit) client_op" where
  "raw_disconnect T cap = by_version (disconnect_v5 T cap)"

definition raw_send_message ::
    "'io transport \<Rightarrow> nat \<Rightarrow> bytes \<Rightarrow> bytes \<Rightarrow> quality_of_service \<Rightarrow> bool \<Rightarrow> ('io, u16) client_op" where
  "raw_send_message T cap topic msg qos retain = by_version (send_message_v5 T cap topic msg qos retain)"

definition raw_subscribe_to_topics :: "'io transport \<Rightarrow> nat \<Rightarrow> nat \<Rightarrow> bytes list \<Rightarrow> ('io, u16) client_op" where
  "raw_subscribe_to_topics T cap topics_cap names = by_version (subscribe_to_topics_v5 T cap topics_cap names)"

definition raw_unsubscribe_from_topic :: "'io transport \<Rightarrow> nat \<Rightarrow> bytes \<Rightarrow> ('io, u16) client_op" where
  "raw_unsubscribe_from_topic T cap name = by_version (unsubscribe_from_topic_v5 T cap name)"

definition raw_send_ping :: "'io transport \<Rightarrow> ('io, unit) client_op" where
  "raw_send_ping T = by_version (send_ping_v5 T)"

section \<open>Polling\<close>

definition poll_connack :: "nat \<Rightarrow> nat \<Rightarrow> ('io, event) client_op" where
  "poll_connack cap read c =
     (case connack_decode cap (connack_new, reader_new (buffer c) read) of
        (Err _, _) \<Rightarrow> Some (Err BuffError, c)
      | (Panic, _) \<Rightarrow> Some (Panic, c)
      | (Ok _, (packet, _)) \<Rightarrow>
          if connect_reason_code packet \<noteq> 0x00
          then Some (Err (reason_code_from (connect_reason_code packet)), c)
          else Some (Ok EvConnack, c))"

definition poll_puback :: "nat \<Rightarrow> nat \<Rightarrow> ('io, event) client_op" where
  "poll_puback cap read c =
     (case puback_decode cap (puback_new, reader_new (buffer c) read) of
        (Err _, _) \<Rightarrow> Some (Err BuffError, c)
      | (Panic, _) \<Rightarrow> Some (Panic, c)
      | (Ok _, (packet, _)) \<Rightarrow>
          if ack_packet.reason_code packet \<noteq> 0
          then Some (Err (reason_code_from (ack_packet.reason_code packet)), c)
          else Some (Ok (EvPuback (packet_identifier packet)), c))"

text \<open>Every reason code of a SUBACK has to be the quality that was asked for.\<close>

definition poll_suback :: "nat \<Rightarrow> nat \<Rightarrow> nat \<Rightarrow> ('io, event) client_op" where
  "poll_suback cap max_topics read c =
     (case suback_decode max_topics cap (suback_new, reader_new (buffer c) read) of
        (Err _, _) \<Rightarrow> Some (Err BuffError, c)
      | (Panic, _) \<Rightarrow> Some (Panic, c)
      | (Ok _, (packet, _)) \<Rightarrow>
          (case find (\<lambda>rc. rc \<noteq> drop_bit 1 (qos_byte (max_subscribe_qos (config c)))) (reason_codes packet) of
             Some rc \<Rightarrow> Some (Err (reason_code_from rc), c)
           | None \<Rightarrow> Some (Ok (EvSuback (reasons_identifier packet)), c)))"

definition poll_unsuback :: "nat \<Rightarrow> nat \<Rightarrow> ('io, event) client_op" where
  "poll_unsuback cap read c =
     (case unsuback_decode 1 cap (unsuback_new, reader_new (buffer c) read) of
        (Err _, _) \<Rightarrow> Some (Err BuffError, c)
      | (Panic, _) \<Rightarrow> Some (Panic, c)
      | (Ok _, (packet, _)) \<Rightarrow> Some (Ok (EvUnsuback (reasons_identifier packet)), c))"

definition poll_pingresp :: "nat \<Rightarrow> ('io, event) client_op" where
  "poll_pingresp read c =
     (case pingresp_decode (pingresp_new, reader_new (buffer c) read) of
        (Err _, _) \<Rightarrow> Some (Err BuffError, c)
      | (Panic, _) \<Rightarrow> Some (Panic, c)
      | (Ok _, _) \<Rightarrow> Some (Ok EvPingresp, c))"

text \<open>A message of quality 1 is acknowledged, from the receive buffer, before it is handed out.\<close>

definition poll_publish :: "'io transport \<Rightarrow> nat \<Rightarrow> nat \<Rightarrow> 'io \<Rightarrow> ('io, event) client_op" where
  "poll_publish T cap read io c =
     (case publish_decode 5 (publish_new, reader_new (buffer c) read) of
        (Err _, _) \<Rightarrow> Some (Err BuffError, c)
      | (Panic, _) \<Rightarrow> Some (Panic, c)
      | (Ok _, (packet, _)) \<Rightarrow>
          (let deliver = (\<lambda>c. case message packet of
                 None \<Rightarrow> Some (Panic, c)
               | Some m \<Rightarrow> Some (Ok (EvMessage (es_string (topic_name packet)) m), c))
           in if fixed_header packet AND 0x06 = qos_byte QoS1
              then
                let puback = puback_new\<lparr>packet_identifier := pub_identifier packet, ack_packet.reason_code := 0x00\<rparr>;
                    enc = puback_encode puback (recv_buffer c) (recv_buffer_len c);
                    c1 = c\<lparr>recv_buffer := snd enc\<rparr>
                in case fst enc of
                     Err _ \<Rightarrow> Some (Err BuffError, c1)
                   | Panic \<Rightarrow> Some (Panic, c1)
                   | Ok len \<Rightarrow>
                       (case slice (recv_buffer c1) 0 len of
                          None \<Rightarrow> Some (Panic, c1)
                        | Some bytes \<Rightarrow>
                            (case send T bytes io of
                               None \<Rightarrow> None
                             | Some (Err e, io') \<Rightarrow> Some (Err e, c1\<lparr>connection := Some io'\<rparr>)
                             | Some (Panic, io') \<Rightarrow> Some (Panic, c1\<lparr>connection := Some io'\<rparr>)
                             | Some (Ok _, io') \<Rightarrow> deliver (c1\<lparr>connection := Some io'\<rparr>)))
              else deliver c))"

definition poll_disconnect :: "nat \<Rightarrow> ('io, event) client_op" where
  "poll_disconnect read c =
     (case disconnect_decode 5 (disconnect_new, reader_new (buffer c) read) of
        (Err _, _) \<Rightarrow> Some (Err BuffError, c)
      | (Panic, _) \<Rightarrow> Some (Panic, c)
      | (Ok _, (disc, _)) \<Rightarrow> Some (Ok (EvDisconnect (reason_code_from (disconnect_reason disc))), c))"

definition poll_packet :: "'io transport \<Rightarrow> nat \<Rightarrow> nat \<Rightarrow> nat \<Rightarrow> 'io \<Rightarrow> ('io, event) client_op" where
  "poll_packet T cap max_topics read io c =
     (case peek_u8 (reader_new (buffer c) read) of
        Err _ \<Rightarrow> Some (Err BuffError, c)
      | Panic \<Rightarrow> Some (Panic, c)
      | Ok b \<Rightarrow>
          (case packet_type_from b of
             ReservedType \<Rightarrow> Some (Err ProtocolError, c)
           | Connect \<Rightarrow> Some (Err ProtocolError, c)
           | Subscribe \<Rightarrow> Some (Err ProtocolError, c)
           | Unsubscribe \<Rightarrow> Some (Err ProtocolError, c)
           | Pingreq \<Rightarrow> Some (Err ProtocolError, c)
           | Pubrec \<Rightarrow> Some (Err ImplementationSpecificError, c)
           | Pubrel \<Rightarrow> Some (Err ImplementationSpecificError, c)
           | Pubcomp \<Rightarrow> Some (Err ImplementationSpecificError, c)
           | Auth \<Rightarrow> Some (Err ImplementationSpecificError, c)
           | Connack \<Rightarrow> poll_connack cap read c
           | Puback \<Rightarrow> poll_puback cap read c
           | Suback \<Rightarrow> poll_suback cap max_topics read c
           | Unsuback \<Rightarrow> poll_unsuback cap read c
           | Pingresp \<Rightarrow> poll_pingresp read c
           | Publish \<Rightarrow> poll_publish T cap read io c
           | Disconnect \<Rightarrow> poll_disconnect read c))"

definition poll :: "'io transport \<Rightarrow> nat \<Rightarrow> nat \<Rightarrow> ('io, event) client_op" where
  "poll T cap max_topics c =
     (case connection c of
        None \<Rightarrow> Some (Err NetworkError, c)
      | Some io \<Rightarrow>
          (case receive_packet T (buffer c) (buffer_len c) (recv_buffer c) io of
             None \<Rightarrow> None
           | Some (r, (w, recv, io')) \<Rightarrow>
               (let c' = c\<lparr>buffer := wr_buffer w, recv_buffer := recv, connection := Some io'\<rparr> in
                case r of
                  Err e \<Rightarrow> Some (Err e, c')
                | Panic \<Rightarrow> Some (Panic, c')
                | Ok read \<Rightarrow> poll_packet T cap max_topics read io' c')))"

section \<open>The client\<close>

definition connect_to_broker :: "'io transport \<Rightarrow> nat \<Rightarrow> ('io, unit) client_op" where
  "connect_to_broker T cap =
     await (raw_connect_to_broker T cap) (\<lambda>_.
     await (poll T cap 0) (\<lambda>ev. case ev of
         EvConnack \<Rightarrow> finish (Ok ())
       | EvDisconnect reason \<Rightarrow> finish (Err reason)
       | _ \<Rightarrow> finish (Err ImplementationSpecificError)))"

definition disconnect :: "'io transport \<Rightarrow> nat \<Rightarrow> ('io, unit) client_op" where
  "disconnect T cap = await (raw_disconnect T cap) (\<lambda>_. finish (Ok ()))"

definition send_message ::
    "'io transport \<Rightarrow> nat \<Rightarrow> bytes \<Rightarrow> bytes \<Rightarrow> quality_of_service \<Rightarrow> bool \<Rightarrow> ('io, unit) client_op" where
  "send_message T cap topic msg qos retain =
     await (raw_send_message T cap topic msg qos retain) (\<lambda>ident.
     if qos = QoS1
     then await (poll T cap 0) (\<lambda>ev. case ev of
         EvPuback ack_identifier \<Rightarrow>
           if ident = ack_identifier then finish (Ok ()) else finish (Err PacketIdentifierNotFound)
       | EvDisconnect reason \<Rightarrow> finish (Err reason)
       | _ \<Rightarrow> finish (Err ImplementationSpecificError))
     else finish (Ok ()))"

definition await_suback :: "'io transport \<Rightarrow> nat \<Rightarrow> nat \<Rightarrow> u16 \<Rightarrow> ('io, unit) client_op" where
  "await_suback T cap topics_cap ident =
     await (poll T cap topics_cap) (\<lambda>ev. case ev of
         EvSuback ack_identifier \<Rightarrow>
           if ident = ack_identifier then finish (Ok ()) else finish (Err PacketIdentifierNotFound)
       | EvDisconnect reason \<Rightarrow> finish (Err reason)
       | _ \<Rightarrow> finish (Err ImplementationSpecificError))"

definition subscribe_to_topics :: "'io transport \<Rightarrow> nat \<Rightarrow> nat \<Rightarrow> bytes list \<Rightarrow> ('io, unit) client_op" where
  "subscribe_to_topics T cap topics_cap names =
     await (raw_subscribe_to_topics T cap topics_cap names) (\<lambda>ident. await_suback T cap topics_cap ident)"

definition unsubscribe_from_topic :: "'io transport \<Rightarrow> nat \<Rightarrow> bytes \<Rightarrow> ('io, unit) client_op" where
  "unsubscribe_from_topic T cap name =
     await (raw_unsubscribe_from_topic T cap name) (\<lambda>ident.
     await (poll T cap 0) (\<lambda>ev. case ev of
         EvUnsuback ack_identifier \<Rightarrow>
           if ident = ack_identifier then finish (Ok ()) else finish (Err PacketIdentifierNotFound)
       | EvDisconnect reason \<Rightarrow> finish (Err reason)
       | _ \<Rightarrow> finish (Err ImplementationSpecificError)))"

definition subscribe_to_topic :: "'io transport \<Rightarrow> nat \<Rightarrow> bytes \<Rightarrow> ('io, unit) client_op" where
  "subscribe_to_topic T cap name =
     await (raw_subscribe_to_topics T cap 1 [name]) (\<lambda>ident. await_suback T cap 1 ident)"

definition receive_message :: "'io transport \<Rightarrow> nat \<Rightarrow> ('io, bytes \<times> bytes) client_op" where
  "receive_message T cap =
     await (poll T cap 0) (\<lambda>ev. case ev of
         EvMessage topic payload \<Rightarrow> finish (Ok (topic, payload))
       | EvDisconnect reason \<Rightarrow> finish (Err reason)
       | _ \<Rightarrow> finish (Err ImplementationSpecificError))"

definition send_ping :: "'io transport \<Rightarrow> nat \<Rightarrow> ('io, unit) client_op" where
  "send_ping T cap =
     await (raw_send_ping T) (\<lambda>_.
     await (poll T cap 0) (\<lambda>ev. case ev of
         EvPingresp \<Rightarrow> finish (Ok ())
       | EvDisconnect reason \<Rightarrow> finish (Err reason)
       | _ \<Rightarrow> finish (Err ImplementationSpecificError)))"

section \<open>One packet received\<close>

lemma await_Some:
  "m c = Some (Ok a, c') \<Longrightarrow> await m f c = f a c'"
  "m c = Some (Err e, c') \<Longrightarrow> await m f c = Some (Err e, c')"
  by (simp_all add: await_def)

text \<open>What a poll does when the next bytes of the stream are a packet: the dispatch runs on a
  buffer that starts with the packet, and the stream stands behind it.\<close>

lemma poll_receives_run:
  assumes T: "stream_transport T pend" and c: "connection c = Some io"
    and pend: "pend io = packet_frame h body @ rest" and b: "length body \<le> 268435455"
    and n: "buffer_len c \<le> length (buffer c)" "length (packet_frame h body) \<le> buffer_len c"
    and recv: "length (packet_frame h body) + length body \<le> length (recv_buffer c)"
  obtains recv' io' w where "receive_packet T (buffer c) (buffer_len c) (recv_buffer c) io =
      Some (Ok (length (packet_frame h body)), (w, recv', io'))" and "pend io' = rest" and "length recv' = length (recv_buffer c)"
    and "poll T cap mt c = poll_packet T cap mt (length (packet_frame h body)) io'
       (c\<lparr>buffer := packet_frame h body @ drop (length (packet_frame h body)) (buffer c),
          recv_buffer := recv', connection := Some io'\<rparr>)"
proof -
  let ?m = "of_nat (length body) :: u32"
  have fr: "packet_frame h body = h # vbi_bytes ?m @ body" by (simp add: packet_frame_def)
  have u: "unat ?m = length body" by (rule unat_of_nat_len [OF b])
  obtain recv' io' where r: "receive_packet T (buffer c) (buffer_len c) (recv_buffer c) io =
      Some (Ok (length (packet_frame h body)),
        (put_bytes (packet_frame h body) (writer_new (buffer c) (buffer_len c)), recv', io'))"
    "pend io' = rest" "length recv' = length (recv_buffer c)"
    using receive_packet_run [OF T pend [unfolded fr] u b n(1) n(2) [unfolded fr] recv [unfolded fr]]
    unfolding fr by blast
  show thesis
    by (rule that [OF r]) (simp add: poll_def c r(1) put_bytes_new_buffer)
qed

lemma poll_receives:
  assumes T: "stream_transport T pend" and c: "connection c = Some io"
    and pend: "pend io = packet_frame h body @ rest" and b: "length body \<le> 268435455"
    and n: "buffer_len c \<le> length (buffer c)" "length (packet_frame h body) \<le> buffer_len c"
    and recv: "length (packet_frame h body) + length body \<le> length (recv_buffer c)"
  obtains recv' io' where "pend io' = rest" and "length recv' = length (recv_buffer c)"
    and "poll T cap mt c = poll_packet T cap mt (length (packet_frame h body)) io'
       (c\<lparr>buffer := packet_frame h body @ drop (length (packet_frame h body)) (buffer c),
          recv_buffer := recv', connection := Some io'\<rparr>)"
  by (rule poll_receives_run [OF assms]) (rule that)

lemma peek_frame: "peek_u8 (reader_new (packet_frame h body @ xs) (length (packet_frame h body))) = Ok h"
  by (simp add: peek_u8_def reader_new_def index_def packet_frame_def)

lemma poll_puback_event:
  assumes "ack_sendable Puback cap p"
    and "buffer c = packet_frame (fixed_header p) (ack_body p) @ xs"
  shows "poll_packet T cap mt (length (packet_frame (fixed_header p) (ack_body p))) io c =
    (if ack_packet.reason_code p \<noteq> 0 then Some (Err (reason_code_from (ack_packet.reason_code p)), c)
     else Some (Ok (EvPuback (packet_identifier p)), c))"
proof -
  let ?f = "packet_frame (fixed_header p) (ack_body p)"
  have "puback_decode cap (puback_new, reader_new (?f @ xs) (length ?f))
      = (Ok (), (ack_received p, increment_position (length ?f) (reader_new (?f @ xs) (length ?f))))"
    using op_parsesD [OF puback_decode_parses [OF assms(1)] rd_inv_new, of "length ?f" "?f @ xs" "[]"]
    by (simp add: remaining_new)
  moreover have "packet_type_from (fixed_header p) = Puback" by (rule ack_sendable_facts(4) [OF assms(1)])
  ultimately show ?thesis
    by (simp add: poll_packet_def assms(2) peek_frame poll_puback_def ack_received_eq)
qed

section \<open>Sending a message\<close>

definition message_packet :: "bytes \<Rightarrow> bytes \<Rightarrow> quality_of_service \<Rightarrow> bool \<Rightarrow> u16 \<Rightarrow> publish_packet" where
  "message_packet topic msg qos retain i =
     add_retain retain (add_message msg (add_identifier i (add_qos qos (add_topic_name topic publish_new))))"

definition message_frame :: "bytes \<Rightarrow> bytes \<Rightarrow> quality_of_service \<Rightarrow> bool \<Rightarrow> u16 \<Rightarrow> bytes" where
  "message_frame topic msg qos retain i =
     (let p = message_packet topic msg qos retain i in packet_frame (fixed_header p) (publish_body msg p))"

text \<open>A topic and a message the client can send from its buffer.\<close>

definition sendable_message :: "bytes \<Rightarrow> bytes \<Rightarrow> quality_of_service \<Rightarrow> bool \<Rightarrow> 'io raw_client \<Rightarrow> bool" where
  "sendable_message topic msg qos retain c \<longleftrightarrow> utf8_valid topic \<and> length topic < 65536
     \<and> length msg \<le> 268000000 \<and> mqtt_version (config c) = MQTTv5
     \<and> (\<forall>i. length (message_frame topic msg qos retain i) \<le> buffer_len c) \<and> buffer_len c \<le> length (buffer c)"

lemma message_packet_simps:
  "message (message_packet topic msg qos retain i) = Some msg"
  "property_len (message_packet topic msg qos retain i) = 0"
  "properties (message_packet topic msg qos retain i) = []"
  "topic_name (message_packet topic msg qos retain i) = \<lparr>es_string = topic, es_len = of_nat (length topic)\<rparr>"
  "pub_identifier (message_packet topic msg qos retain i) = i"
  by (simp_all add: message_packet_def add_retain_def add_message_def add_identifier_def add_qos_def
      add_topic_name_def publish_new_def)

lemma message_packet_wf:
  assumes "utf8_valid topic" "length topic < 65536" "length msg \<le> 268000000"
  shows "publish_wf msg (message_packet topic msg qos retain i)"
proof -
  let ?p = "message_packet topic msg qos retain i"
  have t: "string_wf (topic_name ?p)"
    using assms(1,2) by (simp add: message_packet_simps string_wf_def unat_of_nat take_bit_nat_eq_self)
  have s: "section_wf 0 []" by (simp add: section_wf_def)
  have z: "length (section_bytes []) = 1" by code_simp
  have "length (publish_body msg ?p) \<le> 65536 + 2 + 2 + 1 + length msg"
    using assms(2) length_string_bytes [OF t] t
    by (auto simp: publish_body_def publish_head_def identifier_bytes_def message_packet_simps z string_wf_def)
  with assms(3) t s show ?thesis by (simp add: publish_wf_def message_packet_simps)
qed

lemma raw_send_message_run:
  assumes c: "connection c = Some io" and s: "sendable_message topic msg qos retain c"
    and i: "i = packet_id (rng (config c)) 0"
    and w: "io_write T io (message_frame topic msg qos retain i) = Some (Some k, io1)"
  shows "\<exists>c1. raw_send_message T cap topic msg qos retain c = Some (Ok i, c1) \<and> connection c1 = Some io1
    \<and> length (buffer c1) = length (buffer c) \<and> buffer_len c1 = buffer_len c \<and> recv_buffer c1 = recv_buffer c
    \<and> config c1 = (config c)\<lparr>rng := snd (next_u32 (rng (config c)))\<rparr>"
proof -
  note a = s [unfolded sendable_message_def]
  let ?p = "message_packet topic msg qos retain i"
  let ?f = "message_frame topic msg qos retain i"
  have wf: "publish_wf msg ?p" by (rule message_packet_wf) (use a in auto)
  have fit: "buffer_len c \<le> length (buffer c)" "length ?f \<le> buffer_len c" using a by auto
  have enc: "publish_encode ?p (buffer c) (buffer_len c) = (Ok (length ?f), ?f @ drop (length ?f) (buffer c))"
    using publish_encoder.encode_frame [OF wf fit(1)] fit(2)
    by (simp add: publish_encode_def message_frame_def Let_def)
  have sl: "slice (?f @ drop (length ?f) (buffer c)) 0 (length ?f) = Some ?f" by (simp add: slice_def)
  have i': "ucast (fst (next_u32 (rng (config c)))) = i" by (simp add: i)
  have v: "mqtt_version (config c) = MQTTv5" using a by simp
  show ?thesis
    using fit
    by (auto simp: raw_send_message_def by_version_def v send_message_v5_def c split_beta Let_def i'
        message_packet_def [symmetric] enc send_encoded_def sl send_def w)
qed

section \<open>Properties\<close>

text \<open>
  C6. The quality 1 exchange, end to end. The client offers exactly the PUBLISH frame of the message,
  with a fresh packet identifier, to the transport; when the broker's next packet is a PUBACK with
  reason 0, in whatever fragments the stream delivers it, the call succeeds if and only if the
  PUBACK names that identifier, and otherwise returns \<open>PacketIdentifierNotFound\<close>. The
  stream is left behind the PUBACK.
\<close>

theorem send_message_qos1_acknowledged:
  assumes "stream_transport T pend" "connection c = Some io"
    and "sendable_message topic msg QoS1 retain c" "i = packet_id (rng (config c)) 0"
    and "io_write T io (message_frame topic msg QoS1 retain i) = Some (Some k, io1)"
    and "pend io1 = packet_frame (fixed_header p) (ack_body p) @ rest"
    and "ack_sendable Puback cap p" "ack_packet.reason_code p = 0"
    and "length (packet_frame (fixed_header p) (ack_body p)) \<le> buffer_len c"
    and "length (packet_frame (fixed_header p) (ack_body p)) + length (ack_body p) \<le> length (recv_buffer c)"
  shows "\<exists>c' io'. send_message T cap topic msg QoS1 retain c =
      Some (if packet_identifier p = i then Ok () else Err PacketIdentifierNotFound, c')
    \<and> connection c' = Some io' \<and> pend io' = rest"
proof -
  obtain c1 where c1: "raw_send_message T cap topic msg QoS1 retain c = Some (Ok i, c1)" "connection c1 = Some io1"
    "length (buffer c1) = length (buffer c)" "buffer_len c1 = buffer_len c" "recv_buffer c1 = recv_buffer c"
    using raw_send_message_run [OF assms(2,3,4,5)] by blast
  have fit: "buffer_len c1 \<le> length (buffer c1)"
    using assms(3) c1(3,4) by (simp add: sendable_message_def)
  obtain recv' io' where io': "pend io' = rest" and
    p': "poll T cap 0 c1 = poll_packet T cap 0 (length (packet_frame (fixed_header p) (ack_body p))) io'
       (c1\<lparr>buffer := packet_frame (fixed_header p) (ack_body p) @ drop (length (packet_frame (fixed_header p) (ack_body p))) (buffer c1),
          recv_buffer := recv', connection := Some io'\<rparr>)" (is "_ = poll_packet T cap 0 _ io' ?c2")
    by (rule poll_receives [OF assms(1) c1(2) assms(6) ack_sendable_facts(5) [OF assms(7)] fit])
      (use assms(9,10) c1(4,5) in simp_all)
  have "poll T cap 0 c1 = Some (Ok (EvPuback (packet_identifier p)), ?c2)"
    unfolding p' using assms(8) by (subst poll_puback_event [OF assms(7)]) simp_all
  then show ?thesis
    using io' by (auto simp: send_message_def await_def c1(1) finish_def)
qed

theorem send_message_qos1_acknowledged_witness:
  "\<exists>c' io'. send_message script_transport 4 (lit ''t'') [5] QoS1 False
      (raw_client_new \<lparr>chunks = [[0x40, 4, 0, 8], [0, 0]], closed = False, accepts = [], sent = []\<rparr>
         (replicate 20 0) 20 (replicate 20 0) 20 (client_config_new MQTTv5 6)) =
      Some (Err PacketIdentifierNotFound, c') \<and> connection c' = Some io' \<and> script_pend io' = []"
proof -
  let ?io = "\<lparr>chunks = [[0x40, 4, 0, 8], [0, 0]], closed = False, accepts = [], sent = []\<rparr>"
  let ?c = "raw_client_new ?io (replicate 20 0) 20 (replicate 20 0) 20 (client_config_new MQTTv5 6)"
  let ?p = "puback_new\<lparr>packet_identifier := 8\<rparr>"
  have i: "(7 :: u16) = packet_id (rng (config ?c)) 0" by code_simp
  have z: "length (section_bytes []) = 1" "length (vbi_bytes 0) = 1" by code_simp+
  have fl: "length (message_frame (lit ''t'') [5] QoS1 False i) = 9" for i
  proof -
    have "fixed_header (message_packet (lit ''t'') [5] QoS1 False i) = 0x32"
      by (simp add: message_packet_def add_retain_def add_message_def add_identifier_def add_qos_def
          add_topic_name_def publish_new_def)
    moreover have "length (string_bytes \<lparr>es_string = lit ''t'', es_len = 1\<rparr>) = 3" by code_simp
    moreover have "length (vbi_bytes 7) = 1" by code_simp
    ultimately show ?thesis
      by (simp add: message_frame_def Let_def packet_frame_def publish_body_def publish_head_def
          identifier_bytes_def message_packet_simps z)
  qed
  have utf: "utf8_valid (lit ''t'')" by code_simp
  have sm: "sendable_message (lit ''t'') [5] QoS1 False ?c"
    using utf by (simp add: sendable_message_def fl raw_client_new_def client_config_new_def)
  have fr: "packet_frame (fixed_header ?p) (ack_body ?p) = [0x40, 4, 0, 8, 0, 0]" "ack_body ?p = [0, 8, 0, 0]"
    by code_simp+
  have ty: "packet_type_from (fixed_header ?p) = Puback" by code_simp
  have ok: "ack_sendable Puback 4 ?p"
    using ty fr by (simp add: ack_sendable_def ack_wf_def section_plain_def section_wf_def puback_new_def ack_new_def)
  have co: "connection ?c = Some ?io" by (simp add: raw_client_new_def)
  let ?io1 = "?io\<lparr>sent := [message_frame (lit ''t'') [5] QoS1 False 7]\<rparr>"
  have wr: "io_write script_transport ?io (message_frame (lit ''t'') [5] QoS1 False 7)
      = Some (Some (length (message_frame (lit ''t'') [5] QoS1 False 7)), ?io1)"
    by (simp add: script_transport_def)
  have pe: "script_pend ?io1 = packet_frame (fixed_header ?p) (ack_body ?p) @ []"
    unfolding fr(1) by (simp add: script_pend_def)
  have rc: "ack_packet.reason_code ?p = 0" by code_simp
  have room: "length (packet_frame (fixed_header ?p) (ack_body ?p)) \<le> buffer_len ?c"
    "length (packet_frame (fixed_header ?p) (ack_body ?p)) + length (ack_body ?p) \<le> length (recv_buffer ?c)"
    unfolding fr(1) by (simp_all add: raw_client_new_def fr(2))
  have ne: "packet_identifier ?p \<noteq> 7" by code_simp
  from send_message_qos1_acknowledged [OF stream_script co sm i wr pe ok rc room] ne show ?thesis
    by (simp only: if_False)
qed

text \<open>
  With quality 0 or 2 the call succeeds as soon as the transport accepts any part of the PUBLISH
  frame: no acknowledgement is awaited (for quality 2 the exchange of MQTT is not carried
  out), and how many bytes were accepted does not matter.
\<close>

theorem send_message_unacknowledged:
  assumes "connection c = Some io" "sendable_message topic msg qos retain c" "qos \<noteq> QoS1"
    and "i = packet_id (rng (config c)) 0"
    and "io_write T io (message_frame topic msg qos retain i) = Some (Some k, io1)"
  shows "\<exists>c'. send_message T cap topic msg qos retain c = Some (Ok (), c') \<and> connection c' = Some io1"
proof -
  obtain c1 where "raw_send_message T cap topic msg qos retain c = Some (Ok i, c1)" "connection c1 = Some io1"
    using raw_send_message_run [OF assms(1,2,4,5)] by blast
  then show ?thesis using assms(3) by (simp add: send_message_def await_def finish_def)
qed

theorem send_message_unacknowledged_witness:
  "\<exists>c'. send_message script_transport 4 (lit ''t'') [5] QoS2 False
      (raw_client_new \<lparr>chunks = [], closed = False, accepts = [2], sent = []\<rparr>
         (replicate 20 0) 20 [] 0 (client_config_new MQTTv5 6)) = Some (Ok (), c')
    \<and> connection c' = Some \<lparr>chunks = [], closed = False, accepts = [], sent = [[0x34, 7]]\<rparr>"
proof -
  let ?io = "\<lparr>chunks = [], closed = False, accepts = [2], sent = []\<rparr>"
  let ?c = "raw_client_new ?io (replicate 20 0) 20 [] 0 (client_config_new MQTTv5 6)"
  have i: "(7 :: u16) = packet_id (rng (config ?c)) 0" by code_simp
  have z: "length (section_bytes []) = 1" "length (vbi_bytes 7) = 1" by code_simp+
  have fl: "length (message_frame (lit ''t'') [5] QoS2 False i) = 9" for i
  proof -
    have "fixed_header (message_packet (lit ''t'') [5] QoS2 False i) = 0x34"
      by (simp add: message_packet_def add_retain_def add_message_def add_identifier_def add_qos_def
          add_topic_name_def publish_new_def)
    moreover have "length (string_bytes \<lparr>es_string = lit ''t'', es_len = 1\<rparr>) = 3" by code_simp
    ultimately show ?thesis
      by (simp add: message_frame_def Let_def packet_frame_def publish_body_def publish_head_def
          identifier_bytes_def message_packet_simps z)
  qed
  have utf: "utf8_valid (lit ''t'')" by code_simp
  have sm: "sendable_message (lit ''t'') [5] QoS2 False ?c"
    using utf by (simp add: sendable_message_def fl raw_client_new_def client_config_new_def)
  have tk: "take 2 (message_frame (lit ''t'') [5] QoS2 False 7) = [0x34, 7]" by code_simp
  have co: "connection ?c = Some ?io" by (simp add: raw_client_new_def)
  show ?thesis
    using send_message_unacknowledged [OF co sm _ i, of script_transport 2 "?io\<lparr>accepts := [], sent := [[0x34, 7]]\<rparr>" 4]
    by (simp add: script_transport_def tk fl)
qed

text \<open>
  C29. A message of quality 1 that arrives, in whatever fragments, is handed out with its topic and
  payload, after a PUBACK with its identifier and reason 0 (six bytes) has been given to the
  transport; the stream is left behind the message.
\<close>

theorem receive_message_acknowledges:
  assumes "stream_transport T pend" "connection c = Some io"
    and "pend io = packet_frame (fixed_header p) (publish_body msg p) @ rest"
    and "publish_sendable 5 msg p" "fixed_header p AND 0x06 = 2"
    and "buffer_len c \<le> length (buffer c)"
    and "length (packet_frame (fixed_header p) (publish_body msg p)) \<le> buffer_len c"
    and "length (packet_frame (fixed_header p) (publish_body msg p)) + length (publish_body msg p) \<le> length (recv_buffer c)"
    and "6 \<le> recv_buffer_len c" "recv_buffer_len c \<le> length (recv_buffer c)"
    and "\<forall>io' bs. \<exists>k io''. io_write T io' bs = Some (Some k, io'')"
  shows "\<exists>c' io' k io''. receive_message T cap c = Some (Ok (es_string (topic_name p), msg), c')
    \<and> pend io' = rest \<and> connection c' = Some io''
    \<and> io_write T io' (0x40 # 4 # u16_to_be (pub_identifier p) @ [0, 0]) = Some (Some k, io'')"
proof -
  let ?f = "packet_frame (fixed_header p) (publish_body msg p)"
  have wf: "publish_wf msg p" and ty: "packet_type_from (fixed_header p) = Publish"
    using assms(4) by (auto simp: publish_sendable_def)
  obtain recv' io' where io': "pend io' = rest" and rl: "length recv' = length (recv_buffer c)" and
    p': "poll T cap 0 c = poll_packet T cap 0 (length ?f) io'
       (c\<lparr>buffer := ?f @ drop (length ?f) (buffer c), recv_buffer := recv', connection := Some io'\<rparr>)"
       (is "_ = poll_packet T cap 0 _ io' ?c1")
    by (rule poll_receives [OF assms(1,2,3) publish_wf_facts(4) [OF wf] assms(6,7,8)])
  let ?a = "puback_new\<lparr>packet_identifier := pub_identifier p, ack_packet.reason_code := 0\<rparr>"
  have sec: "section_bytes [] = [0]" "vbi_bytes 4 = [4]" by code_simp+
  have aw: "ack_wf ?a" by (simp add: ack_wf_def puback_new_def ack_new_def section_wf_def ack_body_def sec)
  have af: "packet_frame (fixed_header ?a) (ack_body ?a) = 0x40 # 4 # u16_to_be (pub_identifier p) @ [0, 0]"
    by (simp add: packet_frame_def ack_body_def puback_new_def ack_new_def sec)
  have enc: "puback_encode ?a recv' (recv_buffer_len c) =
      (Ok 6, (0x40 # 4 # u16_to_be (pub_identifier p) @ [0, 0]) @ drop 6 recv')"
    using ack_encoder.encode_frame [OF aw, of "recv_buffer_len c" recv'] assms(9,10) rl
    unfolding puback_encode_def af by simp
  have sl: "slice ((0x40 # 4 # u16_to_be (pub_identifier p) @ [0, 0]) @ drop 6 recv') 0 6
      = Some (0x40 # 4 # u16_to_be (pub_identifier p) @ [0, 0])" by (simp add: slice_def)
  obtain r where dec: "publish_decode 5 (publish_new, reader_new (?f @ drop (length ?f) (buffer c)) (length ?f))
      = (Ok (), (publish_received msg p, r))"
    using publish_decode_frame [OF assms(4), of "length ?f" "?f @ drop (length ?f) (buffer c)" "[]"] by auto
  obtain k io'' where w: "io_write T io' (0x40 # 4 # u16_to_be (pub_identifier p) @ [0, 0]) = Some (Some k, io'')"
    using assms(11) by blast
  have pr: "topic_name (publish_received msg p) = topic_name p" "message (publish_received msg p) = Some msg"
    "fixed_header (publish_received msg p) = fixed_header p" "pub_identifier (publish_received msg p) = pub_identifier p"
    using publish_wf_facts(1) [OF wf] assms(5) by (auto simp: publish_received_def)
  have "poll T cap 0 c = Some (Ok (EvMessage (es_string (topic_name p)) msg),
      ?c1\<lparr>recv_buffer := (0x40 # 4 # u16_to_be (pub_identifier p) @ [0, 0]) @ drop 6 recv', connection := Some io''\<rparr>)"
    unfolding p' poll_packet_def
    by (simp add: peek_frame ty poll_publish_def dec Let_def pr assms(5) enc sl send_def w del: append_Cons append.simps)
  then show ?thesis
    using io' w by (auto simp: receive_message_def await_def finish_def)
qed

theorem receive_message_acknowledges_witness:
  "\<exists>c' io' k io''. receive_message script_transport 4
      (raw_client_new \<lparr>chunks = [[0x32], [11, 0, 3, 97], [47, 98, 0, 7, 0, 1, 2, 3]], closed = False, accepts = [], sent = []\<rparr>
         (replicate 16 0) 16 (replicate 24 0) 24 (client_config_new MQTTv5 6))
     = Some (Ok (lit ''a/b'', [1, 2, 3]), c')
    \<and> script_pend io' = [] \<and> connection c' = Some io''
    \<and> io_write script_transport io' (0x40 # 4 # u16_to_be 7 @ [0, 0]) = Some (Some k, io'')"
proof -
  let ?c = "raw_client_new \<lparr>chunks = [[0x32], [11, 0, 3, 97], [47, 98, 0, 7, 0, 1, 2, 3]], closed = False, accepts = [], sent = []\<rparr>
         (replicate 16 0) 16 (replicate 24 0) 24 (client_config_new MQTTv5 6)"
  have f: "packet_frame (fixed_header sample_publish) (publish_body [1, 2, 3] sample_publish)
      = [0x32, 11, 0, 3, 97, 47, 98, 0, 7, 0, 1, 2, 3]"
    "length (publish_body [1, 2, 3] sample_publish) = 11" by code_simp+
  have t: "es_string (topic_name sample_publish) = lit ''a/b''" "pub_identifier sample_publish = 7"
    "fixed_header sample_publish AND 0x06 = 2" by code_simp+
  have ok: "publish_sendable 5 [1, 2, 3] sample_publish"
    using sample_publish_sendable by (auto simp: publish_sendable_def)
  have w: "\<forall>io' bs. \<exists>k io''. io_write script_transport io' bs = Some (Some k, io'')"
    by (auto simp: script_transport_def split: list.splits)
  have pe: "script_pend \<lparr>chunks = [[0x32], [11, 0, 3, 97], [47, 98, 0, 7, 0, 1, 2, 3]], closed = False, accepts = [], sent = []\<rparr>
      = packet_frame (fixed_header sample_publish) (publish_body [1, 2, 3] sample_publish) @ []"
    unfolding f(1) by (simp add: script_pend_def)
  from receive_message_acknowledges [OF stream_script _ pe ok t(3) _ _ _ _ _ w, of ?c 4]
  show ?thesis unfolding f t(1,2) by (simp add: raw_client_new_def)
qed

text \<open>
  C36. After a successful \<open>disconnect\<close> the client has no connection, and each of its eight operations
  returns \<open>NetworkError\<close> and changes nothing: no packet is encoded, no identifier drawn.
\<close>

theorem disconnected_client_refuses:
  assumes "disconnect T cap c = Some (Ok (), c')"
  shows "connection c' = None
    \<and> connect_to_broker T cap c' = Some (Err NetworkError, c')
    \<and> disconnect T cap c' = Some (Err NetworkError, c')
    \<and> send_message T cap topic msg qos retain c' = Some (Err NetworkError, c')
    \<and> subscribe_to_topics T cap tcap names c' = Some (Err NetworkError, c')
    \<and> subscribe_to_topic T cap topic c' = Some (Err NetworkError, c')
    \<and> unsubscribe_from_topic T cap topic c' = Some (Err NetworkError, c')
    \<and> receive_message T cap c' = Some (Err NetworkError, c')
    \<and> send_ping T cap c' = Some (Err NetworkError, c')"
proof -
  have "mqtt_version (config c) = MQTTv5 \<and> disconnect_v5 T cap c = Some (Ok (), c')"
    using assms by (auto simp: disconnect_def await_def finish_def raw_disconnect_def by_version_def
        split: option.splits prod.splits outcome.splits mqtt_version.splits)
  moreover from this have "connection c' = None \<and> config c' = config c"
    by (auto simp: disconnect_v5_def Let_def split: option.splits outcome.splits prod.splits)
  ultimately show ?thesis
    by (simp add: connect_to_broker_def disconnect_def send_message_def subscribe_to_topics_def subscribe_to_topic_def
        unsubscribe_from_topic_def receive_message_def send_ping_def await_def by_version_def
        raw_connect_to_broker_def connect_to_broker_v5_def raw_disconnect_def disconnect_v5_def
        raw_send_message_def send_message_v5_def raw_subscribe_to_topics_def subscribe_to_topics_v5_def
        raw_unsubscribe_from_topic_def unsubscribe_from_topic_v5_def raw_send_ping_def send_ping_v5_def poll_def)
qed

definition sample_disconnected :: "script raw_client" where
  "sample_disconnected = (raw_client_new undefined [0xE0, 2, 0, 0] 4 [] 0 (client_config_new MQTTv5 6))\<lparr>connection := None\<rparr>"

theorem disconnected_client_refuses_witness:
  "send_ping script_transport 4 sample_disconnected = Some (Err NetworkError, sample_disconnected)"
proof -
  let ?c = "raw_client_new \<lparr>chunks = [], closed = False, accepts = [], sent = []\<rparr> (replicate 4 0) 4 [] 0 (client_config_new MQTTv5 6)"
  have enc: "disconnect_encode disconnect_new (replicate 4 0) 4 = (Ok 4, [0xE0, 2, 0, 0])" by code_simp
  have "disconnect script_transport 4 ?c = Some (Ok (), sample_disconnected)"
    by (simp add: disconnect_def await_def finish_def raw_disconnect_def by_version_def disconnect_v5_def
        raw_client_new_def client_config_new_def enc Let_def slice_def send_def script_transport_def sample_disconnected_def)
  from disconnected_client_refuses [OF this] show ?thesis by blast
qed

end
