(* ===== verification/Controller_Config.thy ===== *)
theory Controller_Config
  imports Rust_Prelude
begin

text \<open>
  The configuration of the controller (stm32f407_controller/src/bin/config/mod.rs): the battery limits
  with their exchange with \<open>bms_standard\<close>, the network settings and the MQTT settings with their
  builder, and the JSON access. Floating-point limits are an opaque type \<open>'v\<close>; addresses are parsed
  by the network crates, so \<open>from_str\<close> is a parameter, as is the JSON codec.
\<close>

datatype stm_error = InvalidConfigData | ConfigDeserializeError | FileNotFound | InvalidFileName
  | InvalidHttpRequest | InvalidIpDetails | InvalidDnsDetails | BadMqttIp | BadMqttPort

definition stm_error_text :: "stm_error \<Rightarrow> string" where
  "stm_error_text e = (case e of
       InvalidConfigData \<Rightarrow> ''Invalid config data''
     | ConfigDeserializeError \<Rightarrow> ''Error deserializing config''
     | FileNotFound \<Rightarrow> ''File not found''
     | InvalidFileName \<Rightarrow> ''Bad filename''
     | InvalidHttpRequest \<Rightarrow> ''InvalidHttpRequest''
     | InvalidIpDetails \<Rightarrow> ''InvalidIpDetails''
     | InvalidDnsDetails \<Rightarrow> ''InvalidDnsDetails''
     | BadMqttIp \<Rightarrow> ''BadMqttIp''
     | BadMqttPort \<Rightarrow> ''BadMqttPort'')"

section \<open>Battery limits\<close>

type_synonym 'v min_max = "'v \<times> 'v"

record 'v bms_config =
  charge_current :: "'v min_max"
  discharge_current :: "'v min_max"
  current_sensor :: "'v min_max"
  pack_volts :: "'v min_max"
  cell_temperatures :: "'v min_max"
  pack_temperatures :: "'v min_max"
  cell_millivolt_peak :: u16
  cells_mv :: "u16 min_max"
  cell_millivolt_delta_max :: u16
  soc :: "u8 min_max"

record 'v controller_config =
  limits :: "'v bms_config"
  dod :: "u8 min_max"

text \<open>The fields of \<open>Config\<close> are those of the battery crate's configuration and \<open>dod\<close>.\<close>

definition config_default :: "int controller_config" where
  "config_default =
     \<lparr>limits =
        \<lparr>charge_current = (0, 200), discharge_current = (0, 200), current_sensor = (-40, 40),
         pack_volts = (300, 400), cell_temperatures = (-20, 50), pack_temperatures = (-20, 50),
         cell_millivolt_peak = 4200, cells_mv = (3000, 4150), cell_millivolt_delta_max = 500,
         soc = (0, 100)\<rparr>,
      dod = (0, 90)\<rparr>"

definition export_as_bms :: "'v controller_config \<Rightarrow> 'v bms_config" where
  "export_as_bms c =
     \<lparr>charge_current = charge_current (limits c), discharge_current = discharge_current (limits c),
      current_sensor = current_sensor (limits c), pack_volts = pack_volts (limits c),
      cell_temperatures = cell_temperatures (limits c), pack_temperatures = pack_temperatures (limits c),
      cell_millivolt_peak = cell_millivolt_peak (limits c), cells_mv = cells_mv (limits c),
      cell_millivolt_delta_max = cell_millivolt_delta_max (limits c), soc = soc (limits c)\<rparr>"

definition import_from_bms :: "'v bms_config \<Rightarrow> 'v controller_config \<Rightarrow> 'v controller_config" where
  "import_from_bms b c = c\<lparr>limits := (limits c)\<lparr>
     charge_current := charge_current b, discharge_current := discharge_current b,
     current_sensor := current_sensor b, pack_volts := pack_volts b,
     cell_temperatures := pack_temperatures b, pack_temperatures := pack_temperatures b,
     cell_millivolt_peak := cell_millivolt_peak b, cells_mv := cells_mv b,
     cell_millivolt_delta_max := cell_millivolt_delta_max b, soc := soc b\<rparr>\<rparr>"

text \<open>Importing the battery's limits and exporting them again loses the cell temperatures: they
  become the pack temperatures. Everything else survives, and importing twice is importing once.\<close>

theorem config_import_export:
  "export_as_bms (import_from_bms b c) = b\<lparr>cell_temperatures := pack_temperatures b\<rparr> \<and>
   import_from_bms (export_as_bms (import_from_bms b c)) c = import_from_bms b c \<and>
   dod (import_from_bms b c) = dod c"
  by (simp add: export_as_bms_def import_from_bms_def)

section \<open>Network settings\<close>

record net_config =
  dhcp :: bool
  nc_ip :: "string option"
  netmask :: "string option"
  nc_gateway :: "string option"
  dns :: "string option"

definition net_config_new :: "bool \<Rightarrow> string option \<Rightarrow> string option \<Rightarrow> string option \<Rightarrow> string option \<Rightarrow> net_config" where
  "net_config_new d i n g s = \<lparr>dhcp = d, nc_ip = i, netmask = n, nc_gateway = g, dns = s\<rparr>"

datatype 'a stack_config = Dhcpv4 | Ipv4_static "'a \<times> nat" "'a list" "'a option"

definition create_config :: "(string \<Rightarrow> 'a option) \<Rightarrow> net_config \<Rightarrow> (stm_error, 'a stack_config) outcome" where
  "create_config from_str c =
     (case nc_ip c of
        None \<Rightarrow> Panic
      | Some i \<Rightarrow>
         (case from_str i of
            None \<Rightarrow> Err InvalidIpDetails
          | Some ipaddress \<Rightarrow>
             let address = (ipaddress, 24);
                 g = (case nc_gateway c of Some gw \<Rightarrow> from_str gw | None \<Rightarrow> None) in
             (case dns c of
                Some d \<Rightarrow>
                  (case from_str d of
                     None \<Rightarrow> Err InvalidDnsDetails
                   | Some s \<Rightarrow> Ok (Ipv4_static address [s] g))
              | None \<Rightarrow> Ok (Ipv4_static address [] g))))"

definition net_get_config :: "(string \<Rightarrow> 'a option) \<Rightarrow> net_config \<Rightarrow> (stm_error, 'a stack_config) outcome" where
  "net_get_config from_str c =
     (if dhcp c \<or> nc_ip c = None \<or> netmask c = None then Ok Dhcpv4
      else case create_config from_str c of
          Ok conf \<Rightarrow> Ok conf
        | Err e \<Rightarrow> Ok Dhcpv4
        | Panic \<Rightarrow> Panic)"

text \<open>The stack always gets a configuration; a static one has the prefix length 24 whatever the
  netmask says.\<close>

theorem net_config_total:
  "net_get_config from_str c = Ok Dhcpv4 \<or>
   (\<exists>i a s g. nc_ip c = Some i \<and> from_str i = Some a \<and> netmask c \<noteq> None \<and> \<not> dhcp c \<and>
      net_get_config from_str c = Ok (Ipv4_static (a, 24) s g))"
  by (auto simp: net_get_config_def create_config_def Let_def split: option.split)

section \<open>MQTT settings\<close>

record mqtt_config =
  mc_host :: "string option"
  mc_port :: "u16 option"
  mc_client_id :: "bytes option"
  mc_username :: "bytes option"
  mc_password :: "bytes option"
  mc_basetopic :: "bytes option"
  mc_qos :: u8
  mc_retain :: bool
  mc_interval :: u16

definition mqtt_builder_new :: mqtt_config where
  "mqtt_builder_new = \<lparr>mc_host = None, mc_port = None, mc_client_id = None, mc_username = None, mc_password = None,
     mc_basetopic = None, mc_qos = 0, mc_retain = False, mc_interval = 10\<rparr>"

definition builder_host :: "string \<Rightarrow> mqtt_config \<Rightarrow> mqtt_config" where "builder_host x c = c\<lparr>mc_host := Some x\<rparr>"
definition builder_port :: "u16 \<Rightarrow> mqtt_config \<Rightarrow> mqtt_config" where "builder_port x c = c\<lparr>mc_port := Some x\<rparr>"
definition builder_client_id :: "bytes \<Rightarrow> mqtt_config \<Rightarrow> mqtt_config" where "builder_client_id x c = c\<lparr>mc_client_id := Some x\<rparr>"
definition builder_username :: "bytes \<Rightarrow> mqtt_config \<Rightarrow> mqtt_config" where "builder_username x c = c\<lparr>mc_username := Some x\<rparr>"
definition builder_password :: "bytes \<Rightarrow> mqtt_config \<Rightarrow> mqtt_config" where "builder_password x c = c\<lparr>mc_password := Some x\<rparr>"
definition builder_basetopic :: "bytes \<Rightarrow> mqtt_config \<Rightarrow> mqtt_config" where "builder_basetopic x c = c\<lparr>mc_basetopic := Some x\<rparr>"
definition builder_qos :: "u8 \<Rightarrow> mqtt_config \<Rightarrow> mqtt_config" where "builder_qos x c = c\<lparr>mc_qos := x\<rparr>"
definition builder_retain :: "bool \<Rightarrow> mqtt_config \<Rightarrow> mqtt_config" where "builder_retain x c = c\<lparr>mc_retain := x\<rparr>"
definition builder_interval :: "u16 \<Rightarrow> mqtt_config \<Rightarrow> mqtt_config" where "builder_interval x c = c\<lparr>mc_interval := x\<rparr>"

definition get_username :: "mqtt_config \<Rightarrow> (stm_error, bytes) outcome" where
  "get_username c = unwrap_option (mc_username c)"

definition get_password :: "mqtt_config \<Rightarrow> (stm_error, bytes) outcome" where
  "get_password c = unwrap_option (mc_password c)"

definition get_topic :: "mqtt_config \<Rightarrow> (stm_error, bytes) outcome" where
  "get_topic c = unwrap_option (mc_basetopic c)"

definition mqtt_socket_addr :: "(string \<Rightarrow> 'a option) \<Rightarrow> mqtt_config \<Rightarrow> (stm_error, 'a \<times> u16) outcome" where
  "mqtt_socket_addr from_str c =
     (case mc_host c of
        None \<Rightarrow> Err BadMqttIp
      | Some h \<Rightarrow>
         (case mc_port c of
            None \<Rightarrow> Err BadMqttPort
          | Some p \<Rightarrow> (case from_str h of None \<Rightarrow> Err BadMqttIp | Some a \<Rightarrow> Ok (a, p))))"

section \<open>JSON\<close>

definition decode_from_json :: "(bytes \<Rightarrow> 'c option) \<Rightarrow> bytes \<Rightarrow> 'c \<Rightarrow> (stm_error, unit) outcome \<times> 'c" where
  "decode_from_json from_json bs c =
     (if \<not> utf8_valid bs then (Err InvalidConfigData, c)
      else case from_json bs of
          None \<Rightarrow> (Err ConfigDeserializeError, c)
        | Some c' \<Rightarrow> (Ok (), c'))"

text \<open>A rejected text leaves the configuration as it was; what \<open>to_json\<close> writes is accepted and
  gives the same configuration, if the codec does.\<close>

lemma decode_from_json_cases:
  "fst (decode_from_json from_json bs c) \<noteq> Ok () \<Longrightarrow> snd (decode_from_json from_json bs c) = c"
  by (auto simp: decode_from_json_def split: if_splits option.splits)

lemma decode_encoded_json:
  "from_json (to_json c) = Some c \<Longrightarrow> utf8_valid (to_json c) \<Longrightarrow>
   decode_from_json from_json (to_json c) c0 = (Ok (), c)"
  by (simp add: decode_from_json_def)

end
