(* ===== verification/Network_Wait.thy ===== *)
theory Network_Wait
  imports Rust_Prelude
begin

text \<open>
  What the network tasks of the controller do before their own loops: wait until the link is up and an
  address is configured (http_net_task of web/http.rs, mqtt_net_task of tasks/mqtt.rs, debug_task of
  tasks/tcp_debug.rs, modbus_task of tasks/modbus).
\<close>

text \<open>The loops look at the link and at the address until they
  are there, with a pause after each look that fails. The looks are given; the result is the time
  waited in milliseconds, None while it is still waiting.\<close>

fun wait_for :: "nat \<Rightarrow> bool list \<Rightarrow> nat option" where
  "wait_for ms [] = None"
| "wait_for ms (ok # looks) = (if ok then Some 0 else map_option ((+) ms) (wait_for ms looks))"

definition wait_network :: "nat \<Rightarrow> nat \<Rightarrow> bool list \<Rightarrow> bool list \<Rightarrow> nat option" where
  "wait_network ms_link ms_config link config =
     (case wait_for ms_link link of
        None \<Rightarrow> None
      | Some t \<Rightarrow> map_option ((+) t) (wait_for ms_config config))"

lemma wait_for_Some:
  "wait_for ms looks = Some t \<longleftrightarrow> (\<exists>n looks'. looks = replicate n False @ True # looks' \<and> t = n * ms)"
proof (induction looks arbitrary: t)
  case (Cons ok looks)
  show ?case
  proof (cases ok)
    case True
    then show ?thesis by (auto simp: Cons_eq_append_conv Cons_replicate_eq intro!: exI [of _ 0])
  next
    case False
    show ?thesis
    proof
      assume "wait_for ms (ok # looks) = Some t"
      then obtain u n looks' where "t = ms + u" "looks = replicate n False @ True # looks'" "u = n * ms"
        using False Cons.IH by auto
      then show "\<exists>n looks'. ok # looks = replicate n False @ True # looks' \<and> t = n * ms"
        using False by (intro exI [of _ "Suc n"] exI [of _ looks']) simp
    next
      assume "\<exists>n looks'. ok # looks = replicate n False @ True # looks' \<and> t = n * ms"
      then obtain n looks' where n: "ok # looks = replicate n False @ True # looks'" "t = n * ms" by blast
      then obtain k where "n = Suc k" using False by (cases n) auto
      then show "wait_for ms (ok # looks) = Some t" using n False Cons.IH [of "k * ms"] by auto
    qed
  qed
qed simp

text \<open>The Modbus task looks at both in one loop.\<close>

definition wait_network_both :: "nat \<Rightarrow> (bool \<times> bool) list \<Rightarrow> nat option" where
  "wait_network_both ms looks = wait_for ms (map (\<lambda>(link, config). link \<and> config) looks)"

text \<open>Looking at the link first and at the address later, a task may go on while the link is down
  again; looking at both it goes on only when both were there in the same look.\<close>

lemma wait_for_in_set: "wait_for ms looks = Some t \<Longrightarrow> True \<in> set looks"
  by (auto simp: wait_for_Some)

lemma wait_network_both_up: "wait_network_both ms looks = Some t \<Longrightarrow> (True, True) \<in> set looks"
  using wait_for_in_set [of ms "map (\<lambda>(link, config). link \<and> config) looks" t]
  by (auto simp: wait_network_both_def)

lemma wait_network_Some:
  "wait_network a b link config = Some t \<longleftrightarrow> (\<exists>u v. wait_for a link = Some u \<and> wait_for b config = Some v \<and> t = u + v)"
  by (auto simp: wait_network_def split: option.split)

end
