(* ===== verification/Mqtt_Task.thy ===== *)
theory Mqtt_Task
  imports Mqtt_Client Controller_Config Network_Wait
begin

text \<open>
  The MQTT task of the controller (tasks/mqtt.rs) on top of the MQTT client: the client
  configuration it builds, one session with the broker, the telemetry record and the UART task.
  The TCP connection is the transport of the client; texts of the environment file, the JSON codec and
  the battery data are parameters. A session that does not complete is \<open>None\<close>.
\<close>

definition BUF_SIZE :: nat where "BUF_SIZE = 1500"

definition MAX_PROPS :: nat where "MAX_PROPS = 5"

section \<open>Configuration\<close>

definition mqtt_qos_of :: "u8 \<Rightarrow> quality_of_service" where
  "mqtt_qos_of q = (if q = 1 then QoS1 else if q = 2 then QoS2 else QoS0)"

text \<open>The steps in the order of the code, with the first, inverted test of the user name.\<close>

definition session_config :: "bytes \<Rightarrow> mqtt_config \<Rightarrow> (stm_error, client_config) outcome" where
  "session_config wtopic mc =
     bind_outcome (get_username mc) (\<lambda>user.
     bind_outcome (get_password mc) (\<lambda>pass.
       let c0 = client_config_new MQTTv5 50000;
           c1 = (if user = [] then cfg_add_username user c0 else c0);
           c2 = cfg_add_username user c1;
           c3 = (if pass \<noteq> [] then cfg_add_password pass c2 else c2);
           c4 = cfg_add_will wtopic (lit ''Online'') (mc_retain mc) c3 in
       Ok (c4\<lparr>max_packet_size := 6000, cfg_keep_alive := 60000, max_packet_size := 300\<rparr>)))"

definition session_client :: "'io \<Rightarrow> client_config \<Rightarrow> 'io raw_client" where
  "session_client tcp cfg = raw_client_new tcp (replicate BUF_SIZE 0) BUF_SIZE (replicate BUF_SIZE 0) BUF_SIZE cfg"

section \<open>One session\<close>

text \<open>One round of the inner loop: ping, then publish the telemetry; \<open>fmt\<close> is the text behind the
  mutex, or None when the mutex is taken. True means another round after the rate limiter.\<close>

definition session_round :: "'io transport \<Rightarrow> bytes \<Rightarrow> quality_of_service \<Rightarrow> bool \<Rightarrow> bytes option \<Rightarrow> ('io, bool) client_op" where
  "session_round T topic qos retain fmt c =
     (case send_ping T MAX_PROPS c of
        None \<Rightarrow> None
      | Some (Panic, c1) \<Rightarrow> Some (Panic, c1)
      | Some (Err e, c1) \<Rightarrow>
          (case disconnect T MAX_PROPS c1 of
             None \<Rightarrow> None
           | Some (Panic, c2) \<Rightarrow> Some (Panic, c2)
           | Some (_, c2) \<Rightarrow>
               (case connect_to_broker T MAX_PROPS c2 of
                  None \<Rightarrow> None
                | Some (Panic, c3) \<Rightarrow> Some (Panic, c3)
                | Some (_, c3) \<Rightarrow> Some (Ok False, c3)))
      | Some (Ok _, c1) \<Rightarrow>
          (case fmt of
             None \<Rightarrow> Some (Ok False, c1)
           | Some payload \<Rightarrow>
               (case send_message T MAX_PROPS topic payload qos retain c1 of
                  None \<Rightarrow> None
                | Some (Panic, c2) \<Rightarrow> Some (Panic, c2)
                | Some (Err e, c2) \<Rightarrow> Some (Ok False, c2)
                | Some (Ok _, c2) \<Rightarrow> Some (Ok True, c2))))"

fun session_loop :: "'io transport \<Rightarrow> bytes \<Rightarrow> quality_of_service \<Rightarrow> bool \<Rightarrow> bytes option list \<Rightarrow> ('io, nat) client_op" where
  "session_loop T topic qos retain [] c = Some (Ok 0, c)"
| "session_loop T topic qos retain (fmt # fmts) c =
     (case session_round T topic qos retain fmt c of
        None \<Rightarrow> None
      | Some (Ok True, c1) \<Rightarrow>
          (case session_loop T topic qos retain fmts c1 of
             Some (Ok n, c2) \<Rightarrow> Some (Ok (n + 1), c2)
           | r \<Rightarrow> r)
      | Some (Ok False, c1) \<Rightarrow> Some (Ok 0, c1)
      | Some (Err e, c1) \<Rightarrow> Some (Err e, c1)
      | Some (Panic, c1) \<Rightarrow> Some (Panic, c1))"

text \<open>A session on a fresh TCP connection: the number of messages published before it ended, or the
  reason why the broker could not be connected.\<close>

definition mqtt_session :: "'io transport \<Rightarrow> bytes \<Rightarrow> mqtt_config \<Rightarrow> bytes option list \<Rightarrow> 'io \<Rightarrow>
    ((reason_code, nat) outcome \<times> 'io raw_client) option" where
  "mqtt_session T wtopic mc fmts tcp =
     (case (session_config wtopic mc, get_topic mc) of
        (Ok cfg, Ok topic) \<Rightarrow>
          (case connect_to_broker T MAX_PROPS (session_client tcp cfg) of
             None \<Rightarrow> None
           | Some (Ok _, c) \<Rightarrow> session_loop T topic (mqtt_qos_of (mc_qos mc)) (mc_retain mc) fmts c
           | Some (Err e, c) \<Rightarrow> Some (Err e, c)
           | Some (Panic, c) \<Rightarrow> Some (Panic, c))
      | (_, _) \<Rightarrow> Some (Panic, session_client tcp (client_config_new MQTTv5 50000)))"

section \<open>The task\<close>

text \<open>The variables of the environment that the build reads.\<close>

record mqtt_env =
  MQTTHOST :: string
  MQTTPORT :: bytes
  MQTTCLIENTID :: bytes
  MQTTUSERNAME :: bytes
  MQTTPASSWORD :: bytes
  MQTTBASETOPIC :: bytes
  MQTTQOS :: bytes
  MQTTRETAIN :: bytes
  MQTTINTERVAL :: bytes
  MQTTWILLTOPIC :: bytes

definition mqtt_task_config :: "mqtt_env \<Rightarrow> (stm_error, mqtt_config) outcome" where
  "mqtt_task_config env =
     bind_outcome (unwrap_option (parse_unsigned 65535 (MQTTPORT env))) (\<lambda>port.
     bind_outcome (unwrap_option (parse_unsigned 255 (MQTTQOS env))) (\<lambda>qos.
     bind_outcome (unwrap_option (parse_unsigned 65535 (MQTTINTERVAL env))) (\<lambda>interval.
       Ok (builder_interval (of_nat interval) (builder_retain (MQTTRETAIN env = lit ''true'')
         (builder_qos (of_nat qos) (builder_basetopic (MQTTBASETOPIC env) (builder_password (MQTTPASSWORD env)
         (builder_username (MQTTUSERNAME env) (builder_client_id (MQTTCLIENTID env) (builder_port (of_nat port)
         (builder_host (MQTTHOST env) mqtt_builder_new))))))))))))"

text \<open>One attempt of the outer loop: the TCP connection is refused, or the session runs on it.\<close>

datatype 'io attempt = Tcp_refused | Tcp_connected 'io "bytes option list"

text \<open>How the attempt ended, and the milliseconds before the next one.\<close>

definition mqtt_attempt :: "'io transport \<Rightarrow> (string \<Rightarrow> 'a option) \<Rightarrow> bytes \<Rightarrow> mqtt_config \<Rightarrow> 'io attempt \<Rightarrow>
    (unit, nat \<times> nat) outcome option" where
  "mqtt_attempt T from_str wtopic mc a =
     (case mqtt_socket_addr from_str mc of
        Ok addr \<Rightarrow>
          (case a of
             Tcp_refused \<Rightarrow> Some (Ok (0, 10000))
           | Tcp_connected tcp fmts \<Rightarrow>
               (case mqtt_session T wtopic mc fmts tcp of
                  None \<Rightarrow> None
                | Some (Ok n, c) \<Rightarrow> Some (Ok (n, 0))
                | Some (Err e, c) \<Rightarrow> Some (Ok (0, 10000))
                | Some (Panic, c) \<Rightarrow> Some Panic))
      | _ \<Rightarrow> Some Panic)"

fun mqtt_loop :: "'io transport \<Rightarrow> (string \<Rightarrow> 'a option) \<Rightarrow> bytes \<Rightarrow> mqtt_config \<Rightarrow> 'io attempt list \<Rightarrow>
    (unit, (nat \<times> nat) list) outcome option" where
  "mqtt_loop T from_str wtopic mc [] = Some (Ok [])"
| "mqtt_loop T from_str wtopic mc (a # as) =
     (case mqtt_attempt T from_str wtopic mc a of
        Some (Ok x) \<Rightarrow> map_option (\<lambda>r. bind_outcome r (\<lambda>xs. Ok (x # xs))) (mqtt_loop T from_str wtopic mc as)
      | Some Panic \<Rightarrow> Some Panic
      | Some (Err e) \<Rightarrow> Some (Err e)
      | None \<Rightarrow> None)"

text \<open>The whole task, with the time it waits for the network.\<close>

definition mqtt_net_task :: "'io transport \<Rightarrow> (string \<Rightarrow> 'a option) \<Rightarrow> mqtt_env \<Rightarrow> bool list \<Rightarrow> bool list \<Rightarrow> 'io attempt list \<Rightarrow>
    (unit, nat \<times> (nat \<times> nat) list) outcome option" where
  "mqtt_net_task T from_str env link address as =
     (case wait_network 500 1500 link address of
        None \<Rightarrow> None
      | Some t \<Rightarrow>
          (case mqtt_task_config env of
             Ok mc \<Rightarrow> map_option (\<lambda>r. bind_outcome r (\<lambda>xs. Ok (t, xs))) (mqtt_loop T from_str (MQTTWILLTOPIC env) mc as)
           | _ \<Rightarrow> Some Panic))"

section \<open>Telemetry\<close>

record 'v mqtt_format =
  mf_soc :: 'v
  mf_volts :: 'v
  cell_mv_high :: u16
  cell_mv_low :: u16
  cell_temp_high :: 'v
  cell_temp_low :: 'v
  mf_amps :: 'v
  mf_kwh :: 'v
  mf_charge :: 'v
  mf_discharge :: 'v
  mf_bal :: u8
  mf_valid :: bool

text \<open>What \<open>From<Bms>\<close> reads of the battery data.\<close>

record 'v bms_view =
  bv_soc :: 'v
  bv_pack_volts :: 'v
  bv_cell_range_mv :: "u16 min_max"
  bv_temps :: "'v min_max"
  bv_current :: 'v
  bv_kwh_remaining :: 'v
  bv_charge_max :: 'v
  bv_discharge_max :: 'v
  bv_balancing_cells :: u8
  bv_valid :: bool

definition mqtt_format_from :: "'v bms_view \<Rightarrow> 'v mqtt_format" where
  "mqtt_format_from b =
     \<lparr>mf_soc = bv_soc b, mf_volts = bv_pack_volts b, cell_mv_high = snd (bv_cell_range_mv b),
      cell_mv_low = fst (bv_cell_range_mv b), cell_temp_high = snd (bv_temps b), cell_temp_low = fst (bv_temps b),
      mf_amps = bv_current b, mf_kwh = bv_kwh_remaining b, mf_charge = bv_charge_max b,
      mf_discharge = bv_discharge_max b, mf_bal = bv_balancing_cells b, mf_valid = bv_valid b\<rparr>"

definition mqtt_format_default :: "'v :: zero mqtt_format" where
  "mqtt_format_default =
     \<lparr>mf_soc = 0, mf_volts = 0, cell_mv_high = 0, cell_mv_low = 0, cell_temp_high = 0, cell_temp_low = 0,
      mf_amps = 0, mf_kwh = 0, mf_charge = 0, mf_discharge = 0, mf_bal = 0, mf_valid = False\<rparr>"

section \<open>The UART task\<close>

record ('c, 'b) uart_state =
  uart_config :: 'c
  uart_bms_config :: 'b
  mqtt_frequency :: nat
  uart_out :: "bytes list"

datatype uart_event = Uart_read "bytes option" | Uart_mqtt

text \<open>\<open>timeout\<close> is \<open>LAST_READING_TIMEOUT_SECS\<close>; \<open>elapsed\<close> the whole seconds since the last
  telemetry, which is rate limited.\<close>

definition uart_step :: "(bytes \<Rightarrow> 'c option) \<Rightarrow> ('c \<Rightarrow> bytes) \<Rightarrow> ('c \<Rightarrow> 'b) \<Rightarrow> nat \<Rightarrow> (nat \<Rightarrow> nat) \<Rightarrow> nat \<Rightarrow> bytes \<Rightarrow>
    uart_event \<Rightarrow> ('c, 'b) uart_state \<Rightarrow> ('c, 'b) uart_state" where
  "uart_step from_json to_json export timeout elapsed now fmt ev s =
     (case ev of
        Uart_read None \<Rightarrow> s
      | Uart_read (Some bs) \<Rightarrow>
          (case decode_from_json from_json bs (uart_config s) of
             (Ok _, c) \<Rightarrow> s\<lparr>uart_config := c, uart_bms_config := export c, uart_out := uart_out s @ [to_json c]\<rparr>
           | (_, c) \<Rightarrow> s\<lparr>uart_config := c, uart_out := uart_out s @ [lit ''{error: '' @ [34], bs, [34] @ lit ''}'', to_json c]\<rparr>)
      | Uart_mqtt \<Rightarrow>
          if elapsed (mqtt_frequency s) < timeout then s
          else s\<lparr>mqtt_frequency := now, uart_out := uart_out s @ [fmt]\<rparr>)"

section \<open>What the session does\<close>

text \<open>
  The broker gets the configured user name, also an empty one, the password unless it is empty, a
  keep-alive of 60000 seconds and a packet limit of 300; the configured client identifier is
  never handed on.
\<close>

lemma session_config_values:
  assumes "mc_username mc = Some user" "mc_password mc = Some pass"
  shows "\<exists>cfg. session_config wtopic mc = Ok cfg \<and> username_flag cfg \<and> es_string (cfg_username cfg) = user \<and>
    password_flag cfg = (pass \<noteq> []) \<and> cfg_keep_alive cfg = 60000 \<and> max_packet_size cfg = 300 \<and>
    cfg_client_id cfg = encoded_string_new \<and> mqtt_version cfg = MQTTv5"
  using assms
  by (auto simp: session_config_def get_username_def get_password_def cfg_add_username_def cfg_add_password_def
      cfg_add_will_def client_config_new_def Let_def)

lemma disconnect_drops:
  assumes "disconnect T cap c = Some (r, c')" "mqtt_version (config c) = MQTTv5" "r \<noteq> Panic"
  shows "connection c' = None \<and> mqtt_version (config c') = MQTTv5"
  using assms
  by (auto simp: disconnect_def await_def finish_def raw_disconnect_def by_version_def disconnect_v5_def Let_def
      split: option.splits prod.splits outcome.splits mqtt_version.splits)

lemma connect_without_connection:
  "connection c = None \<Longrightarrow> mqtt_version (config c) = MQTTv5 \<Longrightarrow> connect_to_broker T cap c = Some (Err NetworkError, c)"
  by (simp add: connect_to_broker_def await_def raw_connect_to_broker_def by_version_def connect_to_broker_v5_def)

text \<open>
  C38. After a failed ping the task disconnects and tries to connect again with the same client. The
  disconnection has given the connection up, so this attempt fails at once and changes nothing: the
  round ends the session with a client that has no connection, or it panics or never completes
  while disconnecting; the reconnection inside the session never succeeds. The next connection is made by
  the outer loop of the task, with a new socket and a new client.
\<close>

theorem mqtt_reconnect_futile:
  assumes "send_ping T MAX_PROPS c = Some (Err e, c1)" "mqtt_version (config c1) = MQTTv5"
  shows "case session_round T topic qos retain fmt c of
      None \<Rightarrow> disconnect T MAX_PROPS c1 = None
    | Some (Ok again, c') \<Rightarrow> \<not> again \<and> connection c' = None \<and> connect_to_broker T MAX_PROPS c' = Some (Err NetworkError, c') \<and>
        disconnect T MAX_PROPS c1 \<in> {Some (Ok (), c'), Some (Err NetworkError, c'), Some (Err BuffError, c')}
    | Some (Err _, _) \<Rightarrow> False
    | Some (Panic, c') \<Rightarrow> disconnect T MAX_PROPS c1 = Some (Panic, c')"
proof -
  have err: "r \<in> {Ok (), Err NetworkError, Err BuffError, Panic}" if "disconnect T MAX_PROPS c1 = Some (r, c')" for r c'
    using that assms(2)
    by (auto simp: disconnect_def await_def finish_def raw_disconnect_def by_version_def disconnect_v5_def Let_def
        split: option.splits prod.splits outcome.splits mqtt_version.splits)
  show ?thesis
  proof (cases "disconnect T MAX_PROPS c1")
    case None
    then show ?thesis using assms(1) by (simp add: session_round_def)
  next
    case (Some x)
    obtain r c2 where x: "disconnect T MAX_PROPS c1 = Some (r, c2)" using Some by (cases x) auto
    show ?thesis
    proof (cases "r = Panic")
      case True
      then show ?thesis using assms(1) x by (simp add: session_round_def)
    next
      case False
      have "connection c2 = None" "mqtt_version (config c2) = MQTTv5"
        using disconnect_drops [OF x assms(2) False] by simp_all
      then have "connect_to_broker T MAX_PROPS c2 = Some (Err NetworkError, c2)" by (rule connect_without_connection)
      then show ?thesis using assms(1) x False err [OF x] \<open>connection c2 = None\<close>
        by (auto simp: session_round_def split: outcome.split)
    qed
  qed
qed

text \<open>A client whose peer has closed the connection.\<close>

definition sample_dead :: "script raw_client" where
  "sample_dead = raw_client_new \<lparr>chunks = [], closed = True, accepts = [], sent = []\<rparr> (replicate 4 0) 4
     (replicate 4 0) 4 (client_config_new MQTTv5 6)"

lemma sample_dead_ping:
  "\<exists>c1. send_ping script_transport MAX_PROPS sample_dead = Some (Err NetworkError, c1) \<and>
     mqtt_version (config c1) = MQTTv5"
proof -
  have enc: "pingreq_encode pingreq_new (replicate 4 0) 4 = (Ok 2, [0xC0, 0, 0, 0])" by code_simp
  show ?thesis
    by (simp add: send_ping_def await_def raw_send_ping_def by_version_def send_ping_v5_def sample_dead_def
        raw_client_new_def client_config_new_def enc send_encoded_def Let_def slice_def send_def script_transport_def
        poll_def receive_packet_def receive_header.simps [of _ 0] writer_new_def receive_def)
qed

theorem mqtt_reconnect_futile_witness:
  "\<not> (\<exists>c'. session_round script_transport (lit ''bms'') QoS0 False (Some []) sample_dead = Some (Ok True, c'))"
proof -
  obtain c1 where "send_ping script_transport MAX_PROPS sample_dead = Some (Err NetworkError, c1)"
    "mqtt_version (config c1) = MQTTv5" using sample_dead_ping by blast
  from mqtt_reconnect_futile [OF this, of "lit ''bms''" QoS0 False "Some []"] show ?thesis by auto
qed

end
