(* ===== verification/Mqtt_Session.thy ===== *)
theory Mqtt_Session
  imports Mqtt_Task
begin

text \<open>
  The MQTT task and a broker together: a session of the task (theory Mqtt_Task) on a transport whose
  peer answers. \<open>pend io\<close> are the bytes the client has still to read, in whatever fragments, \<open>log io\<close>
  the packets it has sent, and \<open>reply\<close> what the broker sends back for a packet.
\<close>

definition responsive_broker :: "'io transport \<Rightarrow> ('io \<Rightarrow> bytes) \<Rightarrow> ('io \<Rightarrow> bytes list) \<Rightarrow> (bytes \<Rightarrow> bytes) \<Rightarrow> bool" where
  "responsive_broker T pend log reply \<longleftrightarrow> stream_transport T pend \<and> reads_keep T log \<and>
     (\<forall>io f. \<exists>io'. io_write T io f = Some (Some (length f), io') \<and> pend io' = pend io @ reply f \<and> log io' = log io @ [f])"

text \<open>A client between two exchanges, with buffers of the size the task gives it.\<close>

definition idle_client :: "('io \<Rightarrow> bytes) \<Rightarrow> 'io raw_client \<Rightarrow> 'io \<Rightarrow> bool" where
  "idle_client pend c io \<longleftrightarrow> connection c = Some io \<and> pend io = [] \<and> mqtt_version (config c) = MQTTv5 \<and>
     buffer_len c = BUF_SIZE \<and> length (buffer c) = BUF_SIZE \<and> length (recv_buffer c) = BUF_SIZE"

section \<open>One exchange\<close>

lemma poll_reply:
  assumes "responsive_broker T pend log reply" "connection c = Some io" "pend io = packet_frame h body"
    and "buffer_len c = BUF_SIZE" "length (buffer c) = BUF_SIZE" "length (recv_buffer c) = BUF_SIZE"
    and "length (packet_frame h body) + length body \<le> BUF_SIZE"
  obtains recv' io' where "pend io' = []" "log io' = log io" "length recv' = BUF_SIZE"
    and "poll T cap mt c = poll_packet T cap mt (length (packet_frame h body)) io'
       (c\<lparr>buffer := packet_frame h body @ drop (length (packet_frame h body)) (buffer c),
          recv_buffer := recv', connection := Some io'\<rparr>)"
proof -
  have T: "stream_transport T pend" and keep: "reads_keep T log" using assms(1) by (simp_all add: responsive_broker_def)
  have p: "pend io = packet_frame h body @ []" using assms(3) by simp
  have b: "length body \<le> 268435455" using assms(7) by (simp add: BUF_SIZE_def)
  obtain recv' io' w where r: "receive_packet T (buffer c) (buffer_len c) (recv_buffer c) io =
      Some (Ok (length (packet_frame h body)), (w, recv', io'))" "pend io' = []" "length recv' = length (recv_buffer c)"
    "poll T cap mt c = poll_packet T cap mt (length (packet_frame h body)) io'
       (c\<lparr>buffer := packet_frame h body @ drop (length (packet_frame h body)) (buffer c),
          recv_buffer := recv', connection := Some io'\<rparr>)"
    by (rule poll_receives_run [OF T assms(2) p b]) (use assms(4-7) in simp_all)
  show thesis by (rule that [OF r(2) receive_packet_keeps [OF keep r(1)] _ r(4)]) (simp add: r(3) assms(6))
qed

lemma write_to_broker:
  assumes "responsive_broker T pend log reply"
  obtains io' where "io_write T io f = Some (Some (length f), io')" "pend io' = pend io @ reply f" "log io' = log io @ [f]"
  using assms by (auto simp: responsive_broker_def)

text \<open>What the encoder of a request writes is sent and answered.\<close>

lemma send_encoded_to_broker:
  assumes "responsive_broker T pend log reply" "fst enc = Ok (length f)" "snd enc = f @ ys" "length (snd enc) = BUF_SIZE"
    and "pend io = []"
  obtains io' where "send_encoded T io enc a c = Some (Ok a, c\<lparr>buffer := f @ ys, connection := Some io'\<rparr>)"
    "pend io' = reply f" "log io' = log io @ [f]"
proof -
  obtain io' where io': "io_write T io f = Some (Some (length f), io')" "pend io' = pend io @ reply f" "log io' = log io @ [f]"
    by (rule write_to_broker [OF assms(1)])
  have "slice (f @ ys) 0 (length f) = Some f" by (simp add: slice_def)
  then show thesis
    using that [of io'] io' assms(2,3,5) by (simp add: send_encoded_def Let_def send_def)
qed

text \<open>The ping: two bytes out, two bytes back.\<close>

definition ping_frame :: bytes where "ping_frame = [0xC0, 0]"

definition pong_frame :: bytes where "pong_frame = [0xD0, 0]"

lemma pingresp_decode_pong: "fst (pingresp_decode (pingresp_new, reader_new (0xD0 # 0 # xs) 2)) = Ok ()"
proof -
  let ?r = "reader_new (0xD0 # 0 # xs) 2"
  have u8: "read_u8 ?r = (Ok 0xD0, increment_position 1 ?r)"
    by (simp add: read_u8_def reader_new_def index_def)
  have inv: "rd_inv (increment_position 1 ?r)"
    by (rule rd_inv_increment [OF rd_inv_new]) (simp_all add: remaining_new)
  have rem: "remaining (increment_position 1 ?r) = [0]" by (simp add: remaining_increment remaining_new)
  have "vbi_word [0]" by simp
  from read_variable_byte_int_word [OF inv _ this, of "[]"]
  have vbi: "read_variable_byte_int (increment_position 1 ?r) = (Ok 0, increment_position 2 ?r)"
    using rem by (simp add: numeral_2_eq_2)
  have "packet_type_from 0xD0 = Pingresp" by code_simp
  then show ?thesis
    by (simp add: pingresp_decode_def decode_fixed_header_def andq_assoc pingresp_impl_def ping_impl_def
        on_reader_simps(1) [of read_u8, OF u8] on_reader_simps(1) [of read_variable_byte_int, OF vbi]
        del: One_nat_def)
qed

lemma poll_pong:
  "buffer c = pong_frame @ xs \<Longrightarrow> poll_packet T cap mt (length pong_frame) io c = Some (Ok EvPingresp, c)"
proof -
  assume b: "buffer c = pong_frame @ xs"
  have f: "pong_frame = packet_frame 0xD0 []" by code_simp
  have "peek_u8 (reader_new (buffer c) (length pong_frame)) = Ok 0xD0"
    using peek_frame [of "0xD0" "[]" xs] by (simp add: b f)
  moreover have "fst (pingresp_decode (pingresp_new, reader_new (buffer c) (length pong_frame))) = Ok ()"
    unfolding b using pingresp_decode_pong [of xs] by (simp add: pong_frame_def numeral_2_eq_2)
  moreover have "packet_type_from 0xD0 = Pingresp" by code_simp
  ultimately show ?thesis by (auto simp: poll_packet_def poll_pingresp_def split: prod.split)
qed

lemma ping_exchange:
  assumes "responsive_broker T pend log reply" "reply ping_frame = pong_frame" "idle_client pend c io"
  obtains c' io' where "send_ping T cap c = Some (Ok (), c')" "idle_client pend c' io'" "config c' = config c"
    "log io' = log io @ [ping_frame]"
proof -
  note i = assms(3) [unfolded idle_client_def]
  have fr: "packet_frame (fixed_header pingreq_new) [] = ping_frame" by code_simp
  have enc: "pingreq_encode pingreq_new (buffer c) (buffer_len c) = (Ok (length ping_frame), ping_frame @ drop (length ping_frame) (buffer c))"
    using pingreq_encoder.encode_frame [where p = pingreq_new and n = "buffer_len c" and buf = "buffer c"] i
    by (simp add: pingreq_encode_def fr) (simp add: BUF_SIZE_def ping_frame_def)
  obtain io1 where s: "send_encoded T io (pingreq_encode pingreq_new (buffer c) (buffer_len c)) () c =
        Some (Ok (), c\<lparr>buffer := ping_frame @ drop (length ping_frame) (buffer c), connection := Some io1\<rparr>)"
      "pend io1 = reply ping_frame" "log io1 = log io @ [ping_frame]"
    by (rule send_encoded_to_broker [OF assms(1), of _ ping_frame]) (use enc i in \<open>auto simp: BUF_SIZE_def ping_frame_def\<close>)
  let ?c1 = "c\<lparr>buffer := ping_frame @ drop (length ping_frame) (buffer c), connection := Some io1\<rparr>"
  have pong: "pong_frame = packet_frame 0xD0 []" by code_simp
  obtain recv' io' where p: "pend io' = []" "log io' = log io1" "length recv' = BUF_SIZE"
    "poll T cap 0 ?c1 = poll_packet T cap 0 (length (packet_frame 0xD0 [])) io'
       (?c1\<lparr>buffer := packet_frame 0xD0 [] @ drop (length (packet_frame 0xD0 [])) (buffer ?c1),
          recv_buffer := recv', connection := Some io'\<rparr>)"
    by (rule poll_reply [OF assms(1), of ?c1 io1 "0xD0" "[]" cap 0])
      (use i s(2) assms(2) pong [symmetric] in \<open>auto simp: ping_frame_def BUF_SIZE_def pong_frame_def\<close>)
  let ?c2 = "?c1\<lparr>buffer := pong_frame @ drop (length pong_frame) (buffer ?c1), recv_buffer := recv', connection := Some io'\<rparr>"
  have "poll T cap 0 ?c1 = Some (Ok EvPingresp, ?c2)"
    unfolding p(4) pong [symmetric] by (rule poll_pong) simp
  moreover have "raw_send_ping T c = Some (Ok (), ?c1)"
    using i s(1) by (simp add: raw_send_ping_def by_version_def send_ping_v5_def)
  ultimately have "send_ping T cap c = Some (Ok (), ?c2)" by (simp add: send_ping_def await_def finish_def)
  then show thesis
    by (rule that) (use i p s(3) in \<open>auto simp: idle_client_def BUF_SIZE_def ping_frame_def pong_frame_def\<close>)
qed

text \<open>A message is one the task can send, and the broker's answer to it: a PUBACK with its identifier at
  quality 1, nothing at quality 0.\<close>

definition publishable :: "bytes \<Rightarrow> quality_of_service \<Rightarrow> bool \<Rightarrow> bytes \<Rightarrow> bool" where
  "publishable topic qos retain msg \<longleftrightarrow> utf8_valid topic \<and> length topic < 65536 \<and> length msg \<le> 268000000 \<and>
     (\<forall>i. length (message_frame topic msg qos retain i) \<le> BUF_SIZE)"

definition puback_for :: "nat \<Rightarrow> u16 \<Rightarrow> bytes \<Rightarrow> bool" where
  "puback_for cap i bs \<longleftrightarrow> (\<exists>p. ack_sendable Puback cap p \<and> ack_packet.reason_code p = 0 \<and> packet_identifier p = i \<and>
     bs = packet_frame (fixed_header p) (ack_body p) \<and> length bs + length (ack_body p) \<le> BUF_SIZE)"

definition acknowledging :: "(bytes \<Rightarrow> bytes) \<Rightarrow> nat \<Rightarrow> bytes \<Rightarrow> quality_of_service \<Rightarrow> bool \<Rightarrow> bool" where
  "acknowledging reply cap topic qos retain \<longleftrightarrow>
     (\<forall>msg i. if qos = QoS1 then puback_for cap i (reply (message_frame topic msg qos retain i))
              else qos = QoS0 \<and> reply (message_frame topic msg qos retain i) = [])"

lemma publish_exchange:
  assumes "responsive_broker T pend log reply" "acknowledging reply cap topic qos retain" "idle_client pend c io"
    and "publishable topic qos retain msg"
  obtains c' io' where "send_message T cap topic msg qos retain c = Some (Ok (), c')" "idle_client pend c' io'"
    "config c' = (config c)\<lparr>rng := snd (next_u32 (rng (config c)))\<rparr>"
    "log io' = log io @ [message_frame topic msg qos retain (packet_id (rng (config c)) 0)]"
proof -
  note i = assms(3) [unfolded idle_client_def]
  let ?i = "packet_id (rng (config c)) 0"
  let ?f = "message_frame topic msg qos retain ?i"
  have sm: "sendable_message topic msg qos retain c"
    using assms(4) i by (simp add: sendable_message_def publishable_def)
  obtain io1 where w: "io_write T io ?f = Some (Some (length ?f), io1)" "pend io1 = pend io @ reply ?f" "log io1 = log io @ [?f]"
    by (rule write_to_broker [OF assms(1)])
  obtain c1 where c1: "raw_send_message T cap topic msg qos retain c = Some (Ok ?i, c1)" "connection c1 = Some io1"
      "length (buffer c1) = length (buffer c)" "buffer_len c1 = buffer_len c" "recv_buffer c1 = recv_buffer c"
      "config c1 = (config c)\<lparr>rng := snd (next_u32 (rng (config c)))\<rparr>"
    using raw_send_message_run [OF _ sm refl w(1)] i by auto
  show thesis
  proof (cases "qos = QoS1")
    case False
    then have "send_message T cap topic msg qos retain c = Some (Ok (), c1)" "reply ?f = []"
      using c1(1) assms(2) by (auto simp: send_message_def await_def finish_def acknowledging_def)
    then show thesis using that [of c1 io1] c1 i w by (auto simp: idle_client_def)
  next
    case True
    then obtain p where p: "ack_sendable Puback cap p" "ack_packet.reason_code p = 0" "packet_identifier p = ?i"
        "reply ?f = packet_frame (fixed_header p) (ack_body p)"
        "length (packet_frame (fixed_header p) (ack_body p)) + length (ack_body p) \<le> BUF_SIZE"
      using assms(2) by (force simp: acknowledging_def puback_for_def)
    let ?g = "packet_frame (fixed_header p) (ack_body p)"
    obtain recv' io' where q: "pend io' = []" "log io' = log io1" "length recv' = BUF_SIZE"
      "poll T cap 0 c1 = poll_packet T cap 0 (length ?g) io'
         (c1\<lparr>buffer := ?g @ drop (length ?g) (buffer c1), recv_buffer := recv', connection := Some io'\<rparr>)" (is "_ = poll_packet T cap 0 _ io' ?c2")
      by (rule poll_reply [OF assms(1) c1(2), of "fixed_header p" "ack_body p" cap 0])
        (use i c1 w(2) p(4,5) in auto)
    have "poll T cap 0 c1 = Some (Ok (EvPuback ?i), ?c2)"
      unfolding q(4) using p(2,3) by (subst poll_puback_event [OF p(1)]) simp_all
    then have "send_message T cap topic msg qos retain c = Some (Ok (), ?c2)"
      using True c1(1) by (simp add: send_message_def await_def finish_def)
    then show thesis
      by (rule that) (use i c1 q w(3) p(5) in \<open>auto simp: idle_client_def\<close>)
  qed
qed

section \<open>A session\<close>

text \<open>What the session sends: a ping before each message, and the messages in order, each with the
  next identifier of the generator.\<close>

fun session_frames :: "bytes \<Rightarrow> quality_of_service \<Rightarrow> bool \<Rightarrow> u64 \<Rightarrow> bytes list \<Rightarrow> bytes list" where
  "session_frames topic qos retain s [] = []"
| "session_frames topic qos retain s (m # ms) =
     ping_frame # message_frame topic m qos retain (packet_id s 0) #
       session_frames topic qos retain (snd (next_u32 s)) ms"

lemma session_loop_publishes:
  assumes "responsive_broker T pend log reply" "reply ping_frame = pong_frame" "acknowledging reply MAX_PROPS topic qos retain"
  shows "idle_client pend c io \<Longrightarrow> list_all (publishable topic qos retain) ms \<Longrightarrow>
    \<exists>c' io'. session_loop T topic qos retain (map Some ms) c = Some (Ok (length ms), c') \<and> idle_client pend c' io' \<and>
      log io' = log io @ session_frames topic qos retain (rng (config c)) ms"
proof (induction ms arbitrary: c io)
  case Nil
  then show ?case by auto
next
  case (Cons m ms)
  obtain c1 io1 where p: "send_ping T MAX_PROPS c = Some (Ok (), c1)" "idle_client pend c1 io1" "config c1 = config c"
      "log io1 = log io @ [ping_frame]"
    by (rule ping_exchange [OF assms(1,2) Cons.prems(1)])
  have m: "publishable topic qos retain m" and ms: "list_all (publishable topic qos retain) ms" using Cons.prems(2) by simp_all
  obtain c2 io2 where s: "send_message T MAX_PROPS topic m qos retain c1 = Some (Ok (), c2)" "idle_client pend c2 io2"
      "config c2 = (config c1)\<lparr>rng := snd (next_u32 (rng (config c1)))\<rparr>"
      "log io2 = log io1 @ [message_frame topic m qos retain (packet_id (rng (config c1)) 0)]"
    by (rule publish_exchange [OF assms(1,3) p(2) m])
  have "session_round T topic qos retain (Some m) c = Some (Ok True, c2)"
    using p(1) s(1) by (simp add: session_round_def)
  with Cons.IH [OF s(2) ms] show ?case using p(3,4) s(3,4) by (auto simp del: packet_id.simps)
qed

section \<open>Connecting\<close>

text \<open>The CONNECT packet of the task's configuration, and the settings it can carry.\<close>

definition session_connect :: "client_config \<Rightarrow> connect_packet" where
  "session_connect cfg = connect_packet_of cfg (connect_new\<lparr>keep_alive := cfg_keep_alive cfg,
     properties := [MaximumPacketSize (max_packet_size cfg)], property_len := 5\<rparr>)"

definition connect_frame :: "client_config \<Rightarrow> bytes" where
  "connect_frame cfg = packet_frame (fixed_header (session_connect cfg)) (connect_body (session_connect cfg))"

definition valid_settings :: "bytes \<Rightarrow> bytes \<Rightarrow> bytes \<Rightarrow> bool" where
  "valid_settings wtopic user pass \<longleftrightarrow> utf8_valid wtopic \<and> length wtopic < 65536 \<and>
     utf8_valid user \<and> length user < 65536 \<and> length pass < 65536"

lemma text_string_wf: "utf8_valid t \<Longrightarrow> length t < 65536 \<Longrightarrow> string_wf \<lparr>es_string = t, es_len = of_nat (length t)\<rparr>"
  by (simp add: string_wf_def unat_of_nat take_bit_nat_eq_self)

lemma session_config_fields:
  assumes "mc_username mc = Some user" "mc_password mc = Some pass" "session_config wtopic mc = Ok cfg"
  shows "username_flag cfg" "cfg_username cfg = \<lparr>es_string = user, es_len = of_nat (length user)\<rparr>"
    "password_flag cfg = (pass \<noteq> [])" "pass \<noteq> [] \<longrightarrow> cfg_password cfg = \<lparr>bd_bin = pass, bd_len = of_nat (length pass)\<rparr>"
    "will_flag cfg" "cfg_will_topic cfg = \<lparr>es_string = wtopic, es_len = of_nat (length wtopic)\<rparr>"
    "cfg_will_payload cfg = \<lparr>bd_bin = lit ''Online'', bd_len = of_nat (length (lit ''Online''))\<rparr>"
    "cfg_client_id cfg = encoded_string_new" "cfg_properties cfg = []" "max_packet_size cfg = 300"
    "mqtt_version cfg = MQTTv5" "rng cfg = 50000"
  using assms by (cases "user = []"; cases "pass = []"; auto simp: session_config_def get_username_def get_password_def
      cfg_add_username_def cfg_add_password_def cfg_add_will_def client_config_new_def)+

lemma session_connect_wf:
  assumes "mc_username mc = Some user" "mc_password mc = Some pass" "session_config wtopic mc = Ok cfg"
    and "valid_settings wtopic user pass" "length (connect_frame cfg) \<le> BUF_SIZE"
  shows "connect_wf (session_connect cfg)"
proof -
  let ?p = "session_connect cfg"
  have len: "length (connect_body ?p) \<le> 268435455"
    using assms(5) by (simp add: connect_frame_def packet_frame_def BUF_SIZE_def)
  have c: "section_wf 5 [MaximumPacketSize 300]" "string_wf encoded_string_new" "section_wf 0 []"
      "binary_wf \<lparr>bd_bin = lit ''Online'', bd_len = of_nat (length (lit ''Online''))\<rparr>"
    by code_simp+
  have w: "string_wf \<lparr>es_string = wtopic, es_len = of_nat (length wtopic)\<rparr>"
      "string_wf \<lparr>es_string = user, es_len = of_nat (length user)\<rparr>"
      "binary_wf \<lparr>bd_bin = pass, bd_len = of_nat (length pass)\<rparr>"
    using assms(4) by (simp_all add: valid_settings_def text_string_wf binary_wf_def unat_of_nat take_bit_nat_eq_self)
  show ?thesis
    using session_config_fields [OF assms(1-3)] c w len
    by (cases "pass = []") (auto simp: connect_wf_def session_connect_def connect_packet_of_def add_username_def
        add_password_def add_will_def add_client_id_def connect_new_def Let_def)
qed

lemma poll_connack_event:
  assumes "sendable Connack cap (connack_head p) p"
    and "buffer c = packet_frame (fixed_header p) (connack_head p @ section_bytes (properties p)) @ xs"
  shows "poll_packet T cap mt (length (packet_frame (fixed_header p) (connack_head p @ section_bytes (properties p)))) io c =
    (if connect_reason_code p \<noteq> 0 then Some (Err (reason_code_from (connect_reason_code p)), c)
     else Some (Ok EvConnack, c))"
proof -
  let ?f = "packet_frame (fixed_header p) (connack_head p @ section_bytes (properties p))"
  have "connack_decode cap (connack_new, reader_new (?f @ xs) (length ?f))
      = (Ok (), (received (connack_head p) p, increment_position (length ?f) (reader_new (?f @ xs) (length ?f))))"
    using op_parsesD [OF connack_decode_parses [OF assms(1)] rd_inv_new, of "length ?f" "?f @ xs" "[]"]
    by (simp add: remaining_new)
  moreover have "packet_type_from (fixed_header p) = Connack" by (rule sendable_facts(5) [OF assms(1)])
  ultimately show ?thesis
    by (simp add: poll_packet_def assms(2) peek_frame poll_connack_def received_def)
qed

text \<open>A CONNACK that accepts the connection.\<close>

definition connack_accepting :: "nat \<Rightarrow> bytes \<Rightarrow> bool" where
  "connack_accepting cap bs \<longleftrightarrow> (\<exists>p. sendable Connack cap (connack_head p) p \<and> connect_reason_code p = 0 \<and>
     bs = packet_frame (fixed_header p) (connack_head p @ section_bytes (properties p)) \<and>
     length bs + length (connack_head p @ section_bytes (properties p)) \<le> BUF_SIZE)"

lemma connect_exchange:
  assumes "responsive_broker T pend log reply" "mc_username mc = Some user" "mc_password mc = Some pass"
    and "session_config wtopic mc = Ok cfg" "valid_settings wtopic user pass" "length (connect_frame cfg) \<le> BUF_SIZE"
    and "connack_accepting MAX_PROPS (reply (connect_frame cfg))" "pend tcp = []"
  obtains c io where "connect_to_broker T MAX_PROPS (session_client tcp cfg) = Some (Ok (), c)" "idle_client pend c io"
    "rng (config c) = 50000" "log io = log tcp @ [connect_frame cfg]"
proof -
  let ?c = "session_client tcp cfg" and ?f = "connect_frame cfg" and ?buf = "replicate BUF_SIZE (0 :: u8)"
  note g = session_config_fields(9-12) [OF assms(2-4)]
  let ?cfg = "cfg\<lparr>cfg_properties := [MaximumPacketSize 300]\<rparr>"
  have k: "snd (add_max_packet_size_as_prop MAX_PROPS cfg) = ?cfg"
    by (simp add: add_max_packet_size_as_prop_def g(1,2) MAX_PROPS_def vec_push_def)
  have ap: "add_properties (connect_impl MAX_PROPS) [MaximumPacketSize 300] 0 p =
      (Ok 5, p\<lparr>properties := [MaximumPacketSize 300]\<rparr>)" if "properties p = []" for p :: connect_packet
  proof -
    have "connect_property (MaximumPacketSize 300)" "property_encoded_len (MaximumPacketSize 300) = Ok 4" by code_simp+
    then show ?thesis using that
      by (simp add: connect_impl_def prop_packet_impl_def MAX_PROPS_def vec_push_def)
  qed
  have pk: "connect_packet_of ?cfg = connect_packet_of cfg" by (simp add: connect_packet_of_def fun_eq_iff)
  have wf: "connect_wf (session_connect cfg)" by (rule session_connect_wf [OF assms(2-6)])
  have enc: "connect_encode (session_connect cfg) ?buf BUF_SIZE = (Ok (length ?f), ?f @ drop (length ?f) ?buf)"
    using connect_encoder.encode_frame [OF wf, of BUF_SIZE ?buf] assms(6) by (simp add: connect_encode_def connect_frame_def)
  let ?cc = "?c\<lparr>config := ?cfg\<rparr>"
  obtain io1 where s: "send_encoded T tcp (connect_encode (session_connect cfg) ?buf BUF_SIZE) () ?cc =
        Some (Ok (), ?cc\<lparr>buffer := ?f @ drop (length ?f) ?buf, connection := Some io1\<rparr>)"
      "pend io1 = reply ?f" "log io1 = log tcp @ [?f]"
    by (rule send_encoded_to_broker [OF assms(1), of _ ?f]) (use enc assms(6,8) in auto)
  let ?c1 = "?cc\<lparr>buffer := ?f @ drop (length ?f) ?buf, connection := Some io1\<rparr>"
  have "connection ?c = Some tcp" "config ?c = cfg" "buffer ?c = ?buf" "buffer_len ?c = BUF_SIZE"
    by (simp_all add: session_client_def raw_client_new_def)
  then have "connect_to_broker_v5 T MAX_PROPS ?c = send_encoded T tcp (connect_encode (session_connect cfg) ?buf BUF_SIZE) () ?cc"
    unfolding connect_to_broker_v5_def Let_def
    by (simp add: k ap connect_new_def pk session_connect_def g(2) del: add_properties.simps)
  then have "connect_to_broker_v5 T MAX_PROPS ?c = Some (Ok (), ?c1)" using s(1) by (rule trans)
  then have "raw_connect_to_broker T MAX_PROPS ?c = Some (Ok (), ?c1)"
    by (simp add: raw_connect_to_broker_def by_version_def session_client_def raw_client_new_def g(3))
  moreover obtain p where p: "sendable Connack MAX_PROPS (connack_head p) p" "connect_reason_code p = 0"
      "reply ?f = packet_frame (fixed_header p) (connack_head p @ section_bytes (properties p))"
      "length (reply ?f) + length (connack_head p @ section_bytes (properties p)) \<le> BUF_SIZE"
    using assms(7) by (auto simp: connack_accepting_def)
  let ?b = "connack_head p @ section_bytes (properties p)" let ?g = "packet_frame (fixed_header p) ?b"
  obtain recv' io' where q: "pend io' = []" "log io' = log io1" "length recv' = BUF_SIZE"
    "poll T MAX_PROPS 0 ?c1 = poll_packet T MAX_PROPS 0 (length ?g) io'
       (?c1\<lparr>buffer := ?g @ drop (length ?g) (buffer ?c1), recv_buffer := recv', connection := Some io'\<rparr>)" (is "_ = poll_packet T _ 0 _ io' ?c2")
    by (rule poll_reply [OF assms(1), of ?c1 io1 "fixed_header p" ?b MAX_PROPS 0])
      (use s(2) p(3,4) assms(6) in \<open>auto simp: session_client_def raw_client_new_def\<close>)
  have "poll T MAX_PROPS 0 ?c1 = Some (Ok EvConnack, ?c2)"
    unfolding q(4) using p(2) by (subst poll_connack_event [OF p(1)]) simp_all
  ultimately have "connect_to_broker T MAX_PROPS ?c = Some (Ok (), ?c2)" by (simp add: connect_to_broker_def await_def finish_def)
  then show thesis
    by (rule that) (use q s(3) p(3,4) assms(6) g in \<open>auto simp: idle_client_def session_client_def raw_client_new_def\<close>)
qed

section \<open>The outer loop\<close>

text \<open>Attempts do not depend on each other: each starts with a new connection and a new client.\<close>

lemma mqtt_loop_append:
  "mqtt_loop T from_str wtopic mc as = Some (Ok xs) \<Longrightarrow>
   mqtt_loop T from_str wtopic mc (as @ bs) = map_option (\<lambda>r. bind_outcome r (\<lambda>ys. Ok (xs @ ys))) (mqtt_loop T from_str wtopic mc bs)"
proof (induction as arbitrary: xs)
  case Nil
  then show ?case by (cases "mqtt_loop T from_str wtopic mc bs") (auto elim: bind_outcome.elims split: outcome.split, metis bind_outcome.simps outcome.exhaust)
next
  case (Cons a as)
  then obtain x ys where x: "mqtt_attempt T from_str wtopic mc a = Some (Ok x)" "mqtt_loop T from_str wtopic mc as = Some (Ok ys)" "xs = x # ys"
    by (auto simp: bind_outcome_Ok_iff split: option.splits outcome.splits)
  have "bind_outcome (bind_outcome r (\<lambda>zs. Ok (ys @ zs))) (\<lambda>xs. Ok (x # xs)) = bind_outcome r (\<lambda>zs. Ok (x # ys @ zs))" for r :: "(unit, (nat \<times> nat) list) outcome"
    by (cases r) simp_all
  then show ?case using x Cons.IH [OF x(2)] by (simp add: option.map_comp comp_def)
qed

lemma mqtt_loop_refused:
  "mqtt_socket_addr from_str mc = Ok addr \<Longrightarrow>
   mqtt_loop T from_str wtopic mc (replicate n Tcp_refused) = Some (Ok (replicate n (0, 10000)))"
  by (induction n) (simp_all add: mqtt_attempt_def)

text \<open>The settings of the task, when the three numbers of the environment are plain decimals in range.\<close>

lemma mqtt_task_config_decimal:
  assumes "MQTTPORT env = decimal p" "p < 65536" "MQTTQOS env = decimal q" "q < 256"
    and "MQTTINTERVAL env = decimal i" "i < 65536"
  shows "mqtt_task_config env = Ok \<lparr>mc_host = Some (MQTTHOST env), mc_port = Some (of_nat p), mc_client_id = Some (MQTTCLIENTID env),
     mc_username = Some (MQTTUSERNAME env), mc_password = Some (MQTTPASSWORD env), mc_basetopic = Some (MQTTBASETOPIC env),
     mc_qos = of_nat q, mc_retain = (MQTTRETAIN env = lit ''true''), mc_interval = of_nat i\<rparr>"
  using assms
  by (simp add: mqtt_task_config_def parse_unsigned_decimal mqtt_builder_new_def builder_host_def builder_port_def
      builder_client_id_def builder_username_def builder_password_def builder_basetopic_def builder_qos_def
      builder_retain_def builder_interval_def)

section \<open>The whole session\<close>

text \<open>
  C7. With a broker that accepts the connection, answers each ping and acknowledges each message at
  quality 1 (or, at quality 0, stays silent), a session of the task publishes every message: it returns
  after the last one with their number, and the broker has got exactly the CONNECT of the
  configuration and then, for each message in order, a ping and the PUBLISH frame with
  the next packet identifier; the client is left idle, with nothing unread. This holds however the
  answers are fragmented, and whatever attempts the task made before, as long as none of them
  panicked or blocked: the next attempt publishes the same, and the task goes on at once after it.
\<close>

theorem mqtt_session_publishes:
  assumes "responsive_broker T pend log reply" "pend tcp = []"
    and "mc_username mc = Some user" "mc_password mc = Some pass" "session_config wtopic mc = Ok cfg" "get_topic mc = Ok topic"
    and "valid_settings wtopic user pass" "length (connect_frame cfg) \<le> BUF_SIZE"
    and "connack_accepting MAX_PROPS (reply (connect_frame cfg))" "reply ping_frame = pong_frame"
    and "acknowledging reply MAX_PROPS topic (mqtt_qos_of (mc_qos mc)) (mc_retain mc)"
    and "list_all (publishable topic (mqtt_qos_of (mc_qos mc)) (mc_retain mc)) ms"
  shows "\<exists>c io. mqtt_session T wtopic mc (map Some ms) tcp = Some (Ok (length ms), c) \<and> idle_client pend c io \<and>
    log io = log tcp @ connect_frame cfg # session_frames topic (mqtt_qos_of (mc_qos mc)) (mc_retain mc) 50000 ms \<and>
    (\<forall>from_str addr as xs. mqtt_socket_addr from_str mc = Ok addr \<longrightarrow> mqtt_loop T from_str wtopic mc as = Some (Ok xs) \<longrightarrow>
       mqtt_loop T from_str wtopic mc (as @ [Tcp_connected tcp (map Some ms)]) = Some (Ok (xs @ [(length ms, 0)])))"
proof -
  obtain c io where c: "connect_to_broker T MAX_PROPS (session_client tcp cfg) = Some (Ok (), c)" "idle_client pend c io"
      "rng (config c) = 50000" "log io = log tcp @ [connect_frame cfg]"
    by (rule connect_exchange [OF assms(1,3,4,5,7,8,9,2)])
  then obtain c' io' where s: "mqtt_session T wtopic mc (map Some ms) tcp = Some (Ok (length ms), c')" "idle_client pend c' io'"
      "log io' = log tcp @ connect_frame cfg # session_frames topic (mqtt_qos_of (mc_qos mc)) (mc_retain mc) 50000 ms"
    using session_loop_publishes [OF assms(1,10,11) c(2) assms(12)] assms(5,6) by (auto simp: mqtt_session_def)
  have "mqtt_loop T from_str wtopic mc (as @ [Tcp_connected tcp (map Some ms)]) = Some (Ok (xs @ [(length ms, 0)]))"
    if "mqtt_socket_addr from_str mc = Ok addr" "mqtt_loop T from_str wtopic mc as = Some (Ok xs)" for from_str addr as xs
    using that s(1) by (simp add: mqtt_loop_append mqtt_attempt_def)
  with s show ?thesis by blast
qed

text \<open>A broker whose answers are read byte by byte, for messages at quality 0.\<close>

definition sample_broker_reply :: "bytes \<Rightarrow> bytes" where
  "sample_broker_reply f = (if f = ping_frame then pong_frame else if take 1 f = [0x10] then [0x20, 3, 0, 0, 0] else [])"

definition sample_broker :: "(bytes \<times> bytes list) transport" where
  "sample_broker =
     \<lparr>io_read = (\<lambda>(q, l) n. Some (Some (take 1 q), (drop 1 q, l))),
      io_write = (\<lambda>(q, l) f. Some (Some (length f), (q @ sample_broker_reply f, l @ [f])))\<rparr>"

definition sample_mqtt_config :: mqtt_config where
  "sample_mqtt_config = \<lparr>mc_host = Some ''10.0.0.2'', mc_port = Some 1883, mc_client_id = None, mc_username = Some (lit ''u''),
     mc_password = Some [], mc_basetopic = Some (lit ''bms''), mc_qos = 0, mc_retain = False, mc_interval = 10\<rparr>"

lemma sample_broker_responsive: "responsive_broker sample_broker fst snd sample_broker_reply"
proof -
  have "stream_transport sample_broker fst"
    unfolding stream_transport_def sample_broker_def
    by (auto simp: neq_Nil_conv)
  moreover have "reads_keep sample_broker snd" by (auto simp: reads_keep_def sample_broker_def)
  ultimately show ?thesis by (auto simp: responsive_broker_def sample_broker_def)
qed

definition sample_session_config :: client_config where
  "sample_session_config = (case session_config (lit ''w'') sample_mqtt_config of Ok c \<Rightarrow> c | _ \<Rightarrow> client_config_new MQTTv5 0)"

lemma sample_message_length: "length (message_frame (lit ''bms'') [m] QoS0 False i) = 9"
proof -
  have "fixed_header (message_packet (lit ''bms'') [m] QoS0 False i) = 0x30"
    by (simp add: message_packet_def add_retain_def add_message_def add_identifier_def add_qos_def
        add_topic_name_def publish_new_def)
  moreover have "length (string_bytes \<lparr>es_string = lit ''bms'', es_len = 3\<rparr>) = 5"
      "length (section_bytes []) = 1" "length (vbi_bytes 7) = 1" by code_simp+
  ultimately show ?thesis
    by (simp add: message_frame_def Let_def packet_frame_def publish_body_def publish_head_def
        identifier_bytes_def message_packet_simps)
qed

lemma sample_broker_silent: "acknowledging sample_broker_reply MAX_PROPS (lit ''bms'') QoS0 False"
proof -
  have h: "fixed_header (message_packet (lit ''bms'') m QoS0 False i) = 0x30" for m i
    by (simp add: message_packet_def add_retain_def add_message_def add_identifier_def add_qos_def
        add_topic_name_def publish_new_def)
  show ?thesis
    by (auto simp: acknowledging_def sample_broker_reply_def message_frame_def Let_def packet_frame_def h ping_frame_def)
qed

theorem mqtt_session_publishes_witness:
  "\<exists>c io. mqtt_session sample_broker (lit ''w'') sample_mqtt_config [Some [1], Some [2]] ([], []) = Some (Ok 2, c) \<and>
    connection c = Some io \<and> length (snd io) = 5 \<and>
    mqtt_loop sample_broker Some (lit ''w'') sample_mqtt_config [Tcp_refused, Tcp_connected ([], []) [Some [1], Some [2]]] =
      Some (Ok [(0, 10000), (2, 0)])"
proof -
  let ?mc = sample_mqtt_config and ?cfg = sample_session_config
  have cfg: "session_config (lit ''w'') ?mc = Ok ?cfg" by code_simp
  have t: "get_topic ?mc = Ok (lit ''bms'')" by code_simp
  have q: "mqtt_qos_of (mc_qos ?mc) = QoS0" "mc_retain ?mc = False" by code_simp+
  have u: "mc_username ?mc = Some (lit ''u'')" "mc_password ?mc = Some []" by (simp_all add: sample_mqtt_config_def)
  have utf: "utf8_valid (lit ''w'')" "utf8_valid (lit ''u'')" "utf8_valid (lit ''bms'')" by code_simp+
  then have v: "valid_settings (lit ''w'') (lit ''u'') []" by (simp add: valid_settings_def)
  have "length (connect_frame ?cfg) = 35" by code_simp
  then have f: "length (connect_frame ?cfg) \<le> BUF_SIZE" by (simp add: BUF_SIZE_def)
  have hd: "take 1 (connect_frame ?cfg) = [0x10]" by code_simp
  have a: "connack_accepting MAX_PROPS (sample_broker_reply (connect_frame ?cfg))"
  proof -
    have "section_plain 0 []" "packet_type_from (packet_type_byte Connack) = Connack" "length (section_bytes []) = 1" by code_simp+
    then have s: "sendable Connack MAX_PROPS (connack_head connack_new) connack_new"
      by (simp add: sendable_def connack_new_def connack_head_def)
    have "packet_frame (fixed_header connack_new) (connack_head connack_new @ section_bytes (properties connack_new)) = [0x20, 3, 0, 0, 0]"
        "connect_reason_code connack_new = 0" "length (connack_head connack_new @ section_bytes (properties connack_new)) = 3" by code_simp+
    moreover have "sample_broker_reply (connect_frame ?cfg) = [0x20, 3, 0, 0, 0]"
      using hd by (auto simp: sample_broker_reply_def ping_frame_def)
    ultimately show ?thesis using s unfolding connack_accepting_def by (intro exI [of _ connack_new]) (simp add: BUF_SIZE_def)
  qed
  have p: "sample_broker_reply ping_frame = pong_frame" by (simp add: sample_broker_reply_def)
  have m: "list_all (publishable (lit ''bms'') QoS0 False) [[1], [2]]"
    using utf by (simp add: publishable_def sample_message_length BUF_SIZE_def)
  obtain c io where "mqtt_session sample_broker (lit ''w'') ?mc (map Some [[1], [2]]) ([], []) = Some (Ok (length [[1 :: u8], [2]]), c)"
      "idle_client fst c io" and l: "\<forall>(from_str :: string \<Rightarrow> string option) addr as xs. mqtt_socket_addr from_str ?mc = Ok addr \<longrightarrow>
        mqtt_loop sample_broker from_str (lit ''w'') ?mc as = Some (Ok xs) \<longrightarrow>
        mqtt_loop sample_broker from_str (lit ''w'') ?mc (as @ [Tcp_connected ([], []) (map Some [[1], [2]])]) = Some (Ok (xs @ [(length [[1 :: u8], [2]], 0)]))"
      and "snd io = [] @ connect_frame ?cfg # session_frames (lit ''bms'') QoS0 False 50000 [[1], [2]]"
    using mqtt_session_publishes [OF sample_broker_responsive _ u cfg t v f a p, of "([], [])" "[[1], [2]]",
        unfolded q snd_conv, OF fst_conv sample_broker_silent m] by blast
  moreover have d: "mqtt_socket_addr Some ?mc = Ok (''10.0.0.2'', 1883)" by (simp add: sample_mqtt_config_def mqtt_socket_addr_def)
  then have "mqtt_loop sample_broker Some (lit ''w'') ?mc [Tcp_refused] = Some (Ok [(0, 10000)])"
    using mqtt_loop_refused [of Some ?mc _ sample_broker "lit ''w''" 1] by simp
  ultimately show ?thesis using l [rule_format, OF d, of "[Tcp_refused]" "[(0, 10000)]"]
    by (intro exI [of _ c] exI [of _ io]) (simp add: idle_client_def numeral_2_eq_2 del: mqtt_loop.simps)
qed

end
