(* ===== verification/Mqtt_Unit_Tests.thy ===== *)
theory Mqtt_Unit_Tests
  imports Mqtt_Acks Mqtt_Control Mqtt_Connect Mqtt_Publish Mqtt_Subscribe
begin

text \<open>
  The unit tests of rust-mqtt (src/tests/unit) on the model: the same packets, buffers and expected
  values, with the name of the test in the name of the lemma. They relate the definitions to what the
  authors of the code have checked on it. In the tests of the buffers several calls of one kind are one
  lemma.
\<close>

definition text_of :: "string \<Rightarrow> encoded_string" where
  "text_of s = \<lparr>es_string = lit s, es_len = of_nat (length s)\<rparr>"

definition pair_of :: "string \<Rightarrow> string \<Rightarrow> property" where
  "pair_of n v = UserProperty \<lparr>sp_name = text_of n, sp_value = text_of v\<rparr>"

text \<open>\<open>packet.property_len = packet.add_properties(&props)\<close>.\<close>

definition with_properties :: "'a prop_packet_scheme packet_impl \<Rightarrow> property list \<Rightarrow> 'a prop_packet_scheme \<Rightarrow> 'a prop_packet_scheme" where
  "with_properties impl ps p =
     (case add_properties impl ps 0 p of (Ok l, p') \<Rightarrow> p'\<lparr>property_len := l\<rparr> | (_, p') \<Rightarrow> p')"

text \<open>A decoder succeeds on the buffer and leaves a packet of which the rest holds.\<close>

definition decodes :: "('p, unit) packet_op \<Rightarrow> 'p \<Rightarrow> bytes \<Rightarrow> ('p \<Rightarrow> bool) \<Rightarrow> bool" where
  "decodes dec p buf P = (case dec (p, reader_new buf (length buf)) of (Ok _, (q, _)) \<Rightarrow> P q | _ \<Rightarrow> False)"

section \<open>Packets\<close>

lemma connack_encode_test:
  "connack_encode (connack_new\<lparr>property_len := 3, properties := [ReceiveMaximum 21],
      connect_reason_code := reason_code_byte ServerMoved, ack_flags := 0x45\<rparr>) (replicate 10 0) 10 =
   (Ok 8, [0x20, 0x06, 0x45, reason_code_byte ServerMoved, 0x03, 0x21, 0x00, 0x15, 0, 0])"
  by code_simp

lemma connack_decode_test:
  "decodes (connack_decode 2) connack_new [0x20, 0x06, 0x45, reason_code_byte ServerMoved, 0x03, 0x21, 0x00, 0x15]
     (\<lambda>p. property_len p = 3 \<and> ack_flags p = 0x45 \<and> connect_reason_code p = reason_code_byte ServerMoved \<and>
        properties p = [ReceiveMaximum 21])"
  by code_simp

lemma unsubscription_encode_test:
  "unsubscription_encode
     (unsubscription_add_new_filter 2 (lit ''hehe/#'') (unsubscription_add_new_filter 2 (lit ''test/topic'')
       (with_properties (unsubscription_impl 1) [pair_of ''haha'' ''hehe89'']
         (unsubscription_new\<lparr>filter_identifier := 5432\<rparr>)))) (replicate 40 0) 40 =
   (Ok 40, [0xA2, 0x26, 0x15, 0x38, 0x0F, 0x26, 0x00, 0x04, 0x68, 0x61, 0x68, 0x61, 0x00, 0x06,
            0x68, 0x65, 0x68, 0x65, 0x38, 0x39, 0x00, 0x0A, 0x74, 0x65, 0x73, 0x74, 0x2F, 0x74,
            0x6F, 0x70, 0x69, 0x63, 0x00, 0x06, 0x68, 0x65, 0x68, 0x65, 0x2F, 0x23])"
  by code_simp

lemma unsuback_decode_test:
  "decodes (unsuback_decode 2 1) unsuback_new
     [0xB0, 0x14, 0xCC, 0x08, 0x0F, 0x1F, 0x00, 0x0C, 0x72, 0x65, 0x61, 0x73, 0x6f, 0x6e, 0x53, 0x74, 0x72, 0x69,
      0x6e, 0x67, 0x77, 0x55]
     (\<lambda>p. fixed_header p = packet_type_byte Unsuback \<and> remain_len p = 20 \<and> reasons_identifier p = 52232 \<and>
        property_len p = 15 \<and> properties p = [ReasonString (text_of ''reasonString'')] \<and> reason_codes p = [0x77, 0x55])"
  by code_simp

lemma disconnect_encode_test:
  "disconnect_encode (with_properties (disconnect_impl 1) [SessionExpiryInterval 512] disconnect_new) (replicate 10 0) 100 =
   (Ok 9, [0xE0, 0x07, 0x00, 0x05, 0x11, 0x00, 0x00, 0x02, 0x00, 0])"
  by code_simp

lemma disconnect_decode_test:
  "decodes (disconnect_decode 1) disconnect_new [0xE0, 0x07, 0x00, 0x05, 0x11, 0x00, 0x00, 0x04, 0x00, 0x00]
     (\<lambda>p. fixed_header p = packet_type_byte Disconnect \<and> remain_len p = 7 \<and> disconnect_reason p = 0 \<and>
        property_len p = 5 \<and> properties p = [SessionExpiryInterval 1024])"
  by code_simp

lemma pubrec_encode_test:
  "pubrec_encode (with_properties (pubrec_impl 2) [pair_of ''name1'' ''val1'']
      (pubrec_new\<lparr>packet_identifier := 35420, reason_code := 0x12\<rparr>)) (replicate 20 0) 20 =
   (Ok 20, [0x50, 0x12, 0x8A, 0x5C, 0x12, 0x0E, 0x26, 0x00, 0x05, 0x6e, 0x61, 0x6d, 0x65, 0x31,
            0x00, 0x04, 0x76, 0x61, 0x6c, 0x31])"
  by code_simp

lemma pubrec_decode_test:
  "decodes (pubrec_decode 1) pubrec_new
     [0x50, 0x12, 0x8A, 0x5C, 0x12, 0x0E, 0x26, 0x00, 0x05, 0x6e, 0x61, 0x6d, 0x65, 0x31, 0x00, 0x04, 0x76, 0x61, 0x6c, 0x31]
     (\<lambda>p. fixed_header p = packet_type_byte Pubrec \<and> remain_len p = 18 \<and> packet_identifier p = 35420 \<and>
        reason_code p = 0x12 \<and> property_len p = 14 \<and> properties p = [pair_of ''name1'' ''val1''])"
  by code_simp

lemma pubrel_encode_test:
  "pubrel_encode (with_properties (pubrel_impl 1) [pair_of ''haha'' ''hehe89'']
      (pubrel_new\<lparr>fixed_header := packet_type_byte Pubrel, packet_identifier := 12345, reason_code := 0x86\<rparr>)) (replicate 21 0) 21 =
   (Ok 21, [0x62, 0x13, 0x30, 0x39, 0x86, 0x0F, 0x26, 0x00, 0x04, 0x68, 0x61, 0x68, 0x61, 0x00,
            0x06, 0x68, 0x65, 0x68, 0x65, 0x38, 0x39])"
  by code_simp

lemma pubrel_decode_test:
  "decodes (pubrel_decode 1) pubrel_new
     [0x62, 0x13, 0x30, 0x39, 0x86, 0x0F, 0x26, 0x00, 0x04, 0x68, 0x61, 0x68, 0x61, 0x00, 0x06, 0x68, 0x65, 0x68, 0x65, 0x38, 0x39]
     (\<lambda>p. fixed_header p = packet_type_byte Pubrel \<and> remain_len p = 19 \<and> packet_identifier p = 12345 \<and>
        reason_code p = 0x86 \<and> property_len p = 15 \<and> properties p = [pair_of ''haha'' ''hehe89''])"
  by code_simp

lemma connect_encode_test:
  "connect_encode (connect_clean 1) (replicate 20 0) 20 =
   (Ok 18, [0x10, 0x10, 0x00, 0x04, 0x4d, 0x51, 0x54, 0x54, 0x05, 0x02, 0x00, 0x3c, 0x03, 0x21, 0x00, 0x14, 0x00, 0x00, 0, 0])"
  by code_simp

lemma puback_encode_test:
  "puback_encode (with_properties (puback_impl 1) [ReasonString (text_of ''Hello'')]
      (puback_new\<lparr>packet_identifier := 35420, reason_code := 0\<rparr>)) (replicate 14 0) 14 =
   (Ok 14, [0x40, 0x0C, 0x8A, 0x5C, 0x00, 0x08, 0x1F, 0x00, 0x05, 0x48, 0x65, 0x6c, 0x6c, 0x6f])"
  by code_simp

lemma puback_decode_test:
  "decodes (puback_decode 1) puback_new
     [0x40, 0x0C, 0x8A, 0x5E, 0x15, 0x08, 0x1F, 0x00, 0x05, 0x48, 0x65, 0x6c, 0x6c, 0x6f]
     (\<lambda>p. fixed_header p = packet_type_byte Puback \<and> remain_len p = 12 \<and> packet_identifier p = 35422 \<and>
        reason_code p = 0x15 \<and> property_len p = 8 \<and> properties p = [ReasonString (text_of ''Hello'')])"
  by code_simp

lemma subscription_encode_test:
  "subscription_encode
     (subscription_add_new_filter 2 (lit ''hehe/#'') QoS1 (subscription_add_new_filter 2 (lit ''test/topic'') QoS0
       (with_properties (subscription_impl 1) [SubscriptionIdentifier 2432]
         (subscription_new\<lparr>filter_identifier := 5432\<rparr>)))) (replicate 30 0) 30 =
   (Ok 30, [0x82, 0x1C, 0x15, 0x38, 0x03, 0x0B, 0x80, 0x13, 0x00, 0x0A, 0x74, 0x65, 0x73, 0x74,
            0x2f, 0x74, 0x6f, 0x70, 0x69, 0x63, 0x00, 0x00, 0x06, 0x68, 0x65, 0x68, 0x65, 0x2F, 0x23, 0x01])"
  by code_simp

lemma pubcomp_encode_test:
  "pubcomp_encode (with_properties (pubcomp_impl 1) [ReasonString (text_of ''Wheel'')]
      (pubcomp_new\<lparr>packet_identifier := 35420, reason_code := 0\<rparr>)) (replicate 14 0) 14 =
   (Ok 14, [0x70, 0x0C, 0x8A, 0x5C, 0x00, 0x08, 0x1F, 0x00, 0x05, 0x57, 0x68, 0x65, 0x65, 0x6c])"
  by code_simp

lemma pubcomp_decode_test:
  "decodes (pubcomp_decode 1) pubcomp_new
     [0x70, 0x0C, 0x8A, 0x5C, 0x00, 0x08, 0x1F, 0x00, 0x05, 0x57, 0x68, 0x65, 0x65, 0x6c]
     (\<lambda>p. fixed_header p = packet_type_byte Pubcomp \<and> packet_identifier p = 35420 \<and> reason_code p = 0 \<and>
        property_len p = 8 \<and> properties p = [ReasonString (text_of ''Wheel'')])"
  by code_simp

lemma suback_decode_test:
  "decodes (suback_decode 3 1) suback_new
     [0x90, 0x15, 0xCC, 0x08, 0x0F, 0x1F, 0x00, 0x0C, 0x72, 0x65, 0x61, 0x73, 0x6f, 0x6e, 0x53, 0x74, 0x72, 0x69,
      0x6e, 0x67, 0x12, 0x34, 0x56]
     (\<lambda>p. fixed_header p = packet_type_byte Suback \<and> remain_len p = 21 \<and> reasons_identifier p = 52232 \<and>
        property_len p = 15 \<and> properties p = [ReasonString (text_of ''reasonString'')] \<and> reason_codes p = [0x12, 0x34, 0x56])"
  by code_simp

lemma publish_encode_test:
  "publish_encode
     (add_message (lit ''Hello world'')
       (with_properties (publish_impl 2) [PayloadFormat 0x01, MessageExpiryInterval 45678]
         ((add_qos QoS1 publish_new)\<lparr>topic_name := text_of ''test'', pub_identifier := 23432\<rparr>))) (replicate 29 0) 100 =
   (Ok 29, [0x32, 0x1B, 0x00, 0x04, 0x74, 0x65, 0x73, 0x74, 0x5B, 0x88, 0x07, 0x01, 0x01, 0x02,
            0x00, 0x00, 0xB2, 0x6E, 0x48, 0x65, 0x6c, 0x6c, 0x6f, 0x20, 0x77, 0x6f, 0x72, 0x6c, 0x64])"
  by code_simp

lemma publish_decode_test:
  "decodes (publish_decode 2) publish_new
     [0x32, 0x1B, 0x00, 0x04, 0x74, 0x65, 0x73, 0x74, 0x5B, 0x88, 0x07, 0x01, 0x01, 0x02, 0x00, 0x00, 0xB2, 0x6E,
      0x48, 0x65, 0x6c, 0x6c, 0x6f, 0x20, 0x77, 0x6f, 0x72, 0x6c, 0x64]
     (\<lambda>p. fixed_header p = 0x32 \<and> topic_name p = text_of ''test'' \<and> pub_identifier p = 23432 \<and> property_len p = 7 \<and>
        properties p = [PayloadFormat 0x01, MessageExpiryInterval 45678] \<and> message p = Some (lit ''Hello world''))"
  by code_simp

lemma pingreq_encode_test: "pingreq_encode pingreq_new [0x00, 0x98, 0x45] 3 = (Ok 2, [0xC0, 0x00, 0x45])"
  by code_simp

lemma pingresp_encode_test: "pingresp_encode pingresp_new [0x00, 0x98, 0x45] 3 = (Ok 2, [0xD0, 0x00, 0x45])"
  by code_simp

lemma pingresp_decode_test:
  "decodes pingresp_decode pingresp_new [0xD0, 0x00, 0x51]
     (\<lambda>p. fixed_header p = packet_type_byte Pingresp \<and> remain_len p = 0)"
  by code_simp

section \<open>Integers and buffers\<close>

lemma vbi_decode_tests:
  "vbi_decode [0x81, 0x81, 0x81, 0x01] = Ok 2113665"
  "vbi_decode [0x81, 0x81, 0x01, 0x85] = Ok 16513"
  by code_simp+

lemma vbi_encode_tests:
  "vbi_encode 2113665 = Ok [0x81, 0x81, 0x81, 0x01]" "vbi_len [0x81, 0x81, 0x81, 0x01] = Ok 4"
  "vbi_encode 16513 = Ok [0x81, 0x81, 0x01, 0x00]" "vbi_len [0x81, 0x81, 0x01, 0x00] = Ok 3"
  "vbi_encode 5 = Ok [0x05, 0x00, 0x00, 0x00]" "vbi_len [0x05, 0x00, 0x00, 0x00] = Ok 1"
  "vbi_encode 288435455 = Err EncodingError"
  by code_simp+

text \<open>What a read of a whole buffer gives.\<close>

definition reads_of :: "'a reads \<Rightarrow> bytes \<Rightarrow> (buffer_error, 'a) outcome \<times> nat" where
  "reads_of rd buf = (case rd (reader_new buf (length buf)) of (x, r) \<Rightarrow> (x, rd_position r))"

lemma read_variable_byte_tests:
  "reads_of read_variable_byte_int [0x82, 0x82, 0x03, 0x85, 0x84] = (Ok 49410, 3)"
  "fst (reads_of read_variable_byte_int [0x82, 0x82]) = Err InsufficientBufferSize"
  "reads_of read_variable_byte_int [0x82, 0x02] = (Ok 258, 2)"
  "reads_of read_variable_byte_int [0x81, 0x81, 0x81, 0x01] = (Ok 2113665, 4)"
  "fst (reads_of read_variable_byte_int []) = Err InsufficientBufferSize"
  by code_simp+

lemma read_number_tests:
  "fst (reads_of read_u32 [0x00, 0x02, 0x5E, 0xC1]) = Ok 155329"
  "fst (reads_of read_u32 [0x00, 0x02, 0x5E]) = Err InsufficientBufferSize"
  "fst (reads_of read_u16 [0x48, 0x5F]) = Ok 18527"
  "fst (reads_of read_u16 [0x5E]) = Err InsufficientBufferSize"
  "fst (reads_of read_u8 [0xFD]) = Ok 253"
  "fst (reads_of read_u8 []) = Err InsufficientBufferSize"
  by code_simp+

lemma read_string_tests:
  "fst (reads_of read_string [0x00, 0x04, 0xF0, 0x9F, 0x92, 0x96]) = Ok \<lparr>es_string = [0xF0, 0x9F, 0x92, 0x96], es_len = 4\<rparr>"
  "fst (reads_of read_string [0x00, 0x03, 0xF0, 0x9F, 0x92]) = Err Utf8Error"
  "fst (reads_of read_string [0x00, 0x04, 0xF0, 0x9F, 0x92]) = Err InsufficientBufferSize"
  by code_simp+

lemma read_binary_tests:
  "fst (reads_of read_binary [0x00, 0x04, 0xFF, 0xEE, 0xDD, 0xCC]) = Ok \<lparr>bd_bin = [0xFF, 0xEE, 0xDD, 0xCC], bd_len = 4\<rparr>"
  "fst (reads_of read_binary [0x00, 0x04, 0xFF, 0xEE, 0xDD]) = Err InsufficientBufferSize"
  by code_simp+

lemma read_string_pair_tests:
  "fst (reads_of read_string_pair [0x00, 0x04, 0xF0, 0x9F, 0x98, 0x8E, 0x00, 0x03, 0xE2, 0x93, 0x87]) =
     Ok \<lparr>sp_name = \<lparr>es_string = [0xF0, 0x9F, 0x98, 0x8E], es_len = 4\<rparr>, sp_value = \<lparr>es_string = [0xE2, 0x93, 0x87], es_len = 3\<rparr>\<rparr>"
  "fst (reads_of read_string_pair [0x00, 0x03, 0xF0, 0x9F, 0x92, 0x00, 0x04, 0xF0, 0x9F, 0x98, 0x8E]) = Err Utf8Error"
  "fst (reads_of read_string_pair [0x00, 0x04, 0xF0, 0x9F, 0x98, 0x8E, 0x00, 0x04, 0xE2, 0x93, 0x87]) = Err InsufficientBufferSize"
  by code_simp+

text \<open>A write into a cleared buffer of \<open>n\<close> bytes of which \<open>l\<close> may be used: the result, the cursor, the bytes.\<close>

definition writes_of :: "unit writes \<Rightarrow> nat \<Rightarrow> nat \<Rightarrow> (buffer_error, unit) outcome \<times> nat \<times> bytes" where
  "writes_of wr n l = (case wr (writer_new (replicate n 0) l) of (x, w) \<Rightarrow> (x, wr_position w, wr_buffer w))"

lemma write_ref_tests:
  "writes_of (insert_ref 5 [0x82, 0x82, 0x03, 0x85, 0x84]) 5 5 = (Ok (), 5, [0x82, 0x82, 0x03, 0x85, 0x84])"
  "writes_of (insert_ref 5 [0x82, 0x82, 0x03, 0x85, 0x84]) 4 4 = (Err InsufficientBufferSize, 0, [0, 0, 0, 0])"
  by code_simp+

lemma write_number_tests:
  "writes_of (write_u8 0xFA) 1 1 = (Ok (), 1, [0xFA])"
  "fst (writes_of (write_u8 0xFA) 0 0) = Err InsufficientBufferSize"
  "writes_of (write_u16 0xFAED) 2 2 = (Ok (), 2, [0xFA, 0xED])"
  "fst (writes_of (write_u16 0xFAED) 1 1) = Err InsufficientBufferSize"
  "writes_of (write_u32 0xFAEDCC09) 4 4 = (Ok (), 4, [0xFA, 0xED, 0xCC, 0x09])"
  "fst (writes_of (write_u32 0xFAEDCC08) 3 3) = Err InsufficientBufferSize"
  "writes_of (write_variable_byte_int 512) 2 2 = (Ok (), 2, [0x80, 0x04])"
  "fst (writes_of (write_variable_byte_int 453123) 2 2) = Err InsufficientBufferSize"
  by code_simp+

lemma write_text_tests:
  "writes_of (write_string_ref \<lparr>es_string = [0xF0, 0x9F, 0x98, 0x8E], es_len = 4\<rparr>) 6 6 = (Ok (), 6, [0x00, 0x04, 0xF0, 0x9F, 0x98, 0x8E])"
  "fst (writes_of (write_string_ref \<lparr>es_string = [0xF0, 0x9F, 0x98, 0x8E], es_len = 4\<rparr>) 5 5) = Err InsufficientBufferSize"
  "writes_of (write_binary_ref \<lparr>bd_bin = [0xAB, 0xEF, 0x88, 0x43], bd_len = 4\<rparr>) 6 6 = (Ok (), 6, [0x00, 0x04, 0xAB, 0xEF, 0x88, 0x43])"
  "fst (writes_of (write_binary_ref \<lparr>bd_bin = [0xAB, 0xEF, 0x88, 0x43], bd_len = 4\<rparr>) 6 5) = Err InsufficientBufferSize"
  "writes_of (write_string_pair_ref \<lparr>sp_name = text_of ''Name'', sp_value = \<lparr>es_string = [0xF0, 0x9F, 0x98, 0x8E], es_len = 4\<rparr>\<rparr>) 12 12 =
     (Ok (), 12, [0x00, 0x04, 0x4e, 0x61, 0x6d, 0x65, 0x00, 0x04, 0xF0, 0x9F, 0x98, 0x8E])"
  "fst (writes_of (write_string_pair_ref \<lparr>sp_name = text_of ''Name'', sp_value = \<lparr>es_string = [0xF0, 0x9F, 0x98, 0x8E], es_len = 4\<rparr>\<rparr>) 12 10) =
     Err InsufficientBufferSize"
  by code_simp+

lemma write_properties_tests:
  "writes_of (write_properties [ResponseTopic (text_of ''Name''), CorrelationData \<lparr>bd_bin = [0x12, 0x34, 0x56], bd_len = 3\<rparr>]) 13 13 =
     (Ok (), 13, [0x08, 0x00, 0x04, 0x4e, 0x61, 0x6d, 0x65, 0x09, 0x00, 0x03, 0x12, 0x34, 0x56])"
  "fst (writes_of (write_properties [ResponseTopic (text_of ''Name''), CorrelationData \<lparr>bd_bin = [0x12, 0x34, 0x56], bd_len = 3\<rparr>]) 10 10) =
     Err InsufficientBufferSize"
  by code_simp+

lemma write_filters_tests:
  "writes_of (write_topic_filters_ref True 2 [\<lparr>tf_filter = text_of ''test'', tf_sub_options = 0xAE\<rparr>,
      \<lparr>tf_filter = text_of ''topic'', tf_sub_options = 0x22\<rparr>]) 15 15 =
     (Ok (), 15, [0x00, 0x04, 0x74, 0x65, 0x73, 0x74, 0xAE, 0x00, 0x05, 0x74, 0x6f, 0x70, 0x69, 0x63, 0x22])"
  "fst (writes_of (write_topic_filters_ref True 2 [\<lparr>tf_filter = text_of ''test'', tf_sub_options = 0xAE\<rparr>,
      \<lparr>tf_filter = text_of ''topic'', tf_sub_options = 0x22\<rparr>]) 15 5) = Err InsufficientBufferSize"
  by code_simp+

definition rem_len_after :: "bytes \<Rightarrow> (buffer_error, bytes option) outcome" where
  "rem_len_after bs = get_rem_len (snd (insert_ref (length bs) bs (writer_new (replicate 6 0) 6)))"

lemma get_rem_len_tests:
  "rem_len_after [0x82, 0x02, 0x03, 0x85, 0x84] = Ok (Some [0x02, 0x00, 0x00, 0x00])"
  "rem_len_after [0x82, 0x82, 0x03, 0x85, 0x84] = Ok (Some [0x82, 0x03, 0x00, 0x00])"
  "rem_len_after [0x82, 0x82, 0x83, 0x05, 0x84] = Ok (Some [0x82, 0x83, 0x05, 0x00])"
  "rem_len_after [0x82, 0x82, 0x83, 0x85, 0x04] = Ok (Some [0x82, 0x83, 0x85, 0x04])"
  "rem_len_after [0x82, 0x82, 0x83, 0x85, 0x84, 0x34] = Ok (Some [0x82, 0x83, 0x85, 0x84])"
  "rem_len_after [0x82, 0x82, 0x83, 0x85, 0x04, 0x34] = Ok (Some [0x82, 0x83, 0x85, 0x04])"
  "rem_len_after [0x82, 0x00, 0x83, 0x85, 0x04, 0x34] = Ok (Some [0x00, 0x00, 0x00, 0x00])"
  "rem_len_after [0x82, 0x81] = Ok None"
  "rem_len_after [0x82, 0x81, 0x82, 0x01] = Ok (Some [0x81, 0x82, 0x01, 0x00])"
  by code_simp+

end
