(* ===== verification/Byte_Order.thy ===== *)
theory Byte_Order
  imports Rust_Prelude
begin

text \<open>
  Byte order of integers of any width (\<open>from_le_bytes\<close>, \<open>to_be_bytes\<close> and \<open>to_be\<close> of the
  standard library on the little-endian target): the \<open>n\<close> bytes of a word of \<open>8 n\<close> bits in either
  order, the word they stand for, and the swap of the bytes. The conversions are inverse to each
  other, which is what the codec of the NTP packet rests on.
\<close>

fun le_word :: "bytes \<Rightarrow> 'a::len word" where
  "le_word [] = 0"
| "le_word (b # bs) = ucast b OR push_bit 8 (le_word bs)"

definition le_bytes :: "nat \<Rightarrow> 'a::len word \<Rightarrow> bytes" where
  "le_bytes n x = map (\<lambda>k. ucast (drop_bit (8 * k) x)) [0..<n]"

definition be_bytes :: "nat \<Rightarrow> 'a::len word \<Rightarrow> bytes" where
  "be_bytes n x = rev (le_bytes n x)"

definition swap_bytes :: "nat \<Rightarrow> 'a::len word \<Rightarrow> 'a word" where
  "swap_bytes n x = le_word (be_bytes n x)"

lemma length_be_bytes [simp]: "length (be_bytes n x) = n" "length (le_bytes n x) = n"
  by (simp_all add: be_bytes_def le_bytes_def)

lemma bit_le_word: "bit (le_word bs :: 'a::len word) n \<longleftrightarrow>
  n < LENGTH('a) \<and> n div 8 < length bs \<and> bit (bs ! (n div 8)) (n mod 8)"
proof (induction bs arbitrary: n)
  case Nil then show ?case by simp
next
  case (Cons b bs)
  show ?case
  proof (cases "n < 8")
    case True
    then show ?thesis by (auto simp: bit_simps)
  next
    case False
    then have "n div 8 = Suc ((n - 8) div 8)" "n mod 8 = (n - 8) mod 8" "\<not> bit b n"
      using bit_imp_le_length [of b n] by (auto simp: le_div_geq le_mod_geq)
    with False show ?thesis by (auto simp: bit_simps Cons.IH)
  qed
qed

lemma le_word_le_bytes: "LENGTH('a::len) = 8 * n \<Longrightarrow> le_word (le_bytes n x) = (x :: 'a word)"
  by (rule bit_word_eqI) (auto simp: bit_le_word le_bytes_def bit_simps less_mult_imp_div_less mult.commute)

lemma le_bytes_le_word:
  "LENGTH('a::len) = 8 * length bs \<Longrightarrow> le_bytes (length bs) (le_word bs :: 'a word) = bs"
proof (rule nth_equalityI)
  fix k assume l: "LENGTH('a) = 8 * length bs" and "k < length (le_bytes (length bs) (le_word bs :: 'a word))"
  then have k: "k < length bs" by simp
  show "le_bytes (length bs) (le_word bs :: 'a word) ! k = bs ! k"
  proof (rule bit_word_eqI)
    fix n assume "n < LENGTH(8)"
    then have "(8 * k + n) div 8 = k" "(8 * k + n) mod 8 = n" "8 * k + n < 8 * length bs" using k by simp_all
    then show "bit (le_bytes (length bs) (le_word bs :: 'a word) ! k) n = bit (bs ! k) n"
      using k l \<open>n < LENGTH(8)\<close> by (simp add: le_bytes_def bit_simps bit_le_word)
  qed
qed simp

lemma swap_bytes_le_word_be_bytes:
  "LENGTH('a::len) = 8 * n \<Longrightarrow> swap_bytes n (le_word (be_bytes n x) :: 'a word) = (x :: 'a word)"
  using le_bytes_le_word [of "be_bytes n x", where 'a='a] le_word_le_bytes [of n x]
  by (simp add: swap_bytes_def be_bytes_def)
end
