(* ===== verification/Sntp.thy ===== *)
theory Sntp
  imports Byte_Order "HOL-Library.Signed_Division"
begin

text \<open>
  The SNTP client (sntpc/src/types.rs and sntpc/src/lib.rs): the 48-byte packet and its two byte
  orders, the validation of a response, the fixed-point arithmetic for round trip and clock
  offset, and the exchange of one request and one response over a UDP socket.

  The socket, the address resolution and the timestamp generator are traits that the caller
  implements, so they are parameters. A socket operation that never completes is \<open>None\<close>. Signed
  integers of the code (\<open>i8\<close>, \<open>i64\<close>) are words read by \<open>sint\<close>; \<open>as\<close> between integers of the same
  width keeps the bits.
\<close>

type_synonym i8 = "8 word"
type_synonym i64 = "64 word"

section \<open>Constants\<close>

definition MODE_MASK :: u8 where "MODE_MASK = 0x07"
definition MODE_SHIFT :: nat where "MODE_SHIFT = 0"
definition VERSION_MASK :: u8 where "VERSION_MASK = 0x38"
definition VERSION_SHIFT :: nat where "VERSION_SHIFT = 3"
definition LI_MASK :: u8 where "LI_MASK = 0xC0"
definition LI_SHIFT :: nat where "LI_SHIFT = 6"
definition PSEC_IN_SEC :: u64 where "PSEC_IN_SEC = 1000000000000"
definition NSEC_IN_SEC :: u32 where "NSEC_IN_SEC = 1000000000"
definition USEC_IN_SEC :: u32 where "USEC_IN_SEC = 1000000"
definition MSEC_IN_SEC :: u32 where "MSEC_IN_SEC = 1000"
definition SECONDS_MASK :: u64 where "SECONDS_MASK = 0xffffffff00000000"
definition SECONDS_FRAC_MASK :: u64 where "SECONDS_FRAC_MASK = 0xffffffff"
definition NTP_TIMESTAMP_DELTA :: u32 where "NTP_TIMESTAMP_DELTA = 2208988800"
definition SNTP_CLIENT_MODE :: u8 where "SNTP_CLIENT_MODE = 3"
definition SNTP_VERSION :: u8 where "SNTP_VERSION = push_bit 3 4"
definition U32_MAX :: u32 where "U32_MAX = 0xffffffff"

lemmas sntp_consts = MODE_MASK_def MODE_SHIFT_def VERSION_MASK_def VERSION_SHIFT_def LI_MASK_def
  LI_SHIFT_def PSEC_IN_SEC_def NSEC_IN_SEC_def USEC_IN_SEC_def MSEC_IN_SEC_def SECONDS_MASK_def
  SECONDS_FRAC_MASK_def NTP_TIMESTAMP_DELTA_def SNTP_CLIENT_MODE_def SNTP_VERSION_def U32_MAX_def

section \<open>Types\<close>

record ntp_packet =
  li_vn_mode :: u8
  stratum :: u8
  poll :: i8
  precision :: i8
  root_delay :: u32
  root_dispersion :: u32
  ref_id :: u32
  ref_timestamp :: u64
  origin_timestamp :: u64
  recv_timestamp :: u64
  tx_timestamp :: u64

record ntp_timestamp =
  ts_seconds :: i64
  ts_seconds_fraction :: i64

definition ntp_timestamp_from :: "u64 \<Rightarrow> ntp_timestamp" where
  "ntp_timestamp_from v =
     \<lparr>ts_seconds = drop_bit 32 (v AND SECONDS_MASK) - ucast NTP_TIMESTAMP_DELTA,
      ts_seconds_fraction = v AND SECONDS_FRAC_MASK\<rparr>"

datatype units = Milliseconds | Microseconds

fun units_text :: "units \<Rightarrow> string" where
  "units_text Microseconds = ''us''"
| "units_text Milliseconds = ''ms''"

datatype sntp_error = IncorrectOriginTimestamp | IncorrectMode | IncorrectLeapIndicator
  | IncorrectResponseVersion | IncorrectStratumHeaders | IncorrectPayload | Network
  | AddressResolve | ResponseAddressMismatch | IncorrectPayload1 nat nat | SendError
  | ReceiveError | IpDecode | NetworkBind

record ntp_result =
  res_seconds :: u32
  res_seconds_fraction :: u32
  res_roundtrip :: u64
  res_offset :: i64
  res_stratum :: u8
  res_precision :: i8

definition ntp_result_new :: "u32 \<Rightarrow> u32 \<Rightarrow> u64 \<Rightarrow> i64 \<Rightarrow> u8 \<Rightarrow> i8 \<Rightarrow> ntp_result" where
  "ntp_result_new seconds seconds_fraction roundtrip offset strat prec =
     (let seconds = seconds + seconds_fraction div U32_MAX;
          seconds_fraction = seconds_fraction mod U32_MAX in
      \<lparr>res_seconds = seconds, res_seconds_fraction = seconds_fraction, res_roundtrip = roundtrip,
       res_offset = offset, res_stratum = strat, res_precision = prec\<rparr>)"

text \<open>The timestamp generator: \<open>init\<close> may read the clock of the environment \<open>'w\<close>.\<close>

record ('w, 'g) timestamp_generator =
  ts_init :: "'w \<Rightarrow> 'g \<Rightarrow> 'g"
  timestamp_sec :: "'g \<Rightarrow> u64"
  timestamp_subsec_micros :: "'g \<Rightarrow> u32"

definition get_ntp_timestamp :: "('w, 'g) timestamp_generator \<Rightarrow> 'g \<Rightarrow> u64" where
  "get_ntp_timestamp G g =
     push_bit 32 (timestamp_sec G g + ucast NTP_TIMESTAMP_DELTA)
       + ucast (timestamp_subsec_micros G g) * ucast U32_MAX div ucast USEC_IN_SEC"

definition ntp_packet_new :: "('w, 'g) timestamp_generator \<Rightarrow> 'w \<Rightarrow> 'g \<Rightarrow> ntp_packet" where
  "ntp_packet_new G w g =
     \<lparr>li_vn_mode = SNTP_CLIENT_MODE OR SNTP_VERSION, stratum = 0, poll = 0, precision = 0,
      root_delay = 0, root_dispersion = 0, ref_id = 0, ref_timestamp = 0, origin_timestamp = 0,
      recv_timestamp = 0, tx_timestamp = get_ntp_timestamp G (ts_init G w g)\<rparr>"

record send_request_result =
  originate_timestamp :: u64
  req_version :: u8

definition send_request_result_from :: "ntp_packet \<Rightarrow> send_request_result" where
  "send_request_result_from p =
     \<lparr>originate_timestamp = tx_timestamp p, req_version = li_vn_mode p\<rparr>"

section \<open>The raw packet\<close>

text \<open>\<open>RawNtpPacket\<close> is an array of \<open>size_of::<NtpPacket>()\<close> = 48 bytes.\<close>

definition NTP_PACKET_SIZE :: nat where "NTP_PACKET_SIZE = 48"

definition raw_default :: bytes where "raw_default = replicate NTP_PACKET_SIZE 0"

definition sub_array :: "bytes \<Rightarrow> nat \<Rightarrow> nat \<Rightarrow> bytes" where
  "sub_array raw a b = take (b - a) (drop a raw)"

definition ntp_packet_from_raw :: "bytes \<Rightarrow> ntp_packet" where
  "ntp_packet_from_raw raw =
     \<lparr>li_vn_mode = raw ! 0, stratum = raw ! 1, poll = raw ! 2, precision = raw ! 3,
      root_delay = le_word (sub_array raw 4 8),
      root_dispersion = le_word (sub_array raw 8 12),
      ref_id = le_word (sub_array raw 12 16),
      ref_timestamp = le_word (sub_array raw 16 24),
      origin_timestamp = le_word (sub_array raw 24 32),
      recv_timestamp = le_word (sub_array raw 32 40),
      tx_timestamp = le_word (sub_array raw 40 48)\<rparr>"

definition raw_from_ntp_packet :: "ntp_packet \<Rightarrow> bytes" where
  "raw_from_ntp_packet p =
     (let b0 = raw_default[0 := li_vn_mode p, 1 := stratum p, 2 := poll p, 3 := precision p];
          b1 = splice b0 4 (be_bytes 4 (root_delay p));
          b2 = splice b1 8 (be_bytes 4 (root_dispersion p));
          b3 = splice b2 12 (be_bytes 4 (ref_id p));
          b4 = splice b3 16 (be_bytes 8 (ref_timestamp p));
          b5 = splice b4 24 (be_bytes 8 (origin_timestamp p));
          b6 = splice b5 32 (be_bytes 8 (recv_timestamp p)) in
      splice b6 40 (be_bytes 8 (tx_timestamp p)))"

definition convert_from_network :: "ntp_packet \<Rightarrow> ntp_packet" where
  "convert_from_network p = p\<lparr>
     root_delay := swap_bytes 4 (root_delay p),
     root_dispersion := swap_bytes 4 (root_dispersion p),
     ref_id := swap_bytes 4 (ref_id p),
     ref_timestamp := swap_bytes 8 (ref_timestamp p),
     origin_timestamp := swap_bytes 8 (origin_timestamp p),
     recv_timestamp := swap_bytes 8 (recv_timestamp p),
     tx_timestamp := swap_bytes 8 (tx_timestamp p)\<rparr>"

section \<open>Fixed-point arithmetic\<close>

definition shifter :: "u8 \<Rightarrow> u8 \<Rightarrow> nat \<Rightarrow> u8" where
  "shifter val m sh = drop_bit sh (val AND m)"

definition convert_delays :: "u64 \<Rightarrow> u64 \<Rightarrow> u64 \<Rightarrow> u64" where
  "convert_delays sec fraction u = sec * u + fraction * u div ucast U32_MAX"

fun units_per_sec :: "units \<Rightarrow> u64" where
  "units_per_sec Milliseconds = ucast MSEC_IN_SEC"
| "units_per_sec Microseconds = ucast USEC_IN_SEC"

definition roundtrip_calculate :: "u64 \<Rightarrow> u64 \<Rightarrow> u64 \<Rightarrow> u64 \<Rightarrow> units \<Rightarrow> u64" where
  "roundtrip_calculate t1 t2 t3 t4 u =
     (let delta = (t4 - t1) - (t3 - t2);
          delta_sec = drop_bit 32 (delta AND SECONDS_MASK);
          delta_sec_fraction = delta AND SECONDS_FRAC_MASK in
      convert_delays delta_sec delta_sec_fraction (units_per_sec u))"

text \<open>Division of \<open>i64\<close> truncates towards zero; \<open>unsigned_abs\<close> and \<open>signum\<close> read the sign.\<close>

definition i64_div :: "i64 \<Rightarrow> i64 \<Rightarrow> i64" where
  "i64_div a b = word_of_int (sint a sdiv sint b)"

definition unsigned_abs :: "i64 \<Rightarrow> u64" where
  "unsigned_abs a = word_of_int \<bar>sint a\<bar>"

definition i64_signum :: "i64 \<Rightarrow> i64" where
  "i64_signum a = word_of_int (sgn (sint a))"

definition offset_calculate :: "u64 \<Rightarrow> u64 \<Rightarrow> u64 \<Rightarrow> u64 \<Rightarrow> units \<Rightarrow> i64" where
  "offset_calculate t1 t2 t3 t4 u =
     (let theta = i64_div ((t2 - t1) + (t3 - t4)) 2;
          theta_sec = drop_bit 32 (unsigned_abs theta AND SECONDS_MASK);
          theta_sec_fraction = unsigned_abs theta AND SECONDS_FRAC_MASK in
      convert_delays theta_sec theta_sec_fraction (units_per_sec u) * i64_signum theta)"

section \<open>Processing a response\<close>

definition SNTP_UNICAST :: u8 where "SNTP_UNICAST = 4"
definition SNTP_BROADCAST :: u8 where "SNTP_BROADCAST = 5"
definition LI_MAX_VALUE :: u8 where "LI_MAX_VALUE = 3"

definition process_response :: "send_request_result \<Rightarrow> bytes \<Rightarrow> u64 \<Rightarrow> (sntp_error, ntp_result) outcome" where
  "process_response req resp recv_ts =
     (let packet = convert_from_network (ntp_packet_from_raw resp) in
      if originate_timestamp req \<noteq> origin_timestamp packet then Err IncorrectOriginTimestamp
      else
        let mode = shifter (li_vn_mode packet) MODE_MASK MODE_SHIFT;
            li = shifter (li_vn_mode packet) LI_MASK LI_SHIFT;
            resp_version = shifter (li_vn_mode packet) VERSION_MASK VERSION_SHIFT;
            req_ver = shifter (req_version req) VERSION_MASK VERSION_SHIFT in
        if mode \<noteq> SNTP_UNICAST \<and> mode \<noteq> SNTP_BROADCAST then Err IncorrectMode
        else if li > LI_MAX_VALUE then Err IncorrectLeapIndicator
        else if req_ver \<noteq> resp_version then Err IncorrectResponseVersion
        else if stratum packet = 0 then Err IncorrectStratumHeaders
        else
          let t1 = origin_timestamp packet; t2 = recv_timestamp packet;
              t3 = tx_timestamp packet; t4 = recv_ts;
              roundtrip = roundtrip_calculate t1 t2 t3 t4 Microseconds;
              offset = offset_calculate t1 t2 t3 t4 Microseconds;
              timestamp = ntp_timestamp_from (tx_timestamp packet) in
          Ok (ntp_result_new (ucast (ts_seconds timestamp)) (ucast (ts_seconds_fraction timestamp))
                roundtrip offset (stratum packet) (precision packet)))"

section \<open>The exchange\<close>

text \<open>\<open>recv_from\<close> fills the buffer it is given and reports a size and the sender.\<close>

record ('w, 'd, 'addr) ntp_udp_socket =
  send_to :: "'w \<Rightarrow> bytes \<Rightarrow> 'd \<Rightarrow> ((sntp_error, nat) outcome \<times> 'w) option"
  recv_from :: "'w \<Rightarrow> bytes \<Rightarrow> ((sntp_error, bytes \<times> nat \<times> 'addr) outcome \<times> 'w) option"

definition send_request :: "('w, 'd, 'addr) ntp_udp_socket \<Rightarrow> 'd \<Rightarrow> ntp_packet \<Rightarrow> 'w \<Rightarrow>
    ((sntp_error, unit) outcome \<times> 'w) option" where
  "send_request S dest req w =
     (let buf = raw_from_ntp_packet req in
      case send_to S w buf dest of
        None \<Rightarrow> None
      | Some (Ok sz, w') \<Rightarrow> Some (if sz = length buf then Ok () else Err Network, w')
      | Some (Err _, w') \<Rightarrow> Some (Err Network, w')
      | Some (Panic, w') \<Rightarrow> Some (Panic, w'))"

definition sntp_send_request :: "('w, 'd, 'addr) ntp_udp_socket \<Rightarrow> ('w, 'g) timestamp_generator \<Rightarrow>
    'd \<Rightarrow> 'g \<Rightarrow> 'w \<Rightarrow> ((sntp_error, send_request_result) outcome \<times> 'w) option" where
  "sntp_send_request S G dest g w =
     (let request = ntp_packet_new G w g in
      case send_request S dest request w of
        None \<Rightarrow> None
      | Some (Ok _, w') \<Rightarrow> Some (Ok (send_request_result_from request), w')
      | Some (Err e, w') \<Rightarrow> Some (Err e, w')
      | Some (Panic, w') \<Rightarrow> Some (Panic, w'))"

definition sntp_process_response :: "('w, 'd, 'addr) ntp_udp_socket \<Rightarrow> ('w, 'g) timestamp_generator \<Rightarrow>
    ('d \<Rightarrow> 'addr list option) \<Rightarrow> 'd \<Rightarrow> 'g \<Rightarrow> send_request_result \<Rightarrow> 'w \<Rightarrow>
    ((sntp_error, ntp_result) outcome \<times> 'w) option" where
  "sntp_process_response S G to_socket_addrs dest g req w =
     (case recv_from S w raw_default of
        None \<Rightarrow> None
      | Some (Err e, w') \<Rightarrow> Some (Err e, w')
      | Some (Panic, w') \<Rightarrow> Some (Panic, w')
      | Some (Ok (response_buf, response, src), w') \<Rightarrow>
          let recv_ts = get_ntp_timestamp G (ts_init G w' g) in
          (case to_socket_addrs dest of
             None \<Rightarrow> Some (Err AddressResolve, w')
           | Some it \<Rightarrow>
               if \<not> list_ex (\<lambda>a. a = src) it then Some (Err ResponseAddressMismatch, w')
               else if response \<noteq> NTP_PACKET_SIZE
                 then Some (Err (IncorrectPayload1 response NTP_PACKET_SIZE), w')
               else Some (process_response req response_buf recv_ts, w')))"

definition get_time :: "('w, 'd, 'addr) ntp_udp_socket \<Rightarrow> ('w, 'g) timestamp_generator \<Rightarrow>
    ('d \<Rightarrow> 'addr list option) \<Rightarrow> 'd \<Rightarrow> 'g \<Rightarrow> 'w \<Rightarrow> ((sntp_error, ntp_result) outcome \<times> 'w) option" where
  "get_time S G to_socket_addrs pool g w =
     (case sntp_send_request S G pool g w of
        None \<Rightarrow> None
      | Some (Ok result, w') \<Rightarrow> sntp_process_response S G to_socket_addrs pool g result w'
      | Some (Err e, w') \<Rightarrow> Some (Err e, w')
      | Some (Panic, w') \<Rightarrow> Some (Panic, w'))"

section \<open>Fractions of a second\<close>

definition fraction_to_milliseconds :: "u32 \<Rightarrow> u32" where
  "fraction_to_milliseconds f = ucast ((ucast f :: u64) * ucast MSEC_IN_SEC div ucast U32_MAX)"

definition fraction_to_microseconds :: "u32 \<Rightarrow> u32" where
  "fraction_to_microseconds f = ucast ((ucast f :: u64) * ucast USEC_IN_SEC div ucast U32_MAX)"

definition fraction_to_nanoseconds :: "u32 \<Rightarrow> u32" where
  "fraction_to_nanoseconds f = ucast ((ucast f :: u64) * ucast NSEC_IN_SEC div ucast U32_MAX)"

definition fraction_to_picoseconds :: "u32 \<Rightarrow> u64" where
  "fraction_to_picoseconds f =
     ucast ((ucast f :: 128 word) * ucast PSEC_IN_SEC div ucast U32_MAX)"


section \<open>The raw packet round trip\<close>

lemma splice_next: "q = p + length ys \<Longrightarrow> q + length zs \<le> length xs \<Longrightarrow>
  splice (splice xs p ys) q zs = splice xs p (ys @ zs)"
  using splice_splice [of p ys zs xs] by simp
lemma raw_from_ntp_packet_bytes:
  "raw_from_ntp_packet p = [li_vn_mode p, stratum p, poll p, precision p] @
     be_bytes 4 (root_delay p) @ be_bytes 4 (root_dispersion p) @ be_bytes 4 (ref_id p) @
     be_bytes 8 (ref_timestamp p) @ be_bytes 8 (origin_timestamp p) @
     be_bytes 8 (recv_timestamp p) @ be_bytes 8 (tx_timestamp p)"
proof -
  have "take 4 (raw_default[0 := li_vn_mode p, 1 := stratum p, 2 := poll p, 3 := precision p]) =
     [li_vn_mode p, stratum p, poll p, precision p]"
    by (simp add: raw_default_def NTP_PACKET_SIZE_def take_update_swap) (simp add: eval_nat_numeral)
  then show ?thesis
    unfolding raw_from_ntp_packet_def Let_def
    by (simp add: splice_next raw_default_def NTP_PACKET_SIZE_def) (simp add: splice_def)
qed

lemma length_raw_from_ntp_packet [simp]: "length (raw_from_ntp_packet p) = NTP_PACKET_SIZE"
  by (simp add: raw_from_ntp_packet_bytes NTP_PACKET_SIZE_def)

lemma raw_packet_convert: "convert_from_network (ntp_packet_from_raw (raw_from_ntp_packet p)) = p"
proof -
  note sw = swap_bytes_le_word_be_bytes [of 4, where 'a = 32] swap_bytes_le_word_be_bytes [of 8, where 'a = 64]
  show ?thesis
    by (cases p) (simp add: raw_from_ntp_packet_bytes ntp_packet_from_raw_def sub_array_def
        convert_from_network_def sw)
qed

text \<open>
  C12. The raw packet is 48 bytes, and reading it back (little-endian parse, then the swap of
  \<open>convert_from_network\<close>) recovers every field of every packet; the leading byte is the mode.
\<close>

theorem raw_packet_roundtrip:
  "length (raw_from_ntp_packet p) = 48 \<and> hd (raw_from_ntp_packet p) = li_vn_mode p \<and>
   convert_from_network (ntp_packet_from_raw (raw_from_ntp_packet p)) = p"
  by (simp add: raw_packet_convert NTP_PACKET_SIZE_def) (simp add: raw_from_ntp_packet_bytes)

section \<open>Accuracy of the fixed-point arithmetic\<close>

lemma drop_and_seconds_mask: "drop_bit 32 (v AND SECONDS_MASK) = drop_bit 32 v"
proof -
  have "SECONDS_MASK = NOT (mask 32)" by (simp add: SECONDS_MASK_def mask_eq_exp_minus_1)
  show ?thesis unfolding \<open>SECONDS_MASK = _\<close> by (rule bit_word_eqI) (auto simp: bit_simps dest: bit_imp_le_length)
qed
lemma and_frac_mask: "v AND SECONDS_FRAC_MASK = take_bit 32 v"
proof -
  have "SECONDS_FRAC_MASK = mask 32" by (simp add: SECONDS_FRAC_MASK_def mask_eq_exp_minus_1)
  then show ?thesis by (simp add: take_bit_eq_mask)
qed

lemma unat_convert_delays:
  fixes v :: u64
  assumes "unat u \<le> 1000000"
  shows "unat (convert_delays (drop_bit 32 v) (take_bit 32 v) u) =
    unat v div 2 ^ 32 * unat u + unat v mod 2 ^ 32 * unat u div (2 ^ 32 - 1)"
proof -
  have s: "unat (drop_bit 32 v) = unat v div 2 ^ 32"
    by (simp add: drop_bit_eq_div unat_div)
  have f: "unat (take_bit 32 v) = unat v mod 2 ^ 32"
    by (simp add: take_bit_eq_mod unat_mod)
  have "unat v div 2 ^ 32 < 2 ^ 32" using unsigned_less [where 'a = nat and w = v] by (simp add: div_less_iff_less_mult)
  then have a: "unat v div 2 ^ 32 * unat u \<le> (2 ^ 32 - 1) * 1000000"
    using assms by (intro mult_mono) auto
  have b: "unat v mod 2 ^ 32 * unat u \<le> (2 ^ 32 - 1) * 1000000"
    using assms by (intro mult_mono) (auto simp: less_Suc_eq_le [symmetric])
  have c: "unat (drop_bit 32 v * u) = unat v div 2 ^ 32 * unat u"
    using a by (simp add: unat_word_ariths s)
  have d: "unat (take_bit 32 v * u div ucast U32_MAX) = unat v mod 2 ^ 32 * unat u div (2 ^ 32 - 1)"
    using b by (simp add: unat_word_ariths unat_div f U32_MAX_def)
  have "unat v mod 2 ^ 32 * unat u div (2 ^ 32 - 1) \<le> 1000000"
    using b by (metis div_le_mono div_mult_self_is_m mult.commute zero_less_numeral less_numeral_extra(1) zero_less_diff one_less_numeral_iff one_less_power semiring_norm(76) zero_less_numeral)
  with a show ?thesis
    by (simp add: convert_delays_def unat_word_ariths(1) c d)
qed
lemma fixed_point_error:
  fixes f u B :: nat
  assumes "f < B" "1 < B"
  shows "f * u < (f * u div (B - 1) + 1) * B" and "f * u div (B - 1) * B \<le> f * u + u"
proof -
  define g where "g = f * u div (B - 1)"
  have "f * u < (g + 1) * (B - 1)"
    using assms dividend_less_div_times [of "B - 1" "f * u"] by (simp add: g_def)
  also have "\<dots> \<le> (g + 1) * B" by (intro mult_le_mono) auto
  finally show "f * u < (f * u div (B - 1) + 1) * B" by (simp add: g_def)
  have "g * (B - 1) \<le> f * u" by (simp add: g_def)
  moreover have "g \<le> u"
  proof -
    have "f * u \<le> (B - 1) * u" using assms by (intro mult_le_mono) auto
    then have "g \<le> (B - 1) * u div (B - 1)" unfolding g_def by (rule div_le_mono)
    then show ?thesis using assms by simp
  qed
  moreover have "g * B = g * (B - 1) + g" using assms by (simp add: algebra_simps)
  ultimately show "f * u div (B - 1) * B \<le> f * u + u" unfolding g_def [symmetric] by linarith
qed

lemma convert_delays_error:
  fixes v :: u64
  defines "r \<equiv> unat (convert_delays (drop_bit 32 v) (take_bit 32 v) (ucast USEC_IN_SEC))"
  shows "unat v * 1000000 < (r + 1) * 2 ^ 32" and "r * 2 ^ 32 \<le> unat v * 1000000 + 1000000"
    and "r \<le> unat v div 2 ^ 32 * 1000000 + 1000000"
proof -
  define f where "f = unat v mod 2 ^ 32"
  define g where "g = f * 1000000 div (2 ^ 32 - 1)"
  have v: "unat v = unat v div 2 ^ 32 * 2 ^ 32 + f" by (simp add: f_def)
  have r: "r = unat v div 2 ^ 32 * 1000000 + g"
    unfolding r_def g_def f_def by (subst unat_convert_delays) (simp_all add: USEC_IN_SEC_def)
  have "f < 2 ^ 32" by (simp add: f_def)
  then have "f * 1000000 < (g + 1) * 2 ^ 32" "g * 2 ^ 32 \<le> f * 1000000 + 1000000"
    using fixed_point_error [of f "2 ^ 32" 1000000] by (simp_all add: g_def)
  then show "unat v * 1000000 < (r + 1) * 2 ^ 32" "r * 2 ^ 32 \<le> unat v * 1000000 + 1000000"
    by (subst v, simp add: r algebra_simps)+
  have "g \<le> 1000000" using \<open>f < 2 ^ 32\<close> by (simp add: g_def div_le_mono)
  then show "r \<le> unat v div 2 ^ 32 * 1000000 + 1000000" by (simp add: r)
qed

lemma convert_delays_error_int:
  fixes v :: u64
  defines "r \<equiv> convert_delays (drop_bit 32 v) (take_bit 32 v) (ucast USEC_IN_SEC)"
  shows "uint v * 10 ^ 6 < (uint r + 1) * 2 ^ 32 \<and> uint r * 2 ^ 32 \<le> uint v * 10 ^ 6 + 10 ^ 6"
proof -
  have "int (unat v * 1000000) < int ((unat r + 1) * 2 ^ 32)"
    and "int (unat r * 2 ^ 32) \<le> int (unat v * 1000000 + 1000000)"
    unfolding of_nat_less_iff of_nat_le_iff r_def by (rule convert_delays_error)+
  then show ?thesis by (simp del: of_nat_le_iff of_nat_less_iff)
qed

lemma sint_i64_range: "- (2 ^ 63) \<le> sint (x :: i64)" "sint (x :: i64) < 2 ^ 63"
  using sint_ge [of x] sint_lt [of x] by simp_all

lemma sint_word_of_int_i64: "- (2 ^ 63) \<le> k \<Longrightarrow> k < 2 ^ 63 \<Longrightarrow> sint (word_of_int k :: i64) = k"
  by (simp add: signed_of_int signed_take_bit_int_eq_self)

lemma uint_word_of_int_u64: "0 \<le> k \<Longrightarrow> k < 2 ^ 64 \<Longrightarrow> uint (word_of_int k :: u64) = k"
  by (simp add: uint_word_of_int)

lemma sdiv_2_error: "\<bar>2 * (k sdiv 2) - k\<bar> \<le> 1" "\<bar>k sdiv 2\<bar> = \<bar>k\<bar> div 2" for k :: int
  by (cases "k < 0"; cases "k = 0"; simp add: signed_divide_int_def; presburger)+

lemma sint_i64_half: "sint (i64_div x 2) = sint x sdiv 2"
proof -
  have "\<bar>sint x sdiv 2\<bar> \<le> 2 ^ 62"
    using sint_i64_range [of x] unfolding sdiv_2_error by simp
  then show ?thesis unfolding i64_div_def by (simp add: sint_word_of_int_i64)
qed

lemma uint_unsigned_abs: "uint (unsigned_abs x) = \<bar>sint x\<bar>"
  using sint_i64_range [of x] by (simp add: unsigned_abs_def uint_word_of_int_u64 abs_if)

text \<open>The offset in microseconds against its fixed-point value \<open>theta\<close>.\<close>

lemma sint_offset:
  fixes x :: i64
  assumes "\<bar>sint x\<bar> \<le> 2 ^ 62"
  defines "r \<equiv> convert_delays (drop_bit 32 (unsigned_abs x)) (take_bit 32 (unsigned_abs x))
    (ucast USEC_IN_SEC)"
  shows "\<bar>sint (r * i64_signum x) * 2 ^ 32 - sint x * 10 ^ 6\<bar> \<le> 2 ^ 32"
proof -
  have e: "\<bar>sint x\<bar> * 10 ^ 6 < (uint r + 1) * 2 ^ 32" "uint r * 2 ^ 32 \<le> \<bar>sint x\<bar> * 10 ^ 6 + 10 ^ 6"
    using convert_delays_error_int [of "unsigned_abs x"] by (simp_all add: r_def uint_unsigned_abs)
  have "uint r < 2 ^ 52" using e(2) assms(1) by simp
  then have "\<bar>sgn (sint x) * uint r\<bar> < 2 ^ 52" by (simp add: abs_mult abs_sgn_eq)
  then have "sint (word_of_int (sgn (sint x) * uint r) :: i64) = sgn (sint x) * uint r"
    by (intro sint_word_of_int_i64) (simp_all add: abs_less_iff)
  moreover have "r * i64_signum x = word_of_int (sgn (sint x) * uint r)"
    by (simp add: i64_signum_def mult.commute)
  ultimately have o: "sint (r * i64_signum x) = sgn (sint x) * uint r" by simp
  show ?thesis
    using e unfolding o by (auto simp: sgn_if abs_if split: if_splits)
qed

text \<open>
  C20. If the server's clock is ahead of the client's by \<open>off\<close> (units of \<open>2^-32\<close> s, also
  negative), the request travels \<open>d1\<close>, the server takes \<open>p\<close> and the reply travels \<open>d2\<close>, then, with all
  timestamps wrapping around at the end of an NTP era, the reported round trip is \<open>d1 + d2\<close> to
  within a microsecond and the reported offset is \<open>off\<close> to within half the asymmetry of the delays
  and a microsecond. No intermediate product overflows.
\<close>

theorem sntp_clock_estimate:
  fixes off d1 d2 p :: int and t1 :: u64
  assumes "0 \<le> d1" "0 \<le> d2" "d1 + d2 < 2 ^ 64" "\<bar>2 * off + d1 - d2\<bar> < 2 ^ 63"
    and "t2 = t1 + word_of_int (off + d1)" "t3 = t2 + word_of_int p"
    and "t4 = t1 + word_of_int (d1 + p + d2)"
  shows "(d1 + d2) * 10 ^ 6 < (uint (roundtrip_calculate t1 t2 t3 t4 Microseconds) + 1) * 2 ^ 32 \<and>
    uint (roundtrip_calculate t1 t2 t3 t4 Microseconds) * 2 ^ 32 \<le> (d1 + d2) * 10 ^ 6 + 10 ^ 6 \<and>
    2 * \<bar>sint (offset_calculate t1 t2 t3 t4 Microseconds) * 2 ^ 32 - off * 10 ^ 6\<bar>
      \<le> 2 * 2 ^ 32 + 10 ^ 6 * (\<bar>d1 - d2\<bar> + 1)"
proof -
  have delta: "(t4 - t1) - (t3 - t2) = word_of_int (d1 + d2)"
    using assms(5-7) by simp
  have u: "uint (word_of_int (d1 + d2) :: u64) = d1 + d2"
    using assms(1-3) by (intro uint_word_of_int_u64) auto
  have theta: "(t2 - t1) + (t3 - t4) = word_of_int (2 * off + d1 - d2)"
    using assms(5-7) by (simp add: algebra_simps)
  have s: "sint (word_of_int (2 * off + d1 - d2) :: i64) = 2 * off + d1 - d2"
    using assms(4) by (intro sint_word_of_int_i64) auto
  define th where "th = i64_div (word_of_int (2 * off + d1 - d2)) 2"
  have th: "sint th = (2 * off + d1 - d2) sdiv 2"
    unfolding th_def sint_i64_half s ..
  have b: "\<bar>sint th\<bar> \<le> 2 ^ 62" using assms(4) unfolding th sdiv_2_error by simp
  have h: "\<bar>2 * sint th - (2 * off + d1 - d2)\<bar> \<le> 1" unfolding th by (rule sdiv_2_error)
  define k where "k = offset_calculate t1 t2 t3 t4 Microseconds"
  have "\<bar>sint k * 2 ^ 32 - sint th * 10 ^ 6\<bar> \<le> 2 ^ 32"
    using sint_offset [OF b] unfolding k_def offset_calculate_def Let_def theta
      drop_and_seconds_mask and_frac_mask units_per_sec.simps th_def [symmetric] .
  then have "2 * \<bar>sint k * 2 ^ 32 - off * 10 ^ 6\<bar> \<le> 2 * 2 ^ 32 + 10 ^ 6 * (\<bar>d1 - d2\<bar> + 1)"
    using h by (simp add: abs_le_iff abs_if split: if_splits)
  moreover have "roundtrip_calculate t1 t2 t3 t4 Microseconds =
      convert_delays (drop_bit 32 (word_of_int (d1 + d2))) (take_bit 32 (word_of_int (d1 + d2))) (ucast USEC_IN_SEC)"
    unfolding roundtrip_calculate_def Let_def delta drop_and_seconds_mask and_frac_mask
      units_per_sec.simps ..
  ultimately show ?thesis
    unfolding k_def using convert_delays_error_int [of "word_of_int (d1 + d2)"] u by simp
qed
theorem sntp_clock_estimate_witness:
  "let t1 = 0xE3D28B2B00000000; t2 = t1 + word_of_int (- (2 ^ 33) + 2 ^ 28);
       t3 = t2 + word_of_int (2 ^ 20); t4 = t1 + word_of_int (2 ^ 28 + 2 ^ 20 + 2 ^ 28) in
   2 * \<bar>sint (offset_calculate t1 t2 t3 t4 Microseconds) * 2 ^ 32 - - (2 ^ 33) * 10 ^ 6\<bar>
      \<le> 2 * 2 ^ 32 + 10 ^ 6 * (\<bar>2 ^ 28 - 2 ^ 28\<bar> + 1)"
  unfolding Let_def
  using sntp_clock_estimate [where ?d1.0 = "2 ^ 28" and ?d2.0 = "2 ^ 28" and off = "- (2 ^ 33)"
      and p = "2 ^ 20" and ?t1.0 = "0xE3D28B2B00000000", OF _ _ _ _ refl refl refl] by simp

section \<open>Validation of a response\<close>

definition acceptable :: "u64 \<Rightarrow> ntp_packet \<Rightarrow> bool" where
  "acceptable t1 p \<longleftrightarrow> origin_timestamp p = t1 \<and> li_vn_mode p AND 7 \<in> {4, 5} \<and>
     li_vn_mode p AND 0x38 = 0x20 \<and> stratum p \<noteq> 0"

lemma shifter_mode: "shifter x MODE_MASK MODE_SHIFT = x AND 7"
  by (simp add: shifter_def sntp_consts)

lemma shifter_li: "\<not> shifter x LI_MASK LI_SHIFT > LI_MAX_VALUE"
proof -
  have "unat (shifter x LI_MASK LI_SHIFT) = unat (x AND LI_MASK) div 64"
    by (simp add: shifter_def LI_SHIFT_def drop_bit_eq_div unat_div)
  also have "\<dots> \<le> 3" using unsigned_less [where 'a = nat and w = "x AND LI_MASK"] by simp
  finally show ?thesis by (simp add: word_less_nat_alt LI_MAX_VALUE_def)
qed

lemma push_drop_masked:
  "push_bit 3 (drop_bit 3 (x AND 0x38)) = x AND (0x38 :: u8)"
proof (rule bit_word_eqI)
  fix k assume "k < LENGTH(8)"
  have "k < 3 \<longrightarrow> k = 0 \<or> k = 1 \<or> k = 2" by linarith
  then have "\<not> bit (0x38 :: u8) k \<or> 3 \<le> k" by auto
  then show "bit (push_bit 3 (drop_bit 3 (x AND 0x38))) k = bit (x AND (0x38 :: u8)) k"
    using \<open>k < LENGTH(8)\<close> by (auto simp: bit_push_bit_iff bit_drop_bit_eq bit_and_iff)
qed

lemma shifter_version: "shifter x VERSION_MASK VERSION_SHIFT = shifter y VERSION_MASK VERSION_SHIFT
   \<longleftrightarrow> x AND 0x38 = y AND 0x38"
  unfolding shifter_def VERSION_MASK_def VERSION_SHIFT_def by (metis push_drop_masked)
text \<open>What the time server's packet \<open>p\<close>, received when the local clock shows \<open>t4\<close>, tells.\<close>

definition ntp_outcome :: "ntp_packet \<Rightarrow> u64 \<Rightarrow> ntp_result" where
  "ntp_outcome p t4 =
     ntp_result_new (ucast (ts_seconds (ntp_timestamp_from (tx_timestamp p))))
        (ucast (ts_seconds_fraction (ntp_timestamp_from (tx_timestamp p))))
        (roundtrip_calculate (origin_timestamp p) (recv_timestamp p) (tx_timestamp p) t4 Microseconds)
        (offset_calculate (origin_timestamp p) (recv_timestamp p) (tx_timestamp p) t4 Microseconds)
        (stratum p) (precision p)"

lemma process_response_cases:
  fixes raw :: bytes
  assumes "req_version req = 0x23"
  defines "p \<equiv> convert_from_network (ntp_packet_from_raw raw)"
  shows "process_response req raw t4 =
     (if origin_timestamp p \<noteq> originate_timestamp req then Err IncorrectOriginTimestamp
      else if li_vn_mode p AND 7 \<notin> {4, 5} then Err IncorrectMode
      else if li_vn_mode p AND 0x38 \<noteq> 0x20 then Err IncorrectResponseVersion
      else if stratum p = 0 then Err IncorrectStratumHeaders
      else Ok (ntp_outcome p t4))"
proof -
  have "shifter (0x23 :: u8) VERSION_MASK VERSION_SHIFT \<noteq> shifter (li_vn_mode p) VERSION_MASK VERSION_SHIFT
      \<longleftrightarrow> li_vn_mode p AND 0x38 \<noteq> 0x20"
    unfolding shifter_version by auto
  then show ?thesis
    unfolding process_response_def p_def [symmetric] Let_def shifter_mode assms(1) ntp_outcome_def
    by (auto simp: shifter_li SNTP_UNICAST_def SNTP_BROADCAST_def)
qed
text \<open>The Unix seconds of an NTP timestamp, also past the end of the first NTP era in 2036.\<close>

lemma ntp_seconds:
  fixes s :: u32 and f :: u32
  defines "v \<equiv> push_bit 32 (ucast (s + NTP_TIMESTAMP_DELTA)) OR ucast f"
  shows "ucast (ts_seconds (ntp_timestamp_from v)) = s" and "ucast (ts_seconds_fraction (ntp_timestamp_from v)) = f"
proof -
  have d: "drop_bit 32 v = ucast (s + NTP_TIMESTAMP_DELTA)"
    unfolding v_def by (rule bit_word_eqI) (auto simp: bit_simps dest: bit_imp_le_length)
  have t: "take_bit 32 v = ucast f"
    unfolding v_def by (rule bit_word_eqI) (auto simp: bit_simps dest: bit_imp_le_length)
  have "(ucast (ucast x - ucast y :: u64) :: u32) = x - y" for x y :: u32
  proof -
    have "(ucast x - ucast y :: u64) = word_of_int (uint x - uint y)" by simp
    then have "(ucast (ucast x - ucast y :: u64) :: u32) = word_of_int (uint x - uint y)"
      by (simp only: ucast_down_wi [where ?'a = 64 and ?'b = 32, simplified is_down, simplified])
    then show ?thesis by simp
  qed
  then show "ucast (ts_seconds (ntp_timestamp_from v)) = s"
    unfolding ntp_timestamp_from_def drop_and_seconds_mask d by simp
  show "ucast (ts_seconds_fraction (ntp_timestamp_from v)) = f"
    unfolding ntp_timestamp_from_def and_frac_mask t by (simp add: bit_eq_iff bit_simps)
qed
lemma process_response_Ok:
  "req_version req = 0x23 \<Longrightarrow> process_response req raw t4 = Ok r \<longleftrightarrow>
     acceptable (originate_timestamp req) (convert_from_network (ntp_packet_from_raw raw)) \<and>
     r = ntp_outcome (convert_from_network (ntp_packet_from_raw raw)) t4"
  by (auto simp: process_response_cases acceptable_def)

lemma div_mod_U32_MAX:
  "f div U32_MAX = (if f = U32_MAX then 1 else 0)" "f mod U32_MAX = (if f = U32_MAX then 0 else f)"
proof -
  have m: "U32_MAX = - 1" by (simp add: U32_MAX_def)
  have "f \<noteq> U32_MAX \<Longrightarrow> f < U32_MAX" unfolding m using word_order.not_eq_extremum [of f] by blast
  then show "f div U32_MAX = (if f = U32_MAX then 1 else 0)" "f mod U32_MAX = (if f = U32_MAX then 0 else f)"
    by (auto simp: U32_MAX_def div_word_less mod_word_less)
qed

text \<open>
  C32. A response is accepted exactly when it echoes the request's timestamp, comes from a
  unicast or broadcast server of version 4 and has a stratum; then the result carries the server's
  Unix time \<open>s\<close>, for every 32-bit \<open>s\<close>, also after the NTP era ends in 2036 (the all-ones fraction
  counts as a full second). Processing never panics, and the leap indicator error is never raised:
  its guard tests a two-bit field against 3.
\<close>

theorem process_response_reports:
  fixes s f :: u32
  assumes "req_version req = 0x23"
    and "tx_timestamp p = push_bit 32 (ucast (s + NTP_TIMESTAMP_DELTA)) OR ucast f"
  shows "case process_response req (raw_from_ntp_packet p) t4 of
      Panic \<Rightarrow> False
    | Err e \<Rightarrow> e \<noteq> IncorrectLeapIndicator \<and> \<not> acceptable (originate_timestamp req) p
    | Ok r \<Rightarrow> acceptable (originate_timestamp req) p \<and>
        res_seconds r = (if f = U32_MAX then s + 1 else s) \<and>
        res_seconds_fraction r = (if f = U32_MAX then 0 else f) \<and> res_stratum r = stratum p"
  unfolding process_response_cases [OF assms(1)] raw_packet_convert
  by (auto simp: acceptable_def ntp_outcome_def ntp_result_new_def assms(2) ntp_seconds
      div_mod_U32_MAX Let_def)

theorem process_response_reports_witness:
  "let p = \<lparr>li_vn_mode = 0x24, stratum = 1, poll = 0, precision = 0xEC, root_delay = 0,
      root_dispersion = 0, ref_id = 0, ref_timestamp = 0, origin_timestamp = 77, recv_timestamp = 0,
      tx_timestamp = push_bit 32 (ucast (2100000000 + NTP_TIMESTAMP_DELTA)) OR ucast (5 :: u32)\<rparr> in
   case process_response \<lparr>originate_timestamp = 77, req_version = 0x23\<rparr> (raw_from_ntp_packet p) 99 of
      Panic \<Rightarrow> False | Err e \<Rightarrow> False | Ok r \<Rightarrow> res_seconds r = 2100000000"
proof -
  let ?p = "\<lparr>li_vn_mode = 0x24, stratum = 1, poll = 0, precision = 0xEC, root_delay = 0,
      root_dispersion = 0, ref_id = 0, ref_timestamp = 0, origin_timestamp = 77, recv_timestamp = 0,
      tx_timestamp = push_bit 32 (ucast (2100000000 + NTP_TIMESTAMP_DELTA)) OR ucast (5 :: u32)\<rparr>"
  let ?x = "process_response \<lparr>originate_timestamp = 77, req_version = 0x23\<rparr> (raw_from_ntp_packet ?p) 99"
  have "acceptable 77 ?p" by (simp add: acceptable_def)
  then show ?thesis
    using process_response_reports [of "\<lparr>originate_timestamp = 77, req_version = 0x23\<rparr>" ?p 2100000000 5 99]
    by (simp add: Let_def U32_MAX_def split: outcome.splits)
qed

text \<open>
  C21. One exchange: the client returns a time exactly when the socket accepted all 48 bytes of
  a version 4 client request stamped with its clock, a reply of 48 bytes arrived from one of the
  addresses of the destination, and that reply is acceptable for this very request; the result
  is then computed from the reply and the clock at its arrival.
\<close>

theorem get_time_accepts:
  "get_time S G addrs dest g w = Some (Ok r, w') \<longleftrightarrow>
    (\<exists>w1 buf src it p.
       send_to S w ([0x23] @ replicate 39 0 @ be_bytes 8 (get_ntp_timestamp G (ts_init G w g))) dest = Some (Ok 48, w1) \<and>
       recv_from S w1 (replicate 48 0) = Some (Ok (buf, 48, src), w') \<and>
       addrs dest = Some it \<and> src \<in> set it \<and>
       p = convert_from_network (ntp_packet_from_raw buf) \<and> acceptable (get_ntp_timestamp G (ts_init G w g)) p \<and>
       r = ntp_outcome p (get_ntp_timestamp G (ts_init G w' g)))"
proof -
  define t1 where "t1 = (\<lambda>w g. get_ntp_timestamp G (ts_init G w g))"
  define req where "req = ntp_packet_new G w g"
  have raw: "raw_from_ntp_packet req = [0x23] @ replicate 39 0 @ be_bytes 8 (t1 w g)"
    unfolding raw_from_ntp_packet_bytes
    by (simp add: req_def ntp_packet_new_def t1_def SNTP_CLIENT_MODE_def SNTP_VERSION_def
        be_bytes_def le_bytes_def eval_nat_numeral)
  have send: "sntp_send_request S G dest g w = Some (Ok q, w1) \<longleftrightarrow>
      send_to S w (raw_from_ntp_packet req) dest = Some (Ok 48, w1) \<and> q = send_request_result_from req" for q w1
    by (auto simp: sntp_send_request_def send_request_def req_def Let_def NTP_PACKET_SIZE_def split: option.splits outcome.splits if_splits)
  have t1: "get_ntp_timestamp G (ts_init G v h) = t1 v h" for v h by (simp add: t1_def)
  have version: "req_version (send_request_result_from req) = 0x23"
    by (simp add: send_request_result_from_def req_def ntp_packet_new_def SNTP_CLIENT_MODE_def SNTP_VERSION_def)
  have orig: "originate_timestamp (send_request_result_from req) = t1 w g"
    by (simp add: send_request_result_from_def req_def ntp_packet_new_def t1_def)
  have recv: "sntp_process_response S G addrs dest g (send_request_result_from req) w1 = Some (Ok r, w') \<longleftrightarrow>
      (\<exists>buf src it p. recv_from S w1 (replicate 48 0) = Some (Ok (buf, 48, src), w') \<and>
       addrs dest = Some it \<and> src \<in> set it \<and>
       p = convert_from_network (ntp_packet_from_raw buf) \<and> acceptable (t1 w g) p \<and>
       r = ntp_outcome p (t1 w' g))" for w1
    by (auto simp: sntp_process_response_def raw_default_def NTP_PACKET_SIZE_def Let_def t1
      process_response_Ok [OF version] orig list_ex_iff split: option.splits outcome.splits if_splits)
  have "get_time S G addrs dest g w = Some (Ok r, w') \<longleftrightarrow> (\<exists>q w1.
      sntp_send_request S G dest g w = Some (Ok q, w1) \<and>
      sntp_process_response S G addrs dest g q w1 = Some (Ok r, w'))"
    by (auto simp: get_time_def split: option.splits outcome.splits)
  then show ?thesis unfolding send recv raw by (auto simp: recv raw t1)
qed

section \<open>The unit tests of the crate\<close>

text \<open>\<open>sntpc_ntp_result_tests\<close> of lib.rs.\<close>

lemma ntp_result_tests:
  "ntp_result_new 0 0 0 0 1 (- 2) = \<lparr>res_seconds = 0, res_seconds_fraction = 0, res_roundtrip = 0, res_offset = 0,
     res_stratum = 1, res_precision = - 2\<rparr>"
  "ntp_result_new 1 2 3 4 5 (- 23) = \<lparr>res_seconds = 1, res_seconds_fraction = 2, res_roundtrip = 3, res_offset = 4,
     res_stratum = 5, res_precision = - 23\<rparr>"
  "ntp_result_new (U32_MAX - 1) U32_MAX 0xFFFFFFFFFFFFFFFF 0x7FFFFFFFFFFFFFFF 1 (- 127) =
     \<lparr>res_seconds = U32_MAX, res_seconds_fraction = 0, res_roundtrip = 0xFFFFFFFFFFFFFFFF, res_offset = 0x7FFFFFFFFFFFFFFF,
      res_stratum = 1, res_precision = - 127\<rparr>"
  "ntp_result_new 0 U32_MAX 0 0 1 (- 19) = \<lparr>res_seconds = 1, res_seconds_fraction = 0, res_roundtrip = 0, res_offset = 0,
     res_stratum = 1, res_precision = - 19\<rparr>"
  by code_simp+

lemma fraction_tests:
  "fraction_to_milliseconds (U32_MAX - 1) = 999" "fraction_to_milliseconds 0 = 0"
  "fraction_to_microseconds (U32_MAX - 1) = 999999" "fraction_to_microseconds 0 = 0"
  "fraction_to_nanoseconds (U32_MAX - 1) = 999999999" "fraction_to_nanoseconds 0 = 0"
  "fraction_to_picoseconds (U32_MAX - 1) = 999999999767" "fraction_to_picoseconds 1 = 232" "fraction_to_picoseconds 0 = 0"
  by code_simp+

end
