(* ===== verification/Ntp_Task.thy ===== *)
theory Ntp_Task
  imports Sntp
begin

text \<open>
  The time task of the controller (tasks/ntp/ntp_process.rs) on top of the SNTP client: its timestamp
  generator, its socket wrapper, the conversion of the result and the update of the real-time clock.
  Calendar arithmetic (\<open>chrono\<close>), the time zone and the UDP socket of the network stack are
  parameters.
\<close>

section \<open>Calendar\<close>

text \<open>\<open>'dt\<close> is \<open>NaiveDateTime\<close> and \<open>'z\<close> a time in the configured zone. \<open>cal_from_local\<close> is
  \<open>TZ.from_local_datetime(..).single()\<close>: None when the local time is ambiguous or does not exist.\<close>

record ('dt, 'z) calendar =
  cal_timestamp :: "'dt \<Rightarrow> i64"
  cal_timestamp_micros :: "'dt \<Rightarrow> i64"
  cal_from_timestamp_opt :: "i64 \<Rightarrow> 'dt option"
  cal_from_local :: "'dt \<Rightarrow> 'z option"
  cal_zone_timestamp :: "'z \<Rightarrow> i64"

datatype ntp_error = Parse

fun ntp_error_text :: "ntp_error \<Rightarrow> string" where "ntp_error_text Parse = ''Parse''"

definition time_try_from_epoch :: "('dt, 'z) calendar \<Rightarrow> i64 \<Rightarrow> (ntp_error, 'z) outcome" where
  "time_try_from_epoch C epoch =
     (case cal_from_timestamp_opt C epoch of
        None \<Rightarrow> Err Parse
      | Some nd \<Rightarrow> (case cal_from_local C nd of None \<Rightarrow> Err Parse | Some z \<Rightarrow> Ok z))"

definition time_try_from_result :: "('dt, 'z) calendar \<Rightarrow> ntp_result \<Rightarrow> (ntp_error, 'z) outcome" where
  "time_try_from_result C r = time_try_from_epoch C (ucast (res_seconds r))"

text \<open>\<open>StdTimestampGen\<close>: \<open>init\<close> does nothing; both accessors read the same stored time.\<close>

definition std_timestamp_gen :: "('dt, 'z) calendar \<Rightarrow> ('w, 'dt) timestamp_generator" where
  "std_timestamp_gen C =
     \<lparr>ts_init = (\<lambda>_ g. g), timestamp_sec = (\<lambda>g. cal_timestamp C g),
      timestamp_subsec_micros = (\<lambda>g. ucast (cal_timestamp_micros C g))\<rparr>"

section \<open>The socket wrapper\<close>

text \<open>The stack's UDP socket: a datagram goes to the bound endpoint; a received one is its bytes, and
  the sender that the wrapper throws away.\<close>

record ('w, 'ep) udp_dev =
  udp_bind :: "u16 \<Rightarrow> 'w \<Rightarrow> bool \<times> 'w"
  udp_send_to :: "bytes \<Rightarrow> 'ep \<Rightarrow> 'w \<Rightarrow> (bool \<times> 'w) option"
  udp_recv_from :: "'w \<Rightarrow> ((bytes \<times> 'ep) option \<times> 'w) option"

record no_std_udp_socket =
  socketaddress :: "bytes \<times> u16"
  endpoint :: "bytes \<times> u16"

definition no_std_bind :: "('w, bytes \<times> u16) udp_dev \<Rightarrow> bytes \<times> u16 \<Rightarrow> 'w \<Rightarrow> (sntp_error, no_std_udp_socket) outcome \<times> 'w" where
  "no_std_bind U ep w =
     (if length (fst ep) \<noteq> 4 then (Err IpDecode, w)
      else let (ok, w') = udp_bind U (snd ep) w in
        (if ok then Ok \<lparr>socketaddress = ep, endpoint = ep\<rparr> else Err NetworkBind, w'))"

text \<open>The destination is ignored and the whole buffer counts as sent; a received datagram that is
  longer than the buffer is an error of the stack.\<close>

definition udp_socket_wrapper :: "('w, bytes \<times> u16) udp_dev \<Rightarrow> no_std_udp_socket \<Rightarrow> ('w, 'd, bytes \<times> u16) ntp_udp_socket" where
  "udp_socket_wrapper U S =
     \<lparr>send_to = (\<lambda>w buf dest. case udp_send_to U buf (endpoint S) w of
          None \<Rightarrow> None
        | Some (ok, w') \<Rightarrow> Some (if ok then Ok (length buf) else Err SendError, w')),
      recv_from = (\<lambda>w buf. case udp_recv_from U w of
          None \<Rightarrow> None
        | Some (None, w') \<Rightarrow> Some (Err ReceiveError, w')
        | Some (Some (d, _), w') \<Rightarrow>
            if length d \<le> length buf
            then Some (Ok (d @ drop (length d) buf, length d, socketaddress S), w')
            else Some (Err ReceiveError, w'))\<rparr>"

section \<open>The task\<close>

text \<open>One update: ask the server, convert, and give the new time of the clock, if there is one. An
  address resolves to itself (\<open>ToSocketAddrs\<close> of \<open>SocketAddr\<close>).\<close>

definition ntp_new_rtc_time :: "('dt, 'z) calendar \<Rightarrow> (sntp_error, ntp_result) outcome \<Rightarrow> 'dt option" where
  "ntp_new_rtc_time C result =
     (case result of
        Ok time \<Rightarrow>
          (case time_try_from_result C time of
             Ok local_time \<Rightarrow> cal_from_timestamp_opt C (cal_zone_timestamp C local_time)
           | _ \<Rightarrow> None)
      | _ \<Rightarrow> None)"

definition ntp_update :: "('dt, 'z) calendar \<Rightarrow> ('w, bytes \<times> u16) udp_dev \<Rightarrow> bytes \<times> u16 \<Rightarrow> 'dt \<Rightarrow> 'w \<Rightarrow>
    ((unit, 'dt option) outcome \<times> 'w) option" where
  "ntp_update C U ep rtc_now w =
     (case no_std_bind U ep w of
        (Ok S, w') \<Rightarrow>
          (case get_time (udp_socket_wrapper U S) (std_timestamp_gen C) (\<lambda>d. Some [d]) (socketaddress S) rtc_now w' of
             None \<Rightarrow> None
           | Some (r, w'') \<Rightarrow> Some (Ok (ntp_new_rtc_time C r), w''))
      | (_, w') \<Rightarrow> Some (Panic, w'))"

text \<open>The start of \<open>ntp_task\<close> up to its loop: with no server configured the clock is left alone; an
  address that does not parse panics, and so does a failed bind. \<open>dt_min\<close> is \<open>NaiveDateTime::MIN\<close>, the
  value used while the clock does not run. The result is the clock.\<close>

definition ntp_task_start :: "('dt, 'z) calendar \<Rightarrow> ('w, bytes \<times> u16) udp_dev \<Rightarrow> (string \<Rightarrow> (bytes \<times> u16) option) \<Rightarrow> 'dt \<Rightarrow>
    string \<Rightarrow> 'dt option \<Rightarrow> 'w \<Rightarrow> ((unit, 'dt option) outcome \<times> 'w) option" where
  "ntp_task_start C U parse dt_min server rtc w =
     (let rtc_now = (case rtc of Some t \<Rightarrow> t | None \<Rightarrow> dt_min) in
      if server = [] then Some (Ok rtc, w)
      else case parse server of
          None \<Rightarrow> Some (Panic, w)
        | Some ep \<Rightarrow>
            (case ntp_update C U ep rtc_now w of
               None \<Rightarrow> None
             | Some (Ok (Some ntp_time), w') \<Rightarrow> Some (Ok (Some ntp_time), w')
             | Some (Ok None, w') \<Rightarrow> Some (Ok rtc, w')
             | Some (_, w') \<Rightarrow> Some (Panic, w')))"

text \<open>The tick of every second: the time is signalled when the clock runs, else the signal stays.\<close>

definition ntp_tick :: "'dt option \<Rightarrow> 'dt option \<Rightarrow> 'dt option" where
  "ntp_tick rtc utc_now = (case rtc of Some now \<Rightarrow> Some now | None \<Rightarrow> utc_now)"

section \<open>What the glue does to the checks of the client\<close>

lemma ntp_same_timestamp:
  "get_ntp_timestamp (std_timestamp_gen C) (ts_init (std_timestamp_gen C) w g) =
   get_ntp_timestamp (std_timestamp_gen C) (ts_init (std_timestamp_gen C) w' g)"
  by (simp add: std_timestamp_gen_def get_ntp_timestamp_def)

text \<open>The wrapper reports its own server as the sender of every datagram, so the address check of the
  client always passes: a reply from anywhere is accepted if it echoes the timestamp. The clock is
  read once, so that the client's two timestamps agree, and the reported round trip is the negated
  processing time of the server, modulo the range of the type.\<close>

theorem ntp_reply_from_anyone:
  "fst (the (sntp_process_response (udp_socket_wrapper U S) (std_timestamp_gen C) (\<lambda>d. Some [d]) (socketaddress S) g req w))
     \<noteq> Err ResponseAddressMismatch \<or>
   sntp_process_response (udp_socket_wrapper U S) (std_timestamp_gen C) (\<lambda>d. Some [d]) (socketaddress S) g req w = None"
  by (auto simp: sntp_process_response_def udp_socket_wrapper_def Let_def process_response_def
      split: option.splits outcome.splits prod.splits if_splits)

text \<open>The clock is only ever replaced by a time that the configured zone has, and any failure after
  the bind keeps the clock as it was.\<close>

theorem ntp_clock_kept:
  assumes "ntp_task_start C U parse dt_min server rtc w = Some (Ok rtc', w')"
  shows "rtc' = rtc \<or> (\<exists>r z. time_try_from_result C r = Ok z \<and> cal_from_timestamp_opt C (cal_zone_timestamp C z) = rtc')"
  using assms
  by (auto simp: ntp_task_start_def ntp_update_def ntp_new_rtc_time_def Let_def
      split: if_splits option.splits outcome.splits prod.splits)

lemma roundtrip_of_equal_stamps:
  "roundtrip_calculate t t2 t3 t u = roundtrip_calculate 0 0 0 (t2 - t3) u"
  by (simp add: roundtrip_calculate_def)

section \<open>What the clock is set to\<close>

text \<open>The configured zone: \<open>offs\<close> gives, for a reading of the local clock (as seconds), the offset to UTC
  that it has there, or None when the reading is skipped or occurs twice at a change of the offset. The local
  reading \<open>s\<close> with the offset \<open>off\<close> is the instant \<open>s - off\<close>.\<close>

definition zone_calendar :: "('dt, 'z) calendar \<Rightarrow> (u32 \<Rightarrow> i64 option) \<Rightarrow> bool" where
  "zone_calendar C offs \<longleftrightarrow>
     (\<forall>sec :: u32. \<exists>d. cal_from_timestamp_opt C (ucast sec) = Some d \<and>
        (case offs sec of
           None \<Rightarrow> cal_from_local C d = None
         | Some off \<Rightarrow> (\<exists>z d'. cal_from_local C d = Some z \<and> cal_zone_timestamp C z = ucast sec - off \<and>
             cal_from_timestamp_opt C (ucast sec - off) = Some d' \<and> cal_timestamp C d' = ucast sec - off)))"

text \<open>
  C22. When the server answers, what the clock is set to, in any zone with any rule for its offset: the seconds
  since the epoch, which are UTC, are taken for a reading of the local clock. Where the local clock is skipped
  or read twice at a change of the offset, the clock is left as it was; otherwise it is set to the time
  of the server minus the offset the zone has at that reading. It is the time of the server, as its name
  \<open>UTC_NOW\<close> in the rest of the program says, exactly when that offset is 0.
\<close>

theorem ntp_clock_offset:
  assumes "zone_calendar C offs" "server \<noteq> []" "parse server = Some ep" "no_std_bind U ep w = (Ok S, w1)"
    and "get_time (udp_socket_wrapper U S) (std_timestamp_gen C) (\<lambda>d. Some [d]) (socketaddress S)
      (case rtc of Some t \<Rightarrow> t | None \<Rightarrow> dt_min) w1 = Some (Ok r, w2)"
  shows "case offs (res_seconds r) of
      None \<Rightarrow> ntp_task_start C U parse dt_min server rtc w = Some (Ok rtc, w2)
    | Some off \<Rightarrow> \<exists>d. ntp_task_start C U parse dt_min server rtc w = Some (Ok (Some d), w2) \<and>
        cal_timestamp C d = ucast (res_seconds r) - off \<and> (cal_timestamp C d = ucast (res_seconds r) \<longleftrightarrow> off = 0)"
proof -
  have go: "ntp_task_start C U parse dt_min server rtc w =
      Some (Ok (case ntp_new_rtc_time C (Ok r) of None \<Rightarrow> rtc | Some d \<Rightarrow> Some d), w2)"
    using assms(2-5) by (simp add: ntp_task_start_def ntp_update_def Let_def split: option.split)
  obtain d where d: "cal_from_timestamp_opt C (ucast (res_seconds r)) = Some d"
      "case offs (res_seconds r) of
           None \<Rightarrow> cal_from_local C d = None
         | Some off \<Rightarrow> (\<exists>z d'. cal_from_local C d = Some z \<and> cal_zone_timestamp C z = ucast (res_seconds r) - off \<and>
             cal_from_timestamp_opt C (ucast (res_seconds r) - off) = Some d' \<and> cal_timestamp C d' = ucast (res_seconds r) - off)"
    using assms(1) unfolding zone_calendar_def by blast
  show ?thesis using d unfolding go
    by (auto simp: ntp_new_rtc_time_def time_try_from_result_def time_try_from_epoch_def split: option.splits)
qed

text \<open>London in 2026: summer time from 29 March to 25 October. The server echoes the request and sends its own time, here
  noon of 1 July and half past one in the night of the change.\<close>

definition london_2026 :: "u32 \<Rightarrow> i64 option" where
  "london_2026 sec =
     (if 1774746000 \<le> sec \<and> sec < 1774749600 \<or> 1792890000 \<le> sec \<and> sec < 1792893600 then None
      else if 1774749600 \<le> sec \<and> sec < 1792890000 then Some 3600 else Some 0)"

definition london_calendar :: "(i64, i64) calendar" where
  "london_calendar = \<lparr>cal_timestamp = (\<lambda>d. d), cal_timestamp_micros = (\<lambda>d. d * 1000000), cal_from_timestamp_opt = Some,
     cal_from_local = (\<lambda>d. case london_2026 (ucast d) of None \<Rightarrow> None | Some off \<Rightarrow> Some (d - off)), cal_zone_timestamp = (\<lambda>z. z)\<rparr>"

definition sample_server :: "bytes \<Rightarrow> (bytes, bytes \<times> u16) udp_dev" where
  "sample_server time = \<lparr>udp_bind = (\<lambda>_ w. (True, w)), udp_send_to = (\<lambda>buf _ w. Some (True, buf)),
     udp_recv_from = (\<lambda>w. Some (Some ([0x24, 1] @ replicate 22 0 @ drop 40 w @ replicate 8 0 @ time @ [0, 0, 0, 0], ([10, 0, 0, 1], 123)), w))\<rparr>"

lemma london_zone: "zone_calendar london_calendar london_2026"
proof -
  have "ucast (ucast (sec :: u32) :: i64) = sec" for sec by (simp add: unsigned_ucast_eq take_bit_word_eq_self)
  then show ?thesis by (simp add: zone_calendar_def london_calendar_def split: option.split)
qed

theorem ntp_clock_offset_witness:
  "(\<exists>d w2. ntp_task_start london_calendar (sample_server [0xed, 0xef, 0x7f, 0xc0]) (\<lambda>_. Some ([10, 0, 0, 1], 123)) 0
       ''10.0.0.1:123'' (Some 7) [] = Some (Ok (Some d), w2) \<and> cal_timestamp london_calendar d = 1782907200 - 3600) \<and>
   (\<exists>w2. ntp_task_start london_calendar (sample_server [0xee, 0x87, 0xda, 0x18]) (\<lambda>_. Some ([10, 0, 0, 1], 123)) 0
       ''10.0.0.1:123'' (Some 7) [] = Some (Ok (Some 7), w2))"
proof -
  let ?S = "\<lparr>socketaddress = ([10, 0, 0, 1], 123), endpoint = ([10, 0, 0, 1], 123)\<rparr>"
  let ?t = "\<lambda>time. get_time (udp_socket_wrapper (sample_server time) ?S) (std_timestamp_gen london_calendar) (\<lambda>d. Some [d]) (socketaddress ?S) 7 []"
  have "case ?t [0xed, 0xef, 0x7f, 0xc0] of Some (Ok r, w) \<Rightarrow> res_seconds r = 1782907200 | _ \<Rightarrow> False" by code_simp
  then obtain r w2 where g: "?t [0xed, 0xef, 0x7f, 0xc0] = Some (Ok r, w2)" "res_seconds r = 1782907200"
    by (auto split: option.splits prod.splits outcome.splits)
  have "case ?t [0xee, 0x87, 0xda, 0x18] of Some (Ok r, w) \<Rightarrow> res_seconds r = 1792891800 | _ \<Rightarrow> False" by code_simp
  then obtain r' w2' where g': "?t [0xee, 0x87, 0xda, 0x18] = Some (Ok r', w2')" "res_seconds r' = 1792891800"
    by (auto split: option.splits prod.splits outcome.splits)
  have b: "no_std_bind (sample_server time) ([10, 0, 0, 1], 123) [] = (Ok ?S, [])" for time
    by (simp add: no_std_bind_def sample_server_def)
  note at = ntp_clock_offset [OF london_zone _ _ b, where server = "''10.0.0.1:123''" and parse = "\<lambda>_. Some ([10, 0, 0, 1], 123)" and
      rtc = "Some 7" and dt_min = 0]
  from at [where r = r and ?w2.0 = w2] at [where r = r' and ?w2.0 = w2'] g g' show ?thesis
    by (simp add: london_2026_def) blast
qed

end
