(* ===== verification/Contactor.thy ===== *)
theory Contactor
  imports Rust_Prelude
begin

text \<open>
  The contactor drivers (\<open>contactor_main_task\<close> and \<open>contactor_both_task\<close> of
  stm32f407_controller/src/bin/tasks/mod.rs). Each task waits for a value of the signal
  \<open>CONTACTOR_STATE\<close>, and its \<open>match (state, active)\<close> drives the PWM channel of the main contactor,
  and the precharge pin in the second task. The body of the match is the list of actions it
  performs on the hardware and the new value of \<open>active\<close>; a run of the task is the fold over the
  signals it receives. The counter period \<open>get_max_duty()\<close> comes from the timer driver and is a
  parameter.
\<close>

section \<open>Hardware\<close>

record contactor_hw =
  pre_pin :: bool
  pwm_on :: bool
  pwm_duty :: u16
  clock_ms :: nat

datatype hw_action = Pwm_enable | Pwm_disable | Pwm_set_duty u16 | Pre_set_high | Pre_set_low
  | Timer_after_ms nat

fun hw_do :: "hw_action \<Rightarrow> contactor_hw \<Rightarrow> contactor_hw" where
  "hw_do Pwm_enable h = h\<lparr>pwm_on := True\<rparr>"
| "hw_do Pwm_disable h = h\<lparr>pwm_on := False\<rparr>"
| "hw_do (Pwm_set_duty d) h = h\<lparr>pwm_duty := d\<rparr>"
| "hw_do Pre_set_high h = h\<lparr>pre_pin := True\<rparr>"
| "hw_do Pre_set_low h = h\<lparr>pre_pin := False\<rparr>"
| "hw_do (Timer_after_ms n) h = h\<lparr>clock_ms := clock_ms h + n\<rparr>"

definition hw_run :: "hw_action list \<Rightarrow> contactor_hw \<Rightarrow> contactor_hw" where
  "hw_run as h = fold hw_do as h"

text \<open>Before the loop: the pin is configured low and the channel is off.\<close>

definition hw_reset :: contactor_hw where
  "hw_reset = \<lparr>pre_pin = False, pwm_on = False, pwm_duty = 0, clock_ms = 0\<rparr>"

section \<open>The two tasks\<close>

definition max_duty :: "u16 \<Rightarrow> u16" where
  "max_duty get_max_duty = get_max_duty - 1"

definition hold_duty :: "u16 \<Rightarrow> u16" where
  "hold_duty m = m div 4 * 3"

fun contactor_main_match :: "u16 \<Rightarrow> bool \<Rightarrow> bool \<Rightarrow> hw_action list \<times> bool" where
  "contactor_main_match m False True = ([Pwm_disable], False)"
| "contactor_main_match m True False =
     ([Pwm_enable, Pwm_set_duty m, Timer_after_ms 100, Pwm_set_duty (hold_duty m)], True)"
| "contactor_main_match m True True = ([], True)"
| "contactor_main_match m False False = ([], False)"

fun contactor_both_match :: "u16 \<Rightarrow> bool \<Rightarrow> bool \<Rightarrow> hw_action list \<times> bool" where
  "contactor_both_match m False True = ([Pwm_disable, Pre_set_low], False)"
| "contactor_both_match m True False =
     ([Pre_set_high, Timer_after_ms 500, Pwm_enable, Pwm_set_duty m, Timer_after_ms 100, Pre_set_low,
       Pwm_set_duty (hold_duty m)], True)"
| "contactor_both_match m True True = ([], True)"
| "contactor_both_match m False False = ([], False)"

text \<open>The loop over the received signals: the actions performed, and \<open>active\<close> afterwards.\<close>

fun contactor_loop :: "(bool \<Rightarrow> bool \<Rightarrow> hw_action list \<times> bool) \<Rightarrow> bool \<Rightarrow> bool list \<Rightarrow> hw_action list \<times> bool" where
  "contactor_loop f active [] = ([], active)"
| "contactor_loop f active (state # rest) =
     (let (as, active') = f state active; (bs, active'') = contactor_loop f active' rest in
      (as @ bs, active''))"

definition contactor_main_task :: "u16 \<Rightarrow> bool list \<Rightarrow> hw_action list \<times> bool" where
  "contactor_main_task get_max_duty signals =
     contactor_loop (contactor_main_match (max_duty get_max_duty)) False signals"

definition contactor_both_task :: "u16 \<Rightarrow> bool list \<Rightarrow> hw_action list \<times> bool" where
  "contactor_both_task get_max_duty signals =
     contactor_loop (contactor_both_match (max_duty get_max_duty)) False signals"

section \<open>The tasks between their waits\<close>

text \<open>The body of the match waits in its timers, and only there, while the other tasks run. The task is
  either at the signal, or in a timer with the rest of the actions still to perform and the
  value of \<open>active\<close> to be set at their end.\<close>

datatype contactor_phase = Awaiting | Timing nat nat "hw_action list" bool

fun until_timer :: "hw_action list \<Rightarrow> contactor_hw \<Rightarrow> contactor_hw \<times> (nat \<times> hw_action list) option" where
  "until_timer [] h = (h, None)"
| "until_timer (Timer_after_ms ms # as) h = (hw_do (Timer_after_ms ms) h, Some (ms, as))"
| "until_timer (a # as) h = until_timer as (hw_do a h)"

text \<open>A poll at the time \<open>now\<close>: the actions up to the next timer, if there is one.\<close>

definition contactor_poll :: "nat \<Rightarrow> hw_action list \<Rightarrow> bool \<Rightarrow> bool \<Rightarrow> contactor_hw \<Rightarrow> contactor_phase \<times> bool \<times> contactor_hw" where
  "contactor_poll now as active' active h =
     (case until_timer as h of
        (h', None) \<Rightarrow> (Awaiting, active', h')
      | (h', Some (ms, rest)) \<Rightarrow> (Timing now ms rest active', active, h'))"

section \<open>What a driver promises\<close>

text \<open>Between two signals the hardware is settled: precharge off, the main channel on exactly when
  the task is active, and then at the hold duty.\<close>

definition settled :: "u16 \<Rightarrow> contactor_hw \<Rightarrow> bool \<Rightarrow> bool" where
  "settled m h active \<longleftrightarrow> \<not> pre_pin h \<and> pwm_on h = active \<and> (active \<longrightarrow> pwm_duty h = hold_duty m)"

lemma hw_run_simps [simp]:
  "hw_run [] h = h" "hw_run (a # as) h = hw_run as (hw_do a h)"
  "hw_run (as @ bs) h = hw_run bs (hw_run as h)"
  by (simp_all add: hw_run_def)

lemma hold_duty_le: "hold_duty m \<le> m"
proof -
  have "unat (m div 4) * 3 \<le> unat m" by (simp add: unat_div)
  moreover have "unat m < 2 ^ 16" using unsigned_less [where 'a = nat and w = m] by simp
  ultimately show ?thesis
    by (simp add: hold_duty_def word_le_nat_alt unat_word_ariths)
qed

text \<open>The polls of a body together perform its actions.\<close>

lemma until_timer_run:
  "until_timer as h = (h', None) \<Longrightarrow> hw_run as h = h'"
  "until_timer as h = (h', Some (ms, rest)) \<Longrightarrow> hw_run rest h' = hw_run as h"
  by (induction as h rule: until_timer.induct) auto

text \<open>A driver obeys the signal from every settled state and leaves the hardware settled.\<close>

locale contactor_driver =
  fixes m :: u16 and respond :: "bool \<Rightarrow> bool \<Rightarrow> hw_action list \<times> bool"
  assumes obeys: "respond state active = (as, active') \<Longrightarrow> active' = state"
    and settles: "respond state active = (as, active') \<Longrightarrow> settled m h active \<Longrightarrow>
      settled m (hw_run as h) active'"
    and holds: "respond state state = (as, active') \<Longrightarrow> as = []"
begin

lemma loop_active: "snd (contactor_loop respond active signals) = (if signals = [] then active else last signals)"
proof (induction signals arbitrary: active)
  case (Cons s rest)
  obtain as b where "respond s active = (as, b)" by (cases "respond s active")
  then show ?case using Cons.IH [of b] obeys [of s active as b]
    by (simp add: split: prod.splits) (metis snd_conv)
qed simp

lemma loop_settles:
  "settled m h active \<Longrightarrow>
   settled m (hw_run (fst (contactor_loop respond active signals)) h) (snd (contactor_loop respond active signals))"
proof (induction signals arbitrary: active h)
  case (Cons s rest)
  obtain as b where r: "respond s active = (as, b)" by (cases "respond s active")
  have "settled m (hw_run as h) b" using settles [OF r Cons.prems] .
  from Cons.IH [OF this] show ?case by (auto simp: r split: prod.splits)
qed simp

lemma loop_follows:
  assumes "settled m h False"
  shows "pwm_on (hw_run (fst (contactor_loop respond False signals)) h) \<longleftrightarrow> signals \<noteq> [] \<and> last signals"
  using loop_settles [OF assms, of signals] loop_active [of False signals]
  by (auto simp: settled_def split: if_splits)

end

interpretation main_driver: contactor_driver m "contactor_main_match m" for m
proof
  fix state active as active' h
  assume r: "contactor_main_match m state active = (as, active')"
  show "active' = state" using r by (cases state; cases active) auto
  show "settled m h active \<Longrightarrow> settled m (hw_run as h) active'"
    using r by (cases state; cases active) (auto simp: settled_def)
next
  fix state as active'
  show "contactor_main_match m state state = (as, active') \<Longrightarrow> as = []" by (cases state) auto
qed

interpretation both_driver: contactor_driver m "contactor_both_match m" for m
proof
  fix state active as active' h
  assume r: "contactor_both_match m state active = (as, active')"
  show "active' = state" using r by (cases state; cases active) auto
  show "settled m h active \<Longrightarrow> settled m (hw_run as h) active'"
    using r by (cases state; cases active) (auto simp: settled_def)
next
  fix state as active'
  show "contactor_both_match m state state = (as, active') \<Longrightarrow> as = []" by (cases state) auto
qed

lemma settled_reset: "settled m hw_reset False"
  by (simp add: settled_def hw_reset_def)

text \<open>
  C1. Both drivers implement a switch that follows the last signal: whatever signals arrived, in
  the end the main contactor is powered exactly when the last one was true, the precharge relay is
  off, and a powered contactor is held at three quarters of the maximal duty, which is below it.
\<close>

theorem contactors_follow_signal:
  "let h = hw_run (fst (contactor_main_task d signals)) hw_reset;
       h' = hw_run (fst (contactor_both_task d signals)) hw_reset;
       closed = (signals \<noteq> [] \<and> last signals) in
   pwm_on h = closed \<and> pwm_on h' = closed \<and> \<not> pre_pin h' \<and>
   (closed \<longrightarrow> pwm_duty h = (d - 1) div 4 * 3 \<and> pwm_duty h' = (d - 1) div 4 * 3 \<and> pwm_duty h' \<le> d - 1)"
  using main_driver.loop_follows [OF settled_reset, of "max_duty d" signals]
    both_driver.loop_follows [OF settled_reset, of "max_duty d" signals]
    main_driver.loop_settles [OF settled_reset, of "max_duty d" signals]
    both_driver.loop_settles [OF settled_reset, of "max_duty d" signals]
    hold_duty_le [of "max_duty d"]
  by (auto simp: Let_def contactor_main_task_def contactor_both_task_def settled_def max_duty_def hold_duty_def)

theorem contactors_follow_signal_witness:
  "pwm_duty (hw_run (fst (contactor_both_task 1000 [True, False, True])) hw_reset) = 747"
  using contactors_follow_signal [of 1000 "[True, False, True]"] by (simp add: Let_def)

section \<open>Precharge before the main contactor\<close>

lemma loop_splits:
  assumes "\<And>s a us vs. fst (f s a) = us @ x # vs \<Longrightarrow> \<exists>us'. us = us' @ pre"
    and "fst (contactor_loop f active signals) = us @ x # vs"
  shows "\<exists>us'. us = us' @ pre"
  using assms(2)
proof (induction signals arbitrary: active us)
  case (Cons s rest)
  obtain as b where r: "f s active = (as, b)" by (cases "f s active")
  obtain bs c where l: "contactor_loop f b rest = (bs, c)" by (cases "contactor_loop f b rest")
  have "as @ bs = us @ x # vs" using Cons.prems by (simp add: r l)
  then consider ws where "us = as @ ws" "bs = ws @ x # vs" | ws where "as = us @ x # ws"
    by (auto simp: append_eq_append_conv2 append_eq_Cons_conv)
  then show ?case
  proof cases
    case 1
    then have "\<exists>us'. ws = us' @ pre" using Cons.IH [of b ws] l by simp
    then show ?thesis using 1 by auto
  next
    case 2
    then show ?thesis using assms(1) [of s active us ws] r by simp
  qed
qed simp

text \<open>
  C2. With the precharge driver, every time the main contactor is switched on the precharge relay
  was switched on just before and 500 ms have passed since; no sequence of signals powers
  the main contactor without it.
\<close>

theorem precharge_before_main:
  assumes "fst (contactor_both_task d signals) = us @ Pwm_enable # vs"
  shows "\<exists>us'. us = us' @ [Pre_set_high, Timer_after_ms 500]"
proof -
  have block: "\<exists>us'. us = us' @ [Pre_set_high, Timer_after_ms 500]"
    if "fst (contactor_both_match m s a) = us @ Pwm_enable # vs" for m s a us vs
    using that by (cases s; cases a) (auto simp: Cons_eq_append_conv append_eq_Cons_conv)
  show ?thesis using loop_splits [OF block assms [unfolded contactor_both_task_def]] .
qed

theorem precharge_before_main_witness:
  "fst (contactor_both_task 1000 [False, True]) =
     [Pre_set_high, Timer_after_ms 500] @
       Pwm_enable # [Pwm_set_duty 999, Timer_after_ms 100, Pre_set_low, Pwm_set_duty 747] \<and>
   (\<exists>us'. [Pre_set_high, Timer_after_ms 500] = us' @ [Pre_set_high, Timer_after_ms 500])"
  using precharge_before_main [of 1000 "[False, True]" "[Pre_set_high, Timer_after_ms 500]"
      "[Pwm_set_duty 999, Timer_after_ms 100, Pre_set_low, Pwm_set_duty 747]"]
  by (simp add: contactor_both_task_def max_duty_def hold_duty_def)

end
