(* ===== verification/Board.thy ===== *)
theory Board
  imports Rust_Prelude
begin

text \<open>
  What the tasks of the controller share (stm32f407_controller/src/bin/statics/mod.rs,
  types/mod.rs and the state part of config/mod.rs): the frame channels between the CAN interfaces
  and the processors, the signals, the battery data and the global state; then the small tasks
  around them: the CAN interface loop (tasks/can_interfaces.rs), the LED task (tasks/leds.rs) and
  the watchdog (wdt/mod.rs).

  A \<open>Signal\<close> holds at most one value, the last one signalled; a \<open>Channel\<close> is a queue. A blocking
  \<open>send\<close> into a full channel suspends the sender until there is room, so that what the receiver sees
  is the queue with the frame appended; \<open>try_send\<close> fails instead. CAN frames, the battery data and
  the clock come from other crates: frames are a type \<open>'f\<close> with the accessors the code uses, the
  battery data a type \<open>'b\<close>, and instants are ticks of a clock with a given frequency.
\<close>

section \<open>Frames and channels\<close>

datatype can_id = Standard u16 | Extended u32

record 'f frame_ops =
  frame_id :: "'f \<Rightarrow> can_id"
  frame_data :: "'f \<Rightarrow> bytes option"
  frame_new :: "can_id \<Rightarrow> bytes \<Rightarrow> 'f option"

definition FRAME_BUFFER :: nat where "FRAME_BUFFER = 10"

definition channel_send :: "'f list \<Rightarrow> 'f \<Rightarrow> 'f list" where
  "channel_send q f = q @ [f]"

text \<open>None: the channel is full and the frame is refused.\<close>

definition channel_try_send :: "'f list \<Rightarrow> 'f \<Rightarrow> 'f list option" where
  "channel_try_send q f = (if length q < FRAME_BUFFER then Some (q @ [f]) else None)"

fun channel_try_receive :: "'f list \<Rightarrow> 'f option \<times> 'f list" where
  "channel_try_receive [] = (None, [])"
| "channel_try_receive (f # q) = (Some f, q)"

section \<open>Global state\<close>

datatype gs_mode = Online | Offline

datatype fault = InvFault | BmsFault | NoFault

record global_state =
  gs_state :: gs_mode
  gs_fault :: fault
  gs_time :: "64 word"

definition global_state_default :: global_state where
  "global_state_default = \<lparr>gs_state = Offline, gs_fault = NoFault, gs_time = 0\<rparr>"

definition set_state :: "gs_mode \<Rightarrow> global_state \<Rightarrow> global_state" where
  "set_state s g = g\<lparr>gs_state := s\<rparr>"

definition set_fault :: "fault \<Rightarrow> global_state \<Rightarrow> global_state" where
  "set_fault f g = g\<lparr>gs_fault := f\<rparr>"

section \<open>LEDs\<close>

datatype led = Led1 | Led2 | Led3

datatype led_command = On led | Off led | Blink led | Toggle led

text \<open>The level of each pin, true for high; the LEDs light at low. \<open>blink\<close> also lists the levels
  it passes through, 100 ms apart.\<close>

type_synonym leds = "led \<Rightarrow> bool"

definition leds_new :: leds where "leds_new = (\<lambda>_. True)"

fun blink_levels :: "bool \<Rightarrow> bool list" where
  "blink_levels high = (if \<not> high then [True] else []) @ [False, True]"

fun process_command :: "led_command \<Rightarrow> leds \<Rightarrow> leds" where
  "process_command (On l) s = s(l := False)"
| "process_command (Off l) s = s(l := True)"
| "process_command (Blink l) s = s(l := last (blink_levels (s l)))"
| "process_command (Toggle l) s = s(l := \<not> s l)"

section \<open>The statics\<close>

record ('b, 'f) board =
  inverter_channel_rx :: "'f list"
  inverter_channel_tx :: "'f list"
  bms_channel_rx :: "'f list"
  bms_channel_tx :: "'f list"
  can_ready :: "bool option"
  last_bms_message :: "nat option"
  wdt :: "bool option"
  contactor_state :: "bool option"
  send_mqtt :: "bool option"
  led_signal :: "led_command option"
  bms :: 'b
  globalstate :: global_state
  mqttfmt :: "'b option"

definition LAST_READING_TIMEOUT_SECS :: nat where "LAST_READING_TIMEOUT_SECS = 10"

text \<open>\<open>Instant::elapsed().as_secs()\<close> rounds down; \<open>hz\<close> is the tick rate of the clock.\<close>

definition elapsed_secs :: "nat \<Rightarrow> nat \<Rightarrow> nat \<Rightarrow> nat" where
  "elapsed_secs hz now time = (now - time) div hz"

text \<open>The features of the build that the tasks test.\<close>

record features =
  tesla_m3 :: bool
  mqtt :: bool

definition signal_mqtt :: "features \<Rightarrow> ('b, 'f) board \<Rightarrow> ('b, 'f) board" where
  "signal_mqtt F B = (if mqtt F then B\<lparr>send_mqtt := Some True\<rparr> else B)"

definition send_inverter_frames :: "'f list \<Rightarrow> ('b, 'f) board \<Rightarrow> ('b, 'f) board" where
  "send_inverter_frames fs B = fold (\<lambda>f B. B\<lparr>inverter_channel_tx := channel_send (inverter_channel_tx B) f\<rparr>) fs B"

lemma send_inverter_frames_append [simp]:
  "send_inverter_frames fs B = B\<lparr>inverter_channel_tx := inverter_channel_tx B @ fs\<rparr>"
  by (induction fs arbitrary: B) (simp_all add: send_inverter_frames_def channel_send_def)

section \<open>The CAN interface\<close>

text \<open>A timer of the executor that was started at \<open>start\<close>, in ticks of the clock.\<close>

definition timer_expired :: "nat \<Rightarrow> nat \<Rightarrow> nat \<Rightarrow> nat \<Rightarrow> bool" where
  "timer_expired hz start ms now \<longleftrightarrow> ms * hz \<le> (now - start) * 1000"

text \<open>Where \<open>can_routine\<close> can wait: in the select on the peripheral and the transmit channel; holding a
  received frame for which the receive channel has no room; after a receive error; and with a frame
  for which the peripheral has no free mailbox. Only in the select does it take a frame of either
  side.\<close>

datatype 'f can_phase = Selecting | Sending 'f | Pausing nat | Writing 'f

datatype 'f can_event = Rx_frame 'f | Rx_error | Tx_frame | Resume

record 'f can_port =
  ch_rx :: "'f list"
  ch_tx :: "'f list"
  bus :: "'f list"
  phase :: "'f can_phase"

text \<open>One poll; None when the task goes on waiting. \<open>Resume\<close> is what the phase waits for: room in the
  channel, the end of the 50 ms, a free mailbox.\<close>

definition can_routine :: "nat \<Rightarrow> nat \<Rightarrow> 'f can_event \<Rightarrow> 'f can_port \<Rightarrow> 'f can_port option" where
  "can_routine hz now e P =
     (case (phase P, e) of
        (Selecting, Rx_frame f) \<Rightarrow>
          Some (if length (ch_rx P) < FRAME_BUFFER then P\<lparr>ch_rx := channel_send (ch_rx P) f\<rparr> else P\<lparr>phase := Sending f\<rparr>)
      | (Selecting, Rx_error) \<Rightarrow> Some (P\<lparr>phase := Pausing now\<rparr>)
      | (Selecting, Tx_frame) \<Rightarrow> (case ch_tx P of [] \<Rightarrow> None | f # q \<Rightarrow> Some (P\<lparr>ch_tx := q, phase := Writing f\<rparr>))
      | (Sending f, Resume) \<Rightarrow>
          if length (ch_rx P) < FRAME_BUFFER then Some (P\<lparr>ch_rx := channel_send (ch_rx P) f, phase := Selecting\<rparr>) else None
      | (Pausing start, Resume) \<Rightarrow> if timer_expired hz start 50 now then Some (P\<lparr>phase := Selecting\<rparr>) else None
      | (Writing f, Resume) \<Rightarrow> Some (P\<lparr>bus := bus P @ [f], phase := Selecting\<rparr>)
      | _ \<Rightarrow> None)"

text \<open>\<open>bms_task\<close> and \<open>inverter_task\<close>: initialise, then rounds, each of which begins by toggling the activity
  LED, so that the end of a round toggles it for the next.\<close>

definition bms_task_init :: "('b, 'f) board \<Rightarrow> ('b, 'f) board" where
  "bms_task_init B = B\<lparr>can_ready := Some True, led_signal := Some (Toggle Led1)\<rparr>"

definition next_round :: "led \<Rightarrow> 'f can_port \<Rightarrow> ('b, 'f) board \<Rightarrow> ('b, 'f) board" where
  "next_round l P B = (if phase P = Selecting then B\<lparr>led_signal := Some (Toggle l)\<rparr> else B)"

definition bms_task_round :: "nat \<Rightarrow> nat \<Rightarrow> 'f can_event \<Rightarrow> ('b, 'f) board \<Rightarrow> 'f can_phase \<times> 'f list \<Rightarrow>
    (('b, 'f) board \<times> 'f can_phase \<times> 'f list) option" where
  "bms_task_round hz now e B = (\<lambda>(ph, out).
     map_option (\<lambda>P. (next_round Led1 P (B\<lparr>bms_channel_rx := ch_rx P, bms_channel_tx := ch_tx P\<rparr>), phase P, bus P))
       (can_routine hz now e \<lparr>ch_rx = bms_channel_rx B, ch_tx = bms_channel_tx B, bus = out, phase = ph\<rparr>))"

text \<open>The inverter side first waits for \<open>CAN_READY\<close>, which consumes the signal; None while the
  signal has not come.\<close>

definition inverter_task_init :: "('b, 'f) board \<Rightarrow> ('b, 'f) board option" where
  "inverter_task_init B =
     (case can_ready B of None \<Rightarrow> None | Some _ \<Rightarrow> Some (B\<lparr>can_ready := None, led_signal := Some (Toggle Led2)\<rparr>))"

definition inverter_task_round :: "nat \<Rightarrow> nat \<Rightarrow> 'f can_event \<Rightarrow> ('b, 'f) board \<Rightarrow> 'f can_phase \<times> 'f list \<Rightarrow>
    (('b, 'f) board \<times> 'f can_phase \<times> 'f list) option" where
  "inverter_task_round hz now e B = (\<lambda>(ph, out).
     map_option (\<lambda>P. (next_round Led2 P (B\<lparr>inverter_channel_rx := ch_rx P, inverter_channel_tx := ch_tx P\<rparr>), phase P, bus P))
       (can_routine hz now e \<lparr>ch_rx = inverter_channel_rx B, ch_tx = inverter_channel_tx B, bus = out, phase = ph\<rparr>))"

text \<open>Frames pass through an interface in order, without loss or duplication: what is on the bus, in
  the mailbox and in the queue is what was sent, and the receive channel, with the frame the
  task holds, grows by the frames read.\<close>

definition outgoing :: "'f can_port \<Rightarrow> 'f list" where
  "outgoing P = bus P @ (case phase P of Writing f \<Rightarrow> [f] | _ \<Rightarrow> []) @ ch_tx P"

definition incoming :: "'f can_port \<Rightarrow> 'f list" where
  "incoming P = ch_rx P @ (case phase P of Sending f \<Rightarrow> [f] | _ \<Rightarrow> [])"

lemma can_routine_fifo: "can_routine hz now e P = Some P' \<Longrightarrow> outgoing P' = outgoing P"
  by (auto simp: can_routine_def outgoing_def split: can_phase.splits can_event.splits list.splits if_splits)

lemma can_routine_rx:
  "can_routine hz now e P = Some P' \<Longrightarrow> incoming P' = incoming P @ (case e of Rx_frame f \<Rightarrow> [f] | _ \<Rightarrow> [])"
  by (auto simp: can_routine_def incoming_def channel_send_def split: can_phase.splits can_event.splits list.splits if_splits)

lemma can_routine_bounds:
  "can_routine hz now e P = Some P' \<Longrightarrow> length (ch_rx P) \<le> FRAME_BUFFER \<Longrightarrow>
   length (ch_rx P') \<le> FRAME_BUFFER \<and> length (ch_tx P') \<le> length (ch_tx P)"
  by (auto simp: can_routine_def channel_send_def split: can_phase.splits can_event.splits list.splits if_splits)

section \<open>The LED task and the watchdog\<close>

text \<open>A round of \<open>led_task\<close>: it waits for a command, which consumes the signal, and executes it. None
  while there is no command.\<close>

definition led_task_step :: "('b, 'f) board \<Rightarrow> leds \<Rightarrow> (('b, 'f) board \<times> leds) option" where
  "led_task_step B s = map_option (\<lambda>c. (B\<lparr>led_signal := None\<rparr>, process_command c s)) (led_signal B)"

text \<open>\<open>init\<close> of wdt/mod.rs: it pets the dog when a true signal arrives; the device resets when the
  last pet is longer ago than the timeout. No build starts this task (theory Startup).\<close>

definition wdt_step :: "nat \<Rightarrow> ('b, 'f) board \<Rightarrow> nat \<Rightarrow> ('b, 'f) board \<times> nat" where
  "wdt_step now B last_pet =
     (case wdt B of None \<Rightarrow> (B, last_pet)
      | Some sig \<Rightarrow> (B\<lparr>wdt := None\<rparr>, if sig then now else last_pet))"

end
