(* ===== verification/Inverter_Tasks.thy ===== *)
theory Inverter_Tasks
  imports Board
begin

text \<open>
  The inverter processors (\<open>inverter_rx\<close> of tasks/can_processors_solax.rs, which also serves
  FoxESS, tasks/can_processors_pylontech.rs, which also serves BYD and GoodWe, and
  tasks/can_processors_pylontech_forceh2.rs). One definition per task is one pass through its
  endless loop: from the frame (or the timer tick) it waits for to its \<open>continue\<close> or its end,
  on the board that the other tasks have left. The protocol crates that parse a request and build
  the replies are parameters, and so is the \<open>valid\<close> flag of the battery data.
\<close>

section \<open>Solax and FoxESS\<close>

text \<open>The errors of the protocol crate that the task tells apart.\<close>

datatype inverter_error = InvalidFrameEncode u16 | BadId u32 | TimeStamp "u8 list" | UnwantedFrame
  | OtherInverterError

record ('i, 'b, 'f) inverter_env =
  ienv_frame :: "'f frame_ops"
  ienv_features :: features
  ienv_hz :: nat
  bms_valid :: "'b \<Rightarrow> bool"
  inverter_parser :: "'i \<Rightarrow> 'f \<Rightarrow> 'b \<Rightarrow> bool \<Rightarrow> (inverter_error + 'f list) \<times> 'i"

record 'i solax_task =
  inverter :: 'i
  initalised :: bool

definition signal_contactor :: "features \<Rightarrow> bool \<Rightarrow> ('b, 'f) board \<Rightarrow> ('b, 'f) board" where
  "signal_contactor F v B = (if tesla_m3 F then B else B\<lparr>contactor_state := Some v\<rparr>)"

text \<open>The tail of the loop, once it is known whether the inverter's request was served.\<close>

definition solax_finish :: "features \<Rightarrow> bool \<Rightarrow> ('b, 'f) board \<Rightarrow> 'i solax_task \<Rightarrow> ('b, 'f) board \<times> 'i solax_task" where
  "solax_finish F inverter_comms_valid B t =
     (let B1 = (if \<not> initalised t
                then B\<lparr>globalstate := set_fault (if inverter_comms_valid then NoFault else InvFault) (globalstate B)\<rparr>
                else B);
          B2 = signal_contactor F (inverter_comms_valid \<and> initalised t) B1 in
      (B2, t\<lparr>initalised := inverter_comms_valid\<rparr>))"

definition solax_respond :: "('i, 'b, 'f) inverter_env \<Rightarrow> ('b, 'f) board \<Rightarrow> 'i solax_task \<Rightarrow> 'f \<Rightarrow> ('b, 'f) board \<times> 'i solax_task" where
  "solax_respond E B t frame =
     (let F = ienv_features E;
          (response, inv') = inverter_parser E (inverter t) frame (bms B) True;
          t' = t\<lparr>inverter := inv'\<rparr> in
      case response of
        Inr frames \<Rightarrow> solax_finish F True (signal_mqtt F (send_inverter_frames frames B)) t'
      | Inl (InvalidFrameEncode i) \<Rightarrow> solax_finish F False B t'
      | Inl (BadId i) \<Rightarrow> solax_finish F False B t'
      | Inl (TimeStamp time) \<Rightarrow> (B, t')
      | Inl UnwantedFrame \<Rightarrow> (B, t')
      | Inl OtherInverterError \<Rightarrow> solax_finish F True B t')"

definition solax_inverter_rx :: "('i, 'b, 'f) inverter_env \<Rightarrow> nat \<Rightarrow> ('b, 'f) board \<Rightarrow> 'i solax_task \<Rightarrow> 'f \<Rightarrow>
    ('b, 'f) board \<times> 'i solax_task" where
  "solax_inverter_rx E now B t frame =
     (let checked =
        (case last_bms_message B of
           Some time \<Rightarrow>
             if elapsed_secs (ienv_hz E) now time > LAST_READING_TIMEOUT_SECS
             then (signal_contactor (ienv_features E) False B, t)
             else solax_respond E B t frame
         | None \<Rightarrow> (signal_contactor (ienv_features E) False B, t)) in
      case frame_id (ienv_frame E) frame of
        Extended i \<Rightarrow> if i \<noteq> 0x1871 then (B, t) else checked
      | Standard _ \<Rightarrow> checked)"

section \<open>PylonTech, BYD and GoodWe\<close>

definition INVERTER_SEND_MS :: nat where "INVERTER_SEND_MS = 1000"

text \<open>The task polls: each pass drops at most one received frame, waits for a second and sends
  all frames of the protocol (\<open>Inverter::iter\<close>). \<open>inverter_comms_valid\<close> is never set to true.\<close>

definition pylontech_inverter_rx :: "('b \<Rightarrow> 'f list) \<Rightarrow> ('i, 'b, 'f) inverter_env \<Rightarrow> nat \<Rightarrow> ('b, 'f) board \<Rightarrow> ('b, 'f) board" where
  "pylontech_inverter_rx iter E now B =
     (let B = B\<lparr>inverter_channel_rx := snd (channel_try_receive (inverter_channel_rx B))\<rparr>;
          inverter_comms_valid = False;
          rest = (if \<not> bms_valid E (bms B) then B
                  else signal_mqtt (ienv_features E)
                         ((send_inverter_frames (iter (bms B)) B)\<lparr>contactor_state := Some inverter_comms_valid\<rparr>)) in
      case last_bms_message B of
        Some time \<Rightarrow>
          if elapsed_secs (ienv_hz E) now time > LAST_READING_TIMEOUT_SECS
          then B\<lparr>contactor_state := Some inverter_comms_valid\<rparr>
          else rest
      | None \<Rightarrow> rest)"

section \<open>PylonTech Force H2\<close>

definition forceh2_inverter_rx :: "('i \<Rightarrow> 'b \<Rightarrow> 'f \<Rightarrow> (unit + 'f list) \<times> 'i) \<Rightarrow> ('i, 'b, 'f) inverter_env \<Rightarrow>
    nat \<Rightarrow> ('b, 'f) board \<Rightarrow> 'i \<Rightarrow> 'f \<Rightarrow> ('b, 'f) board \<times> 'i" where
  "forceh2_inverter_rx parser E now B force frame =
     (if frame_id (ienv_frame E) frame \<noteq> Extended 0x4210 then (B, force)
      else
        let rest =
          (if \<not> bms_valid E (bms B) then (B, force)
           else
             let (r, force') = parser force (bms B) frame;
                 (inverter_comms_valid, B') =
                   (case r of Inr frames \<Rightarrow> (True, send_inverter_frames frames B) | Inl e \<Rightarrow> (False, B)) in
             (signal_mqtt (ienv_features E) (B'\<lparr>contactor_state := Some inverter_comms_valid\<rparr>), force')) in
        case last_bms_message B of
          Some time \<Rightarrow>
            if elapsed_secs (ienv_hz E) now time > LAST_READING_TIMEOUT_SECS
            then (B\<lparr>contactor_state := Some False\<rparr>, force)
            else rest
        | None \<Rightarrow> rest)"

section \<open>When the contactor is closed\<close>

text \<open>A pass of the Solax task either leaves the loop body early (None) or ends with the verdict
  whether the inverter's request was served.\<close>

definition fresh :: "nat \<Rightarrow> nat \<Rightarrow> ('b, 'f) board \<Rightarrow> bool" where
  "fresh hz now B \<longleftrightarrow>
     (\<exists>time. last_bms_message B = Some time \<and> elapsed_secs hz now time \<le> LAST_READING_TIMEOUT_SECS)"

definition solax_verdict :: "('i, 'b, 'f) inverter_env \<Rightarrow> nat \<Rightarrow> ('b, 'f) board \<Rightarrow> 'i solax_task \<Rightarrow> 'f \<Rightarrow> bool option" where
  "solax_verdict E now B t frame =
     (if (\<exists>i. frame_id (ienv_frame E) frame = Extended i \<and> i \<noteq> 0x1871) \<or> \<not> fresh (ienv_hz E) now B then None
      else case fst (inverter_parser E (inverter t) frame (bms B) True) of
        Inr frames \<Rightarrow> Some True
      | Inl OtherInverterError \<Rightarrow> Some True
      | Inl (TimeStamp _) \<Rightarrow> None
      | Inl UnwantedFrame \<Rightarrow> None
      | Inl _ \<Rightarrow> Some False)"

lemma solax_finish_simps:
  "initalised (snd (solax_finish F v B t)) = v"
  "contactor_state (fst (solax_finish F v B t)) =
     (if tesla_m3 F then contactor_state B else Some (v \<and> initalised t))"
  by (auto simp: solax_finish_def signal_contactor_def Let_def)

lemma solax_respond_pass:
  defines "v \<equiv> \<lambda>E B t frame. case fst (inverter_parser E (inverter t) frame (bms B) True) of
        Inr frames \<Rightarrow> Some True
      | Inl OtherInverterError \<Rightarrow> Some True
      | Inl (TimeStamp _) \<Rightarrow> None
      | Inl UnwantedFrame \<Rightarrow> None
      | Inl _ \<Rightarrow> Some False"
  shows "initalised (snd (solax_respond E B t frame)) = (case v E B t frame of None \<Rightarrow> initalised t | Some b \<Rightarrow> b)"
    and "contactor_state (fst (solax_respond E B t frame)) = (case v E B t frame of None \<Rightarrow> contactor_state B
      | Some b \<Rightarrow> if tesla_m3 (ienv_features E) then contactor_state B else Some (b \<and> initalised t))"
  by (auto simp: v_def solax_respond_def Let_def solax_finish_simps signal_mqtt_def
      split: sum.split inverter_error.split prod.split)

lemma solax_pass:
  shows "initalised (snd (solax_inverter_rx E now B t frame)) =
      (case solax_verdict E now B t frame of None \<Rightarrow> initalised t | Some v \<Rightarrow> v)"
    and "contactor_state (fst (solax_inverter_rx E now B t frame)) = Some True \<Longrightarrow> contactor_state B \<noteq> Some True \<Longrightarrow>
      solax_verdict E now B t frame = Some True \<and> initalised t"
  by (auto simp: solax_inverter_rx_def Let_def solax_verdict_def fresh_def solax_respond_pass signal_contactor_def
      split: can_id.splits option.splits if_splits sum.splits inverter_error.splits)

text \<open>Runs: at every pass the other tasks have left some board and the clock some time.\<close>

type_synonym ('b, 'f) pass = "nat \<times> ('b, 'f) board \<times> 'f"

fun solax_run :: "('i, 'b, 'f) inverter_env \<Rightarrow> 'i solax_task \<Rightarrow> ('b, 'f) pass list \<Rightarrow> ('b, 'f) board list" where
  "solax_run E t [] = []"
| "solax_run E t ((now, B, frame) # ps) =
     (let (B', t') = solax_inverter_rx E now B t frame in B' # solax_run E t' ps)"

fun solax_verdicts :: "('i, 'b, 'f) inverter_env \<Rightarrow> 'i solax_task \<Rightarrow> ('b, 'f) pass list \<Rightarrow> bool option list" where
  "solax_verdicts E t [] = []"
| "solax_verdicts E t ((now, B, frame) # ps) =
     solax_verdict E now B t frame # solax_verdicts E (snd (solax_inverter_rx E now B t frame)) ps"

fun latest :: "bool \<Rightarrow> bool option list \<Rightarrow> bool" where
  "latest b [] = b"
| "latest b (None # vs) = latest b vs"
| "latest b (Some v # vs) = latest v vs"

lemma latest_append: "latest b (vs @ ws) = latest (latest b vs) ws"
  by (induction b vs rule: latest.induct) auto

lemma latest_True:
  "latest False vs \<Longrightarrow> \<exists>j < length vs. vs ! j = Some True \<and> (\<forall>k. j < k \<and> k < length vs \<longrightarrow> vs ! k = None)"
proof (induction vs rule: rev_induct)
  case (snoc v vs)
  show ?case
  proof (cases v)
    case None
    then have "latest False vs" using snoc.prems by (simp add: latest_append)
    from snoc.IH [OF this] obtain j where j: "j < length vs" "vs ! j = Some True"
      "\<forall>k. j < k \<and> k < length vs \<longrightarrow> vs ! k = None" by blast
    have "(vs @ [v]) ! k = None" if "j < k" "k < length (vs @ [v])" for k
      using that j(3) None by (cases "k = length vs") (auto simp: nth_append)
    then show ?thesis using j(1,2) by (intro exI [of _ j]) (auto simp: nth_append)
  next
    case (Some b)
    then show ?thesis using snoc.prems by (intro exI [of _ "length vs"]) (auto simp: latest_append)
  qed
qed simp

lemma solax_run_true:
  assumes "i < length ps" "ps ! i = (now, B, frame)" "contactor_state B \<noteq> Some True"
    "contactor_state (solax_run E t ps ! i) = Some True"
  shows "solax_verdicts E t ps ! i = Some True \<and> latest (initalised t) (take i (solax_verdicts E t ps))"
  using assms
proof (induction ps arbitrary: t i)
  case (Cons p ps)
  obtain now' B' f' where p: "p = (now', B', f')" by (cases p)
  let ?t = "snd (solax_inverter_rx E now' B' t f')"
  show ?case
  proof (cases i)
    case 0
    then show ?thesis using Cons.prems p solax_pass(2) [of E now' B' t f'] by (simp split: prod.splits)
  next
    case (Suc k)
    have "solax_verdicts E ?t ps ! k = Some True \<and> latest (initalised ?t) (take k (solax_verdicts E ?t ps))"
      using Cons.prems Suc p by (intro Cons.IH) (auto split: prod.splits)
    then show ?thesis
      using Suc p solax_pass(1) [of E now' B' t f'] by (auto split: option.splits)
  qed
qed simp

lemma length_solax_verdicts [simp]: "length (solax_verdicts E t ps) = length ps"
  by (induction E t ps rule: solax_verdicts.induct) simp_all

lemma solax_verdict_fresh: "solax_verdict E now B t frame = Some v \<Longrightarrow> fresh (ienv_hz E) now B"
  by (auto simp: solax_verdict_def split: if_splits)

lemma solax_verdicts_fresh:
  "i < length ps \<Longrightarrow> ps ! i = (now, B, frame) \<Longrightarrow> solax_verdicts E t ps ! i = Some v \<Longrightarrow> fresh (ienv_hz E) now B"
proof (induction ps arbitrary: i t)
  case (Cons p ps)
  then show ?case by (cases p; cases i) (auto dest: solax_verdict_fresh)
qed simp

lemma solax_true_pass:
  assumes "\<not> initalised t" "i < length ps" "ps ! i = (now, B, frame)" "contactor_state B \<noteq> Some True"
    and "contactor_state (solax_run E t ps ! i) = Some True"
  shows "fresh (ienv_hz E) now B \<and> solax_verdicts E t ps ! i = Some True \<and>
    (\<exists>j < i. solax_verdicts E t ps ! j = Some True \<and>
       (\<forall>k. j < k \<and> k < i \<longrightarrow> solax_verdicts E t ps ! k = None))"
proof -
  note r = solax_run_true [OF assms(2-5)]
  then have "latest False (take i (solax_verdicts E t ps))" using assms(1) by simp
  from latest_True [OF this] obtain j where "j < i" "solax_verdicts E t ps ! j = Some True"
    "\<forall>k. j < k \<and> k < i \<longrightarrow> solax_verdicts E t ps ! k = None"
    using assms(2) by auto
  then show ?thesis using r solax_verdicts_fresh [OF assms(2,3)] by blast
qed

text \<open>The signal of a pass, in every case.\<close>

definition request :: "('i, 'b, 'f) inverter_env \<Rightarrow> 'f \<Rightarrow> bool" where
  "request E frame \<longleftrightarrow> \<not> (\<exists>i. frame_id (ienv_frame E) frame = Extended i \<and> i \<noteq> 0x1871)"

lemma solax_pass_signal:
  assumes "\<not> tesla_m3 (ienv_features E)"
  shows "contactor_state (fst (solax_inverter_rx E now B t frame)) =
    (case solax_verdict E now B t frame of
       Some v \<Rightarrow> Some (v \<and> initalised t)
     | None \<Rightarrow> if request E frame \<and> \<not> fresh (ienv_hz E) now B then Some False else contactor_state B)"
  using assms
  by (auto simp: solax_inverter_rx_def Let_def solax_verdict_def fresh_def request_def solax_respond_pass signal_contactor_def
      split: can_id.splits option.splits if_splits sum.splits inverter_error.splits)

lemma solax_run_signal:
  assumes "i < length ps" "ps ! i = (now, B, frame)" "\<not> tesla_m3 (ienv_features E)"
  shows "contactor_state (solax_run E t ps ! i) =
    (case solax_verdicts E t ps ! i of
       Some v \<Rightarrow> Some (v \<and> latest (initalised t) (take i (solax_verdicts E t ps)))
     | None \<Rightarrow> if request E frame \<and> \<not> fresh (ienv_hz E) now B then Some False else contactor_state B)"
  using assms(1,2)
proof (induction ps arbitrary: t i)
  case (Cons p ps)
  obtain now' B' f' where p: "p = (now', B', f')" by (cases p)
  let ?t = "snd (solax_inverter_rx E now' B' t f')"
  show ?case
  proof (cases i)
    case 0
    then show ?thesis using Cons.prems p solax_pass_signal [OF assms(3), of now' B' t f'] by (auto split: prod.splits option.splits)
  next
    case (Suc k)
    then have "latest (initalised ?t) (take k (solax_verdicts E ?t ps)) = latest (initalised t) (take i (solax_verdicts E t (p # ps)))"
      using p solax_pass(1) [of E now' B' t f'] by (auto split: option.splits)
    moreover have "solax_run E t (p # ps) ! i = solax_run E ?t ps ! k" "solax_verdicts E t (p # ps) ! i = solax_verdicts E ?t ps ! k"
      using Suc p by (simp_all split: prod.splits)
    moreover have "k < length ps" "ps ! k = (now, B, frame)" using Cons.prems Suc by simp_all
    note Cons.IH [OF this, of ?t]
    ultimately show ?thesis by (simp only:)
  qed
qed simp

lemma latest_iff:
  "latest False vs \<longleftrightarrow> (\<exists>j < length vs. vs ! j = Some True \<and> (\<forall>k. j < k \<and> k < length vs \<longrightarrow> vs ! k \<noteq> Some False))"
proof
  assume "latest False vs"
  from latest_True [OF this] show "\<exists>j < length vs. vs ! j = Some True \<and> (\<forall>k. j < k \<and> k < length vs \<longrightarrow> vs ! k \<noteq> Some False)" by force
next
  assume "\<exists>j < length vs. vs ! j = Some True \<and> (\<forall>k. j < k \<and> k < length vs \<longrightarrow> vs ! k \<noteq> Some False)"
  then show "latest False vs"
  proof (induction vs rule: rev_induct)
    case (snoc v vs)
    then obtain j where j: "j < length (vs @ [v])" "(vs @ [v]) ! j = Some True"
        "\<forall>k. j < k \<and> k < length (vs @ [v]) \<longrightarrow> (vs @ [v]) ! k \<noteq> Some False" by blast
    show ?case
    proof (cases "j < length vs")
      case True
      have "vs ! k \<noteq> Some False" if "j < k" "k < length vs" for k using j(3) [rule_format, of k] that by (simp add: nth_append)
      then have "latest False vs" using snoc.IH True j(2) by (auto simp: nth_append)
      moreover have "v \<noteq> Some False" using j(3) [rule_format, of "length vs"] True by simp
      ultimately show ?thesis by (cases v) (auto simp: latest_append)
    next
      case False
      then show ?thesis using j(1,2) by (auto simp: nth_append latest_append less_Suc_eq)
    qed
  qed simp
qed

text \<open>
  C17. What every pass of the Solax task signals, over any run from its start and with any interference of
  the other tasks in between. A request that is judged on fresh data is answered by true exactly when it is
  served and an earlier one was, with no request judged and failed since (the comment
  \<open>waits for 2 positive results before activating contactor\<close>). A request on stale data is answered by
  false, but it is not counted: the requests served before and after it still make two. Frames
  that are not a request, time stamps and unwanted frames signal nothing.
\<close>

theorem solax_signals_exactly:
  assumes "\<not> initalised t" "\<not> tesla_m3 (ienv_features E)" "i < length ps" "ps ! i = (now, B, frame)"
  shows "contactor_state (solax_run E t ps ! i) =
    (let vs = solax_verdicts E t ps in
     case vs ! i of
       Some v \<Rightarrow> Some (v \<and> (\<exists>j < i. vs ! j = Some True \<and> (\<forall>k. j < k \<and> k < i \<longrightarrow> vs ! k \<noteq> Some False)))
     | None \<Rightarrow> if request E frame \<and> \<not> fresh (ienv_hz E) now B then Some False else contactor_state B)"
  using solax_run_signal [OF assms(3,4,2), of t] latest_iff [of "take i (solax_verdicts E t ps)"] assms(1,3)
  by (auto simp: Let_def split: option.split)

text \<open>An inverter that is always served, on a board with a battery message of second 100.\<close>

definition sample_env :: "(unit, bool, u32) inverter_env" where
  "sample_env = \<lparr>ienv_frame = \<lparr>frame_id = Extended, frame_data = (\<lambda>_. Some []), frame_new = (\<lambda>_ _. None)\<rparr>,
     ienv_features = \<lparr>tesla_m3 = False, mqtt = True\<rparr>, ienv_hz = 1, bms_valid = (\<lambda>b. b),
     inverter_parser = (\<lambda>s f b x. (Inr [f], s))\<rparr>"

definition sample_board :: "(bool, u32) board" where
  "sample_board = \<lparr>inverter_channel_rx = [], inverter_channel_tx = [], bms_channel_rx = [], bms_channel_tx = [],
     can_ready = None, last_bms_message = Some 100, wdt = None, contactor_state = None, send_mqtt = None,
     led_signal = None, bms = False, globalstate = global_state_default, mqttfmt = None\<rparr>"

text \<open>A refusal on stale data between two served requests: the second closes.\<close>

theorem solax_signals_exactly_witness:
  "let t = \<lparr>inverter = (), initalised = False\<rparr>;
       ps = [(101, sample_board, 0x1871), (150, sample_board, 0x1871), (200, sample_board\<lparr>last_bms_message := Some 199\<rparr>, 0x1871)] in
   contactor_state (solax_run sample_env t ps ! 1) = Some False \<and> contactor_state (solax_run sample_env t ps ! 2) = Some True"
proof -
  let ?t = "\<lparr>inverter = (), initalised = False\<rparr>"
  let ?B = "sample_board\<lparr>last_bms_message := Some 199\<rparr>"
  let ?ps = "[(101, sample_board, 0x1871), (150, sample_board, 0x1871), (200, ?B, 0x1871)]"
  have vs: "solax_verdicts sample_env ?t ?ps = [Some True, None, Some True]"
    by (simp add: solax_verdict_def fresh_def sample_env_def sample_board_def elapsed_secs_def LAST_READING_TIMEOUT_SECS_def)
  have e: "\<not> initalised ?t" "\<not> tesla_m3 (ienv_features sample_env)" by (simp_all add: sample_env_def)
  have "contactor_state (solax_run sample_env ?t ?ps ! 1) = Some False"
    using solax_signals_exactly [OF e, of 1 ?ps 150 sample_board "0x1871"] vs
    by (simp add: request_def fresh_def sample_env_def sample_board_def elapsed_secs_def LAST_READING_TIMEOUT_SECS_def)
  moreover have "contactor_state (solax_run sample_env ?t ?ps ! 2) = Some True"
    using solax_signals_exactly [OF e, of 2 ?ps 200 ?B "0x1871"] vs
    by (auto simp: intro!: exI [of _ 0] dest: less_2_cases)
  ultimately show ?thesis by (simp add: Let_def)
qed

text \<open>
  The other inverter tasks. The PylonTech family never asks for the contactor to be closed: each
  pass signals false or nothing. Force H2 asks for it exactly when the request carries the right
  identifier, the battery data is flagged valid, its last message is not too old (or none was
  ever seen) and the request was served. In both, invalid data stops the replies but signals
  nothing, so that a closed contactor stays closed.
\<close>

theorem pylontech_contactor:
  "contactor_state (pylontech_inverter_rx iter E now B) \<in> {contactor_state B, Some False} \<and>
   (contactor_state B \<noteq> Some True \<longrightarrow>
     (contactor_state (fst (forceh2_inverter_rx parser E now B force frame)) = Some True \<longleftrightarrow>
       frame_id (ienv_frame E) frame = Extended 0x4210 \<and> bms_valid E (bms B) \<and>
       (last_bms_message B = None \<or> fresh (ienv_hz E) now B) \<and>
       (\<exists>fs. fst (parser force (bms B) frame) = Inr fs))) \<and>
   (\<not> bms_valid E (bms B) \<and> (last_bms_message B = None \<or> fresh (ienv_hz E) now B) \<longrightarrow>
     contactor_state (pylontech_inverter_rx iter E now B) = contactor_state B \<and>
     forceh2_inverter_rx parser E now B force frame = (B, force))"
  by (auto simp: pylontech_inverter_rx_def forceh2_inverter_rx_def fresh_def Let_def signal_mqtt_def
      split: option.splits if_splits sum.splits prod.splits)

theorem pylontech_contactor_witness:
  "contactor_state (fst (forceh2_inverter_rx (\<lambda>s b f. (Inr [f], s)) (sample_env\<lparr>bms_valid := (\<lambda>_. True)\<rparr>)
     103 sample_board () 0x4210)) = Some True"
  using pylontech_contactor [of "\<lambda>_. []" "sample_env\<lparr>bms_valid := (\<lambda>_. True)\<rparr>" 103 sample_board
      "\<lambda>s b f. (Inr [f], s)" "()" "0x4210"]
  by (simp add: sample_env_def sample_board_def fresh_def elapsed_secs_def LAST_READING_TIMEOUT_SECS_def)

end
