(* ===== verification/Bms_Tasks.thy ===== *)
theory Bms_Tasks
  imports Board
begin

text \<open>
  The battery processors (tasks/can_processors_ze50.rs, can_processors_ze40.rs and
  can_processors_tesla_m3.rs): the periodic requests to the battery and the passes of \<open>bms_rx\<close> that
  decode its frames and update the shared battery data, the watchdog and the time of the last
  battery message.

  The decoders of the battery crates and the setters of \<open>bms_standard\<close> are parameters. A setter
  returns the data it leaves and whether it accepted the value; the code chains them with \<open>?\<close>.
  Floating-point values are an opaque type \<open>'v\<close> that is only passed on.
\<close>

section \<open>Chains of setters\<close>

type_synonym 'b setter = "'b \<Rightarrow> bool \<times> 'b"

record ('v, 'b) bms_ops =
  set_valid :: "bool \<Rightarrow> 'b setter"
  set_soc :: "'v \<Rightarrow> 'b setter"
  set_cell_mv_low_high :: "u16 \<Rightarrow> u16 \<Rightarrow> 'b setter"
  set_cell_mv :: "u16 list \<Rightarrow> 'b setter"
  set_pack_volts :: "'v \<Rightarrow> 'b setter"
  set_current :: "'v \<Rightarrow> 'b setter"
  set_temps :: "'v \<Rightarrow> 'v \<Rightarrow> 'b setter"
  set_kwh :: "'v \<Rightarrow> 'b setter"
  set_max_charge_amps :: "'v \<Rightarrow> 'b setter"
  set_max_discharge_amps :: "'v \<Rightarrow> 'b setter"
  set_pack_temp :: "'v \<Rightarrow> 'b setter"
  throttle_pack :: "'b setter"
  charge_limit_max :: "'b \<Rightarrow> 'v"
  put_bal_cells :: "bool list \<Rightarrow> 'b \<Rightarrow> 'b"
  put_cell_range_mv :: "u16 \<times> u16 \<Rightarrow> 'b \<Rightarrow> 'b"
  put_pack_volts :: "'v \<Rightarrow> 'b \<Rightarrow> 'b"
  put_discharge_max :: "'v \<Rightarrow> 'b \<Rightarrow> 'b"
  valid :: "'b \<Rightarrow> bool"

fun chain :: "'b setter list \<Rightarrow> 'b setter" where
  "chain [] b = (True, b)"
| "chain (f # fs) b = (case f b of (True, b') \<Rightarrow> chain fs b' | (False, b') \<Rightarrow> (False, b'))"

definition push_all_to_mqtt :: "features \<Rightarrow> bool \<Rightarrow> ('b, 'f) board \<Rightarrow> ('b, 'f) board" where
  "push_all_to_mqtt F try_lock B = (if mqtt F \<and> try_lock then B\<lparr>mqttfmt := Some (bms B)\<rparr> else B)"

text \<open>The sender closure of the periodic tasks: a full queue drops the frame.\<close>

definition try_send_bms :: "'f \<Rightarrow> ('b, 'f) board \<Rightarrow> ('b, 'f) board" where
  "try_send_bms f B =
     (case channel_try_send (bms_channel_tx B) f of None \<Rightarrow> B | Some q \<Rightarrow> B\<lparr>bms_channel_tx := q\<rparr>)"

section \<open>Renault ZE50\<close>

record 'v ze50_data =
  ze50_soc_value :: 'v
  v_low_cell :: u16
  v_high_cell :: u16
  ze50_pack_volts :: 'v
  ze50_current_value :: 'v
  temp_min :: 'v
  temp_max :: 'v
  ze50_kwh_remaining :: 'v
  ze50_pack_temp :: 'v
  req_code :: u8

text \<open>\<open>soc\<close> is the value of the data, or with the feature \<open>v65\<close> the one computed from the cell
  voltage.\<close>

definition ze50_setters :: "('v, 'b) bms_ops \<Rightarrow> 'v \<Rightarrow> 'v \<Rightarrow> 'v ze50_data \<Rightarrow> 'b setter list" where
  "ze50_setters Bo soc max_charge_amps data =
     [set_valid Bo False, set_soc Bo soc,
      set_cell_mv_low_high Bo (v_low_cell data) (v_high_cell data),
      set_pack_volts Bo (ze50_pack_volts data), set_current Bo (ze50_current_value data),
      set_temps Bo (temp_min data) (temp_max data), set_kwh Bo (ze50_kwh_remaining data),
      set_max_charge_amps Bo max_charge_amps, set_pack_temp Bo (ze50_pack_temp data),
      throttle_pack Bo, set_valid Bo True]"

definition ze50_update :: "('v, 'b) bms_ops \<Rightarrow> features \<Rightarrow> bool \<Rightarrow> 'v \<Rightarrow> 'v ze50_data \<Rightarrow> nat \<Rightarrow> ('b, 'f) board \<Rightarrow> ('b, 'f) board" where
  "ze50_update Bo F try_lock soc data now B =
     (let B = B\<lparr>wdt := Some True, last_bms_message := Some now\<rparr>;
          max_charge_amps = charge_limit_max Bo (bms B) in
      case chain (ze50_setters Bo soc max_charge_amps data) (bms B) of
        (True, b) \<Rightarrow> push_all_to_mqtt F try_lock (B\<lparr>bms := b\<rparr>)
      | (False, b) \<Rightarrow> B\<lparr>bms := b\<rparr>)"

datatype ze50_tick = Preamble_tick | Request_tick

definition ze50_pid_id :: "u8 \<Rightarrow> u8" where
  "ze50_pid_id pid = (if pid = 0x5d then 0x92 else if pid = 0xc8 then 0x91 else 0x90)"

text \<open>The start of \<open>bms_tx_periodic\<close>: one frame per payload of \<open>init_payloads\<close>.\<close>

fun ze50_tx_init :: "'f frame_ops \<Rightarrow> bytes list \<Rightarrow> ('b, 'f) board \<Rightarrow> ('b, 'f) board option" where
  "ze50_tx_init Fr [] B = Some B"
| "ze50_tx_init Fr (payload # ps) B =
     (case frame_new Fr (Standard 0x373) payload of
        None \<Rightarrow> None
      | Some f \<Rightarrow> ze50_tx_init Fr ps (try_send_bms f B))"

text \<open>One round of the loop of \<open>bms_tx_periodic\<close>: the frame it builds, the next value of
  \<open>preamble_frame_number_1\<close>, and the board; None where \<open>Frame::new(..).unwrap()\<close> panics.\<close>

definition ze50_tx_round :: "'f frame_ops \<Rightarrow> ('v, 'b) bms_ops \<Rightarrow> features \<Rightarrow> bool \<Rightarrow> ('v ze50_data \<Rightarrow> 'v) \<Rightarrow>
    bytes \<times> bytes \<Rightarrow> ze50_tick \<Rightarrow> 'v ze50_data \<Rightarrow> nat \<Rightarrow> bool \<Rightarrow> ('b, 'f) board \<Rightarrow> (bool \<times> ('b, 'f) board) option" where
  "ze50_tx_round Fr Bo F try_lock soc preambles tick data now first B =
     (case tick of
        Preamble_tick \<Rightarrow>
          map_option (\<lambda>f. (\<not> first, try_send_bms f B))
            (frame_new Fr (Standard 0x373) (if first then fst preambles else snd preambles))
      | Request_tick \<Rightarrow>
          let pid = req_code data;
              B = (if pid = 1 then ze50_update Bo F try_lock (soc data) data now B else B) in
          map_option (\<lambda>f. (first, try_send_bms f B))
            (frame_new Fr (Extended 0x18DADBF1)
               [0x03, 0x22, ze50_pid_id pid, pid, 0xff, 0xff, 0xff, 0xff]))"

text \<open>\<open>process\<close> is \<open>Data::process_payload\<close>; its first component says whether it succeeded.\<close>

definition ze50_bms_rx :: "'f frame_ops \<Rightarrow> (bytes \<Rightarrow> 'd \<Rightarrow> bool \<times> 'd) \<Rightarrow> nat \<Rightarrow> 'f \<Rightarrow> 'd \<Rightarrow> ('b, 'f) board \<Rightarrow> 'd \<times> ('b, 'f) board" where
  "ze50_bms_rx Fr process now frame data B =
     (case frame_id Fr frame of
        Extended i \<Rightarrow>
          if i = NOT 0x18DAF1DB then (data, B)
          else (case frame_data Fr frame of
              None \<Rightarrow> (data, B)
            | Some payload \<Rightarrow>
                let (ok, data') = process payload data in
                (data', if ok then B\<lparr>last_bms_message := Some now\<rparr> else B))
      | Standard _ \<Rightarrow> (data, B))"

section \<open>Renault ZE40\<close>

datatype lbc_key = X5d | Xb2

text \<open>The preamble counter and key of \<open>bms_tx_periodic\<close>.\<close>

definition ze40_preamble :: "nat \<Rightarrow> nat \<times> lbc_key" where
  "ze40_preamble counter =
     (let counter = counter + 1 in
      if 1 \<le> counter \<and> counter \<le> 5 then (counter, X5d)
      else if 6 \<le> counter \<and> counter \<le> 9 then (counter, Xb2)
      else (0, Xb2))"

text \<open>One round; \<open>request_frame\<close> and \<open>request_tx_frame\<close> of the battery crate give the frames.\<close>

definition ze40_tx_round :: "(lbc_key option \<Rightarrow> 'f option) \<Rightarrow> 'f option \<Rightarrow> bool \<Rightarrow> nat \<times> lbc_key option \<Rightarrow> ('b, 'f) board \<Rightarrow>
    ((nat \<times> lbc_key option) \<times> ('b, 'f) board) option" where
  "ze40_tx_round request_frame cell_bank_1 preamble_tick st B =
     (let (counter, key) = st in
      if preamble_tick then
        map_option (\<lambda>f. let (c, k) = ze40_preamble counter in ((c, Some k), try_send_bms f B)) (request_frame key)
      else map_option (\<lambda>f. (st, try_send_bms f B)) cell_bank_1)"

text \<open>\<open>x445_signal\<close>: the counters \<open>faa\<close> and \<open>f55\<close> and the key it signals, if any; a frame with
  fewer than three bytes panics at \<open>data[2]\<close>.\<close>

definition x445_signal :: "bytes option \<Rightarrow> u8 \<times> u8 \<Rightarrow> (unit, (u8 \<times> u8) \<times> lbc_key option) outcome" where
  "x445_signal frame_data_opt st =
     (let (faa, f55) = st in
      case frame_data_opt of
        None \<Rightarrow> Ok (st, None)
      | Some data \<Rightarrow>
          (case index data 2 of
             None \<Rightarrow> Panic
           | Some lbc \<Rightarrow>
               if lbc = 0xaa then
                 (let f55 = 0; faa = faa + 1 in
                  if faa = 4 then Ok ((0, f55), Some X5d) else Ok ((faa, f55), None))
               else
                 (let faa = 0; f55 = f55 + 1 in
                  if f55 = 4 then Ok ((faa, 0), Some Xb2) else Ok ((faa, f55), None))))"

record 'v ze40_data =
  current_value :: 'v
  soc_value :: 'v
  kwh_remaining :: 'v
  pack_temp :: 'v
  bal_cells :: "bool list"
  cell_mv :: "u16 \<times> u16"
  cells_mv :: "u16 list"
  pack_volts :: 'v
  temp :: "'v \<times> 'v"
  max_charge_amps :: 'v

definition ze40_rapid_setters :: "('v, 'b) bms_ops \<Rightarrow> 'v ze40_data \<Rightarrow> 'b setter list" where
  "ze40_rapid_setters Bo data =
     [set_valid Bo False, set_current Bo (current_value data), set_soc Bo (soc_value data),
      set_kwh Bo (kwh_remaining data), set_pack_temp Bo (pack_temp data), set_valid Bo True]"

definition ze40_diag_setters :: "('v, 'b) bms_ops \<Rightarrow> 'v \<Rightarrow> 'v ze40_data \<Rightarrow> 'b setter list" where
  "ze40_diag_setters Bo v35 data =
     [set_valid Bo False, set_max_discharge_amps Bo v35, set_cell_mv Bo (cells_mv data),
      set_pack_volts Bo (pack_volts data), set_temps Bo (fst (temp data)) (snd (temp data)),
      set_max_charge_amps Bo (max_charge_amps data), throttle_pack Bo, set_valid Bo True]"

definition ze40_rapid_update :: "('v, 'b) bms_ops \<Rightarrow> 'v ze40_data \<Rightarrow> nat \<Rightarrow> ('b, 'f) board \<Rightarrow> ('b, 'f) board" where
  "ze40_rapid_update Bo data now B =
     (let B = B\<lparr>last_bms_message := Some now, wdt := Some True\<rparr> in
      B\<lparr>bms := snd (chain (ze40_rapid_setters Bo data) (bms B))\<rparr>)"

text \<open>\<open>v35\<close> is the discharge limit 35.0 that the code writes twice.\<close>

definition ze40_diag_update :: "('v, 'b) bms_ops \<Rightarrow> features \<Rightarrow> bool \<Rightarrow> 'v \<Rightarrow> 'v ze40_data \<Rightarrow> nat \<Rightarrow> ('b, 'f) board \<Rightarrow> ('b, 'f) board" where
  "ze40_diag_update Bo F try_lock v35 data now B =
     (let B = B\<lparr>wdt := Some True, last_bms_message := Some now\<rparr>;
          b = put_pack_volts Bo (pack_volts data) (put_cell_range_mv Bo (cell_mv data) (put_bal_cells Bo (bal_cells data) (bms B))) in
      case chain (ze40_diag_setters Bo v35 data) b of
        (True, b) \<Rightarrow> push_all_to_mqtt F try_lock (B\<lparr>bms := put_discharge_max Bo v35 b\<rparr>)
      | (False, b) \<Rightarrow> B\<lparr>bms := b\<rparr>)"

text \<open>The results of the decoders: \<open>rapid_data_processor\<close> says whether the inverter data is
  complete, \<open>diag_data_processor\<close> gives the next request or None at the end.\<close>

record ('v, 'f) ze40_decoders =
  rapid_data_processor :: "'f \<Rightarrow> 'v ze40_data \<Rightarrow> bool option \<times> 'v ze40_data"
  diag_data_processor :: "'f \<Rightarrow> 'v ze40_data \<Rightarrow> 'f option option \<times> 'v ze40_data"

record 'v ze40_task =
  ze40_data_of :: "'v ze40_data"
  counters :: "u8 \<times> u8"
  lbc_status :: "lbc_key option"

definition ze40_ids :: "u16 list" where
  "ze40_ids = [0x155, 0x424, 0x425, 0x4ae, 0x7bb, 0x445]"

definition ze40_bms_rx :: "'f frame_ops \<Rightarrow> ('v, 'b) bms_ops \<Rightarrow> ('v, 'f) ze40_decoders \<Rightarrow> features \<Rightarrow> bool \<Rightarrow> 'v \<Rightarrow> nat \<Rightarrow>
    'f \<Rightarrow> 'v ze40_task \<Rightarrow> ('b, 'f) board \<Rightarrow> (unit, 'v ze40_task \<times> ('b, 'f) board) outcome" where
  "ze40_bms_rx Fr Bo D F try_lock v35 now frame t B =
     (case frame_id Fr frame of
        Extended _ \<Rightarrow> Ok (t, B)
      | Standard i \<Rightarrow>
          if i \<notin> set ze40_ids then Ok (t, B)
          else if i = 0x445 then
            bind_outcome (x445_signal (frame_data Fr frame) (counters t))
              (\<lambda>(c, k). Ok (t\<lparr>counters := c, lbc_status := (case k of None \<Rightarrow> lbc_status t | Some _ \<Rightarrow> k)\<rparr>, B))
          else if i \<noteq> 1979 then
            (let (r, d) = rapid_data_processor D frame (ze40_data_of t); t' = t\<lparr>ze40_data_of := d\<rparr> in
             case r of
               None \<Rightarrow> Ok (t', B)
             | Some update_inverter \<Rightarrow> Ok (t', if update_inverter then ze40_rapid_update Bo d now B else B))
          else
            (let (r, d) = diag_data_processor D frame (ze40_data_of t); t' = t\<lparr>ze40_data_of := d\<rparr> in
             case r of
               Some None \<Rightarrow> Ok (t', ze40_diag_update Bo F try_lock v35 d now B)
             | Some (Some next_tx_frame) \<Rightarrow> Ok (t', B\<lparr>bms_channel_tx := channel_send (bms_channel_tx B) next_tx_frame\<rparr>)
             | None \<Rightarrow> Ok (t', B)))"

section \<open>Tesla Model 3\<close>

datatype contactor_command = Cmd_Open | Cmd_Precharge | Cmd_Close | Cmd_Unimplemented

text \<open>What \<open>bms_rx\<close> reads of the decoded data.\<close>

record tesla_view =
  economized_unknown6 :: bool
  contactor_open :: bool

definition tesla_frames :: "bytes list" where
  "tesla_frames =
     [[0x41, 0x01, 0x05, 0x00, 0x00, 0x00, 0x00, 0x6A],
      [0x41, 0x01, 0x05, 0x00, 0x00, 0x00, 0x40, 0xAA],
      [0x40, 0x41, 0x05, 0x0F, 0x00, 0x50, 0x51, 0x5F],
      [0x41, 0x01, 0x05, 0x00, 0x00, 0x00, 0x80, 0xEA],
      [0x40, 0x41, 0x05, 0x0F, 0x00, 0x50, 0x91, 0x9F],
      [0x40, 0x41, 0x05, 0x0F, 0x00, 0x50, 0xD1, 0xDF]]"

definition frame_builder :: "'f frame_ops \<Rightarrow> u16 \<Rightarrow> bytes \<Rightarrow> 'f option" where
  "frame_builder Fr i framedata = frame_new Fr (Standard i) framedata"

text \<open>One cycle over the six frames; None where building a frame panics.\<close>

fun tesla_tx_cycle :: "'f frame_ops \<Rightarrow> bytes list \<Rightarrow> ('b, 'f) board \<Rightarrow> ('b, 'f) board option" where
  "tesla_tx_cycle Fr [] B = Some B"
| "tesla_tx_cycle Fr (d # ds) B =
     (case frame_builder Fr 0x221 d of None \<Rightarrow> None | Some f \<Rightarrow> tesla_tx_cycle Fr ds (try_send_bms f B))"

record 'd tesla_task =
  tesla_data :: 'd
  contactor_cmd :: contactor_command
  contactor_sig :: "contactor_command option"

text \<open>\<open>decode\<close> is \<open>decode_frame\<close> (None on an error, else whether an update is due), \<open>view\<close> reads the
  contactor fields and \<open>update_bms\<close> writes the battery data.\<close>

definition tesla_bms_rx :: "('f \<Rightarrow> 'd \<Rightarrow> bool option \<times> 'd) \<Rightarrow> ('d \<Rightarrow> tesla_view) \<Rightarrow> ('d \<Rightarrow> 'b setter) \<Rightarrow> nat \<Rightarrow>
    'f \<Rightarrow> 'd tesla_task \<Rightarrow> ('b, 'f) board \<Rightarrow> 'd tesla_task \<times> ('b, 'f) board" where
  "tesla_bms_rx decode view update_bms now frame t B =
     (let (r, d) = decode frame (tesla_data t); t = t\<lparr>tesla_data := d\<rparr> in
      case r of
        None \<Rightarrow> (t, B)
      | Some update \<Rightarrow>
          let t = (if economized_unknown6 (view d) then
                     (if contactor_cmd t \<noteq> Cmd_Close then t\<lparr>contactor_sig := Some Cmd_Close, contactor_cmd := Cmd_Close\<rparr> else t)
                   else if contactor_open (view d) then
                     (if contactor_cmd t \<noteq> Cmd_Precharge
                      then t\<lparr>contactor_sig := Some Cmd_Precharge, contactor_cmd := Cmd_Precharge\<rparr> else t)
                   else t);
              t = t\<lparr>contactor_sig := Some Cmd_Precharge\<rparr>;
              B = B\<lparr>wdt := Some True\<rparr> in
          if \<not> update then (t, B)
          else case update_bms d (bms B) of
              (False, b) \<Rightarrow> (t, B\<lparr>bms := b\<rparr>)
            | (True, b) \<Rightarrow> (t, B\<lparr>bms := b, last_bms_message := Some now, wdt := Some True\<rparr>))"

section \<open>Valid only after a complete update\<close>

text \<open>What the tasks rely on of the battery data's setters: \<open>set_valid\<close> succeeds and sets the flag,
  and no other setter touches it.\<close>

definition keeps_valid :: "('v, 'b) bms_ops \<Rightarrow> 'b setter \<Rightarrow> bool" where
  "keeps_valid Bo f \<longleftrightarrow> (\<forall>b. valid Bo (snd (f b)) = valid Bo b)"

definition bms_lawful :: "('v, 'b) bms_ops \<Rightarrow> bool" where
  "bms_lawful Bo \<longleftrightarrow>
     (\<forall>v b. fst (set_valid Bo v b) \<and> valid Bo (snd (set_valid Bo v b)) = v) \<and>
     (\<forall>v. keeps_valid Bo (set_soc Bo v) \<and> keeps_valid Bo (set_pack_volts Bo v) \<and> keeps_valid Bo (set_current Bo v) \<and>
       keeps_valid Bo (set_kwh Bo v) \<and> keeps_valid Bo (set_max_charge_amps Bo v) \<and>
       keeps_valid Bo (set_max_discharge_amps Bo v) \<and> keeps_valid Bo (set_pack_temp Bo v)) \<and>
     (\<forall>x y. keeps_valid Bo (set_cell_mv_low_high Bo x y)) \<and> (\<forall>xs. keeps_valid Bo (set_cell_mv Bo xs)) \<and>
     (\<forall>x y. keeps_valid Bo (set_temps Bo x y)) \<and> keeps_valid Bo (throttle_pack Bo) \<and>
     (\<forall>v b. valid Bo (put_discharge_max Bo v b) = valid Bo b)"

lemma chain_append:
  "chain (fs @ gs) b = (case chain fs b of (True, b') \<Rightarrow> chain gs b' | (False, b') \<Rightarrow> (False, b'))"
  by (induction fs arbitrary: b) (auto split: prod.split bool.split)

lemma chain_keeps_valid: "\<forall>f \<in> set fs. keeps_valid Bo f \<Longrightarrow> valid Bo (snd (chain fs b)) = valid Bo b"
  by (induction fs arbitrary: b) (auto simp: keeps_valid_def split: prod.split bool.split, metis snd_conv, metis snd_conv)

lemma bracketed_chain_valid:
  assumes "bms_lawful Bo" "\<forall>f \<in> set fs. keeps_valid Bo f"
  shows "valid Bo (snd (chain (set_valid Bo False # fs @ [set_valid Bo True]) b)) =
    fst (chain (set_valid Bo False # fs @ [set_valid Bo True]) b)"
proof -
  obtain b1 where b1: "set_valid Bo False b = (True, b1)" "\<not> valid Bo b1"
    using assms(1) unfolding bms_lawful_def by (metis prod.collapse)
  obtain ok b2 where b2: "chain fs b1 = (ok, b2)" by (cases "chain fs b1")
  then have "\<not> valid Bo b2" using chain_keeps_valid [OF assms(2), of b1] b1 by simp
  moreover obtain b3 where "set_valid Bo True b2 = (True, b3)" "valid Bo b3"
    using assms(1) unfolding bms_lawful_def by (metis prod.collapse)
  ultimately show ?thesis using b1 b2 by (cases ok) (simp_all add: chain_append)
qed

lemma update_chains_valid:
  assumes "bms_lawful Bo"
  shows "valid Bo (snd (chain (ze50_setters Bo soc m data) b)) = fst (chain (ze50_setters Bo soc m data) b)"
    and "valid Bo (snd (chain (ze40_rapid_setters Bo data') b)) = fst (chain (ze40_rapid_setters Bo data') b)"
    and "valid Bo (snd (chain (ze40_diag_setters Bo v35 data') b)) = fst (chain (ze40_diag_setters Bo v35 data') b)"
proof -
  note B = bracketed_chain_valid [OF assms]
  show "valid Bo (snd (chain (ze50_setters Bo soc m data) b)) = fst (chain (ze50_setters Bo soc m data) b)"
    using B [of "butlast (tl (ze50_setters Bo soc m data))" b] assms
    by (simp add: ze50_setters_def bms_lawful_def)
  show "valid Bo (snd (chain (ze40_rapid_setters Bo data') b)) = fst (chain (ze40_rapid_setters Bo data') b)"
    using B [of "butlast (tl (ze40_rapid_setters Bo data'))" b] assms
    by (simp add: ze40_rapid_setters_def bms_lawful_def)
  show "valid Bo (snd (chain (ze40_diag_setters Bo v35 data') b)) = fst (chain (ze40_diag_setters Bo v35 data') b)"
    using B [of "butlast (tl (ze40_diag_setters Bo v35 data'))" b] assms
    by (simp add: ze40_diag_setters_def bms_lawful_def)
qed

text \<open>
  C13. An update of the battery data, of either Renault battery, leaves it flagged valid exactly when
  every setter of the chain accepted its value: a rejected value leaves the data flagged invalid,
  while the watchdog is petted and the time of the last message is reset in either case.
\<close>

theorem update_valid_iff_accepted:
  assumes "bms_lawful Bo"
  shows "valid Bo (bms (ze50_update Bo F l soc data now B)) =
      fst (chain (ze50_setters Bo soc (charge_limit_max Bo (bms B)) data) (bms B)) \<and>
    valid Bo (bms (ze40_rapid_update Bo data' now B)) = fst (chain (ze40_rapid_setters Bo data') (bms B)) \<and>
    valid Bo (bms (ze40_diag_update Bo F l v35 data' now B)) =
      fst (chain (ze40_diag_setters Bo v35 data')
        (put_pack_volts Bo (pack_volts data') (put_cell_range_mv Bo (cell_mv data') (put_bal_cells Bo (bal_cells data') (bms B))))) \<and>
    (\<forall>B' \<in> {ze50_update Bo F l soc data now B, ze40_rapid_update Bo data' now B, ze40_diag_update Bo F l v35 data' now B}.
       wdt B' = Some True \<and> last_bms_message B' = Some now)"
proof -
  note U = update_chains_valid [OF assms]
  have p: "valid Bo (put_discharge_max Bo v b) = valid Bo b" for v b
    using assms by (simp add: bms_lawful_def)
  show ?thesis
    using U(1) [of soc "charge_limit_max Bo (bms B)" data "bms B"] U(2) [of data' "bms B"]
      U(3) [of v35 data' "put_pack_volts Bo (pack_volts data') (put_cell_range_mv Bo (cell_mv data') (put_bal_cells Bo (bal_cells data') (bms B)))"]
    by (auto simp: ze50_update_def ze40_rapid_update_def ze40_diag_update_def push_all_to_mqtt_def Let_def p
        split: prod.splits bool.splits)
qed

text \<open>Battery data of a flag and a state of charge that refuses more than 100.\<close>

definition sample_bms_ops :: "(nat, bool \<times> nat) bms_ops" where
  "sample_bms_ops = (let id_set = (\<lambda>b. (True, b)) in
     \<lparr>set_valid = (\<lambda>v b. (True, (v, snd b))), set_soc = (\<lambda>v b. if v \<le> 100 then (True, (fst b, v)) else (False, b)),
      set_cell_mv_low_high = (\<lambda>_ _. id_set), set_cell_mv = (\<lambda>_. id_set), set_pack_volts = (\<lambda>_. id_set),
      set_current = (\<lambda>_. id_set), set_temps = (\<lambda>_ _. id_set), set_kwh = (\<lambda>_. id_set),
      set_max_charge_amps = (\<lambda>_. id_set), set_max_discharge_amps = (\<lambda>_. id_set), set_pack_temp = (\<lambda>_. id_set),
      throttle_pack = id_set, charge_limit_max = (\<lambda>_. 150), put_bal_cells = (\<lambda>_ b. b),
      put_cell_range_mv = (\<lambda>_ b. b), put_pack_volts = (\<lambda>_ b. b), put_discharge_max = (\<lambda>_ b. b), valid = fst\<rparr>)"

definition sample_ze40 :: "nat \<Rightarrow> nat ze40_data" where
  "sample_ze40 soc = \<lparr>current_value = 1, soc_value = soc, kwh_remaining = 12, pack_temp = 20, bal_cells = [],
     cell_mv = (3700, 3800), cells_mv = [3700, 3800], pack_volts = 360, temp = (18, 20), max_charge_amps = 46\<rparr>"

definition sample_bms_board :: "(bool \<times> nat, unit) board" where
  "sample_bms_board = \<lparr>inverter_channel_rx = [], inverter_channel_tx = [], bms_channel_rx = [], bms_channel_tx = [],
     can_ready = None, last_bms_message = None, wdt = None, contactor_state = None, send_mqtt = None,
     led_signal = None, bms = (True, 50), globalstate = global_state_default, mqttfmt = None\<rparr>"

theorem update_valid_iff_accepted_witness:
  "valid sample_bms_ops (bms (ze40_rapid_update sample_bms_ops (sample_ze40 42) 7 sample_bms_board)) \<and>
   \<not> valid sample_bms_ops (bms (ze40_rapid_update sample_bms_ops (sample_ze40 101) 7 sample_bms_board))"
proof -
  have l: "bms_lawful sample_bms_ops"
    by (simp add: bms_lawful_def sample_bms_ops_def keeps_valid_def Let_def)
  have "fst (chain (ze40_rapid_setters sample_bms_ops (sample_ze40 42)) (True, 50))"
    "\<not> fst (chain (ze40_rapid_setters sample_bms_ops (sample_ze40 101)) (True, 50))"
    by (simp_all add: ze40_rapid_setters_def sample_bms_ops_def sample_ze40_def Let_def)
  moreover have "valid sample_bms_ops (bms (ze40_rapid_update sample_bms_ops (sample_ze40 n) 7 sample_bms_board)) =
      fst (chain (ze40_rapid_setters sample_bms_ops (sample_ze40 n)) (bms sample_bms_board))" for n
    using update_valid_iff_accepted [OF l, where data' = "sample_ze40 n" and now = 7 and B = sample_bms_board] by blast
  moreover have "bms sample_bms_board = (True, 50)" by (simp add: sample_bms_board_def)
  ultimately show ?thesis by simp
qed

section \<open>The battery's key frames\<close>

fun x445_run :: "u8 \<times> u8 \<Rightarrow> bytes list \<Rightarrow> (unit, (u8 \<times> u8) \<times> lbc_key list) outcome" where
  "x445_run st [] = Ok (st, [])"
| "x445_run st (d # ds) = bind_outcome (x445_signal (Some d) st) (\<lambda>(st', k).
     bind_outcome (x445_run st' ds) (\<lambda>(st'', ks). Ok (st'', (case k of None \<Rightarrow> ks | Some x \<Rightarrow> x # ks))))"

text \<open>The state with \<open>x\<close> frames of the current kind counted, and \<open>k\<close> of the other kind.\<close>

definition x445_state :: "bool \<Rightarrow> u8 \<Rightarrow> u8 \<Rightarrow> u8 \<times> u8" where
  "x445_state aa x k = (if aa then (x, k) else (k, x))"

lemma x445_signal_count:
  assumes "2 < length d" "d ! 2 = 0xaa \<longleftrightarrow> aa" "a < 4"
  shows "x445_signal (Some d) (x445_state aa (of_nat a) k) =
    Ok (if a = 3 then (x445_state aa 0 0, Some (if aa then X5d else Xb2)) else (x445_state aa (of_nat (a + 1)) 0, None))"
proof -
  consider "a = 0" | "a = 1" | "a = 2" | "a = 3" using assms(3) by linarith
  then show ?thesis
    using assms(1,2) by cases (auto simp: x445_signal_def index_def x445_state_def)
qed

lemma x445_run_count:
  assumes "\<forall>d \<in> set ds. 2 < length d \<and> (d ! 2 = 0xaa \<longleftrightarrow> aa)" "a < 4"
  shows "x445_run (x445_state aa (of_nat a) k) ds =
    Ok (x445_state aa (of_nat ((a + length ds) mod 4)) (if ds = [] then k else 0),
        replicate ((a + length ds) div 4) (if aa then X5d else Xb2))"
  using assms
proof (induction ds arbitrary: a k)
  case (Cons d ds)
  note d = x445_signal_count [of d aa a k]
  show ?case
  proof (cases "a = 3")
    case True
    have "x445_run (x445_state aa (of_nat 0) 0) ds =
        Ok (x445_state aa (of_nat ((0 + length ds) mod 4)) 0, replicate ((0 + length ds) div 4) (if aa then X5d else Xb2))"
      using Cons.IH [of 0 0] Cons.prems by (simp split: if_splits)
    moreover have "(4 + length ds) div 4 = Suc (length ds div 4)" by simp
    ultimately show ?thesis using True d Cons.prems by simp
  next
    case False
    then have "x445_run (x445_state aa (of_nat (a + 1)) 0) ds =
        Ok (x445_state aa (of_nat ((a + 1 + length ds) mod 4)) 0, replicate ((a + 1 + length ds) div 4) (if aa then X5d else Xb2))"
      using Cons.IH [of "a + 1" 0] Cons.prems by (simp split: if_splits)
    then show ?thesis using False d Cons.prems by simp
  qed
qed simp

text \<open>
  Debouncing of the battery's key frames: in a run of frames of one kind (byte 2 equal to 0xaa,
  or different), the key is signalled once every four frames and the counter is the number of
  frames modulo four, whatever the other counter was; a frame with fewer than three data bytes
  panics the task.
\<close>

theorem x445_debounce:
  assumes "\<forall>d \<in> set ds. 2 < length d \<and> (d ! 2 = 0xaa \<longleftrightarrow> aa)" "ds \<noteq> []" "length short < 3"
  shows "x445_run (x445_state aa 0 k) ds =
      Ok (x445_state aa (of_nat (length ds mod 4)) 0, replicate (length ds div 4) (if aa then X5d else Xb2)) \<and>
    x445_run st (short # ds) = Panic"
  using x445_run_count [OF assms(1), of 0 k] assms(2,3)
  by (auto simp: x445_signal_def index_def split: prod.split)

theorem x445_debounce_witness:
  "x445_run (x445_state True 0 3) (replicate 9 [1, 2, 0xaa]) = Ok ((1, 0), [X5d, X5d]) \<and>
   x445_run (0, 0) [[1, 2], [0xaa, 0xaa, 0xaa]] = Panic"
proof -
  have "x445_run (x445_state True 0 3) (replicate 9 [1, 2, 0xaa]) = Ok ((1, 0), [X5d, X5d])"
    using x445_debounce [of "replicate 9 [1, 2, 0xaa]" True "[]" 3 "(0, 0)"]
    by (simp add: x445_state_def numeral_2_eq_2)
  moreover have "x445_run (0, 0) [[1, 2], [0xaa, 0xaa, 0xaa]] = Panic"
    using x445_debounce [of "[[0xaa, 0xaa, 0xaa]]" True "[1, 2]" 0 "(0, 0)"] by simp
  ultimately show ?thesis by simp
qed

section \<open>Guards that do not guard\<close>

text \<open>A CAN identifier has 29 bits; the test against the complement of 0x18DAF1DB is then never
  true, so every extended frame with data is decoded.\<close>

lemma ze50_guard_vacuous:
  assumes "frame_id Fr frame = Extended i" "i < 2 ^ 29" "frame_data Fr frame = Some payload"
  shows "fst (ze50_bms_rx Fr process now frame data B) = snd (process payload data)"
proof -
  have "i \<noteq> NOT 0x18DAF1DB" using assms(2) by auto
  then show ?thesis using assms(1,3) by (simp add: ze50_bms_rx_def split: prod.split)
qed

text \<open>Whatever the battery reports, the Tesla task leaves the precharge command signalled.\<close>

lemma tesla_signals_precharge:
  "fst (decode frame (tesla_data t)) \<noteq> None \<Longrightarrow>
   contactor_sig (fst (tesla_bms_rx decode view update_bms now frame t B)) = Some Cmd_Precharge"
  by (auto simp: tesla_bms_rx_def Let_def split: prod.splits option.splits bool.splits)

end
