(* ===== verification/Controller.thy ===== *)
theory Controller
  imports Contactor Inverter_Tasks Bms_Tasks
begin

text \<open>
  The tasks that main.rs spawns around the contactor, in the build for the ZE50 battery and a Solax
  or FoxESS inverter, as one transition system: the two CAN interfaces, the battery processor with its
  periodic requests, the inverter processor, the contactor task and the LED task. The executor is
  cooperative, so a step is what a task does between two points where it may wait, and what a task
  is waiting for is part of the state: the timers of the contactor task while it closes, a CAN
  interface that holds a frame, and the replies the inverter task has still to send. Sends into
  a full channel wait. These tasks hold no mutex over a wait, so that locking one never waits. The periodic task
  only uses its ticker to wait for the time at which its next step may happen, which is left open. Panicking
  steps are left out: the panic handler stops the device.
\<close>

section \<open>A pass of the inverter task in two parts\<close>

text \<open>The pass up to the loop over the replies. The last component is None when the pass is over, or
  the replies still to be sent.\<close>

definition solax_begin :: "('i, 'b, 'f) inverter_env \<Rightarrow> nat \<Rightarrow> ('b, 'f) board \<Rightarrow> 'i solax_task \<Rightarrow> 'f \<Rightarrow>
    ('b, 'f) board \<times> 'i solax_task \<times> 'f list option" where
  "solax_begin E now B t frame =
     (let F = ienv_features E;
          over = (\<lambda>(B, t). (B, t, None));
          parsed =
            (let (response, inv') = inverter_parser E (inverter t) frame (bms B) True; t' = t\<lparr>inverter := inv'\<rparr> in
             case response of
               Inr frames \<Rightarrow> (B, t', Some frames)
             | Inl (InvalidFrameEncode i) \<Rightarrow> over (solax_finish F False B t')
             | Inl (BadId i) \<Rightarrow> over (solax_finish F False B t')
             | Inl (TimeStamp time) \<Rightarrow> over (B, t')
             | Inl UnwantedFrame \<Rightarrow> over (B, t')
             | Inl OtherInverterError \<Rightarrow> over (solax_finish F True B t'));
          checked =
            (case last_bms_message B of
               Some time \<Rightarrow>
                 if elapsed_secs (ienv_hz E) now time > LAST_READING_TIMEOUT_SECS
                 then over (signal_contactor F False B, t)
                 else parsed
             | None \<Rightarrow> over (signal_contactor F False B, t)) in
      case frame_id (ienv_frame E) frame of
        Extended i \<Rightarrow> if i \<noteq> 0x1871 then over (B, t) else checked
      | Standard _ \<Rightarrow> checked)"

text \<open>The end of a pass whose replies have been sent.\<close>

definition solax_end :: "('i, 'b, 'f) inverter_env \<Rightarrow> ('b, 'f) board \<Rightarrow> 'i solax_task \<Rightarrow> ('b, 'f) board \<times> 'i solax_task" where
  "solax_end E B t = solax_finish (ienv_features E) True (signal_mqtt (ienv_features E) B) t"

lemma solax_pass_split:
  "solax_inverter_rx E now B t frame =
     (case solax_begin E now B t frame of
        (B', t', None) \<Rightarrow> (B', t')
      | (B', t', Some frames) \<Rightarrow> solax_end E (send_inverter_frames frames B') t')"
  by (auto simp: solax_inverter_rx_def solax_begin_def solax_respond_def solax_end_def Let_def
      split: can_id.split option.split prod.split sum.split inverter_error.split)

section \<open>The system\<close>

record ('i, 'v, 'b, 'f) system =
  sys_board :: "('b, 'f) board"
  sys_solax :: "'i solax_task"
  sys_reply :: "'f list option"
  sys_data :: "'v ze50_data"
  sys_first :: bool
  sys_phase :: contactor_phase
  sys_active :: bool
  sys_hw :: contactor_hw
  sys_now :: nat
  sys_leds :: leds
  sys_can1 :: "'f can_phase \<times> 'f list"
  sys_can2 :: "'f can_phase \<times> 'f list"

record ('i, 'v, 'b, 'f) system_env =
  inv_env :: "('i, 'b, 'f) inverter_env"
  bms_env :: "('v, 'b) bms_ops"
  process_payload :: "bytes \<Rightarrow> 'v ze50_data \<Rightarrow> bool \<times> 'v ze50_data"
  soc_of :: "'v ze50_data \<Rightarrow> 'v"
  preamble_payloads :: "bytes \<times> bytes"
  precharge :: bool
  timer_max_duty :: u16

text \<open>The contactor task of the build.\<close>

definition contactor_match :: "('i, 'v, 'b, 'f) system_env \<Rightarrow> bool \<Rightarrow> bool \<Rightarrow> hw_action list \<times> bool" where
  "contactor_match X =
     (if precharge X then contactor_both_match (max_duty (timer_max_duty X))
      else contactor_main_match (max_duty (timer_max_duty X)))"

datatype task = Clock | Bms_can | Inverter_can | Bms_processor | Bms_periodic | Inverter_processor | Contactor_task | Led_task

abbreviation ticks :: "('i, 'v, 'b, 'f) system_env \<Rightarrow> nat" where
  "ticks X \<equiv> ienv_hz (inv_env X)"

inductive sys_step :: "('i, 'v, 'b, 'f) system_env \<Rightarrow> task \<Rightarrow> ('i, 'v, 'b, 'f) system \<Rightarrow> ('i, 'v, 'b, 'f) system \<Rightarrow> bool"
  for X where
  clock: "sys_step X Clock s (s\<lparr>sys_now := sys_now s + n\<rparr>)"
| bms_can: "bms_task_round (ticks X) (sys_now s) e (sys_board s) (sys_can1 s) = Some (B, can) \<Longrightarrow>
    sys_step X Bms_can s (s\<lparr>sys_board := B, sys_can1 := can\<rparr>)"
| inverter_can: "inverter_task_round (ticks X) (sys_now s) e (sys_board s) (sys_can2 s) = Some (B, can) \<Longrightarrow>
    sys_step X Inverter_can s (s\<lparr>sys_board := B, sys_can2 := can\<rparr>)"
| bms_receive: "bms_channel_rx (sys_board s) = f # q \<Longrightarrow>
    ze50_bms_rx (ienv_frame (inv_env X)) (process_payload X) (sys_now s) f (sys_data s)
      (sys_board s\<lparr>bms_channel_rx := q\<rparr>) = (data, B) \<Longrightarrow>
    sys_step X Bms_processor s (s\<lparr>sys_data := data, sys_board := B\<rparr>)"
| bms_request: "ze50_tx_round (ienv_frame (inv_env X)) (bms_env X) (ienv_features (inv_env X)) try_lock (soc_of X)
      (preamble_payloads X) tick (sys_data s) (sys_now s) (sys_first s) (sys_board s) = Some (first, B) \<Longrightarrow>
    sys_step X Bms_periodic s (s\<lparr>sys_first := first, sys_board := B\<rparr>)"
| inverter_begin: "sys_reply s = None \<Longrightarrow> inverter_channel_rx (sys_board s) = f # q \<Longrightarrow>
    solax_begin (inv_env X) (sys_now s) (sys_board s\<lparr>inverter_channel_rx := q\<rparr>) (sys_solax s) f = (B, t, r) \<Longrightarrow>
    sys_step X Inverter_processor s (s\<lparr>sys_board := B, sys_solax := t, sys_reply := r\<rparr>)"
| inverter_send: "sys_reply s = Some (f # fs) \<Longrightarrow> length (inverter_channel_tx (sys_board s)) < FRAME_BUFFER \<Longrightarrow>
    sys_step X Inverter_processor s (s\<lparr>sys_board := send_inverter_frames [f] (sys_board s), sys_reply := Some fs\<rparr>)"
| inverter_end: "sys_reply s = Some [] \<Longrightarrow> solax_end (inv_env X) (sys_board s) (sys_solax s) = (B, t) \<Longrightarrow>
    sys_step X Inverter_processor s (s\<lparr>sys_board := B, sys_solax := t, sys_reply := None\<rparr>)"
| contactor_begin: "sys_phase s = Awaiting \<Longrightarrow> contactor_state (sys_board s) = Some v \<Longrightarrow>
    contactor_match X v (sys_active s) = (as, active') \<Longrightarrow>
    contactor_poll (sys_now s) as active' (sys_active s) (sys_hw s) = (ph, active, h) \<Longrightarrow>
    sys_step X Contactor_task s
      (s\<lparr>sys_board := sys_board s\<lparr>contactor_state := None\<rparr>, sys_phase := ph, sys_active := active, sys_hw := h\<rparr>)"
| contactor_go_on: "sys_phase s = Timing start ms as active' \<Longrightarrow> timer_expired (ticks X) start ms (sys_now s) \<Longrightarrow>
    contactor_poll (sys_now s) as active' (sys_active s) (sys_hw s) = (ph, active, h) \<Longrightarrow>
    sys_step X Contactor_task s (s\<lparr>sys_phase := ph, sys_active := active, sys_hw := h\<rparr>)"
| leds: "led_task_step (sys_board s) (sys_leds s) = Some (B, ls) \<Longrightarrow>
    sys_step X Led_task s (s\<lparr>sys_board := B, sys_leds := ls\<rparr>)"

text \<open>At the start the channels and signals are empty, the interfaces wait for frames and the contactor is open.\<close>

definition sys_initial :: "('i, 'v, 'b, 'f) system \<Rightarrow> bool" where
  "sys_initial s \<longleftrightarrow>
     bms_channel_rx (sys_board s) = [] \<and> bms_channel_tx (sys_board s) = [] \<and>
     inverter_channel_rx (sys_board s) = [] \<and> inverter_channel_tx (sys_board s) = [] \<and>
     contactor_state (sys_board s) = None \<and> last_bms_message (sys_board s) = None \<and>
     \<not> initalised (sys_solax s) \<and> sys_reply s = None \<and> sys_phase s = Awaiting \<and> \<not> sys_active s \<and> sys_hw s = hw_reset \<and>
     fst (sys_can1 s) = Selecting \<and> fst (sys_can2 s) = Selecting"

inductive reachable :: "('i, 'v, 'b, 'f) system_env \<Rightarrow> ('i, 'v, 'b, 'f) system \<Rightarrow> bool" for X where
  start: "sys_initial s \<Longrightarrow> reachable X s"
| step: "reachable X s \<Longrightarrow> sys_step X k s s' \<Longrightarrow> reachable X s'"

inductive_cases contactor_stepE: "sys_step X Contactor_task s s'"
inductive_cases inverter_stepE: "sys_step X Inverter_processor s s'"
inductive_cases clock_stepE: "sys_step X Clock s s'"

section \<open>What each step does to the board\<close>

text \<open>The channels that a step must not overfill, and what the contactor's safety rests on.\<close>

definition channels_ok :: "('b, 'f) board \<Rightarrow> bool" where
  "channels_ok B \<longleftrightarrow>
     length (bms_channel_rx B) \<le> FRAME_BUFFER \<and> length (bms_channel_tx B) \<le> FRAME_BUFFER \<and>
     length (inverter_channel_rx B) \<le> FRAME_BUFFER \<and> length (inverter_channel_tx B) \<le> FRAME_BUFFER"

definition seen :: "('b, 'f) board \<Rightarrow> bool" where
  "seen B \<longleftrightarrow> last_bms_message B \<noteq> None"

named_theorems board_steps

lemma bms_task_round_ok [board_steps]:
  assumes "bms_task_round hz now e B can = Some (B', can')" "channels_ok B"
  shows "channels_ok B' \<and> contactor_state B' = contactor_state B \<and> seen B' = seen B \<and> last_bms_message B' = last_bms_message B \<and>
    inverter_channel_rx B' = inverter_channel_rx B \<and> inverter_channel_tx B' = inverter_channel_tx B"
proof -
  obtain ph out where c: "can = (ph, out)" by (cases can)
  define P where "P = \<lparr>ch_rx = bms_channel_rx B, ch_tx = bms_channel_tx B, bus = out, phase = ph\<rparr>"
  obtain P' where P': "can_routine hz now e P = Some P'"
      "B' = next_round Led1 P' (B\<lparr>bms_channel_rx := ch_rx P', bms_channel_tx := ch_tx P'\<rparr>)"
    using assms(1) by (auto simp: bms_task_round_def c P_def)
  have "length (ch_rx P') \<le> FRAME_BUFFER \<and> length (ch_tx P') \<le> FRAME_BUFFER"
    using can_routine_bounds [OF P'(1)] assms(2) by (simp add: P_def channels_ok_def)
  then show ?thesis using assms(2) by (simp add: P'(2) next_round_def channels_ok_def seen_def)
qed

lemma inverter_task_round_ok [board_steps]:
  assumes "inverter_task_round hz now e B can = Some (B', can')" "channels_ok B"
  shows "channels_ok B' \<and> contactor_state B' = contactor_state B \<and> seen B' = seen B \<and> last_bms_message B' = last_bms_message B"
proof -
  obtain ph out where c: "can = (ph, out)" by (cases can)
  define P where "P = \<lparr>ch_rx = inverter_channel_rx B, ch_tx = inverter_channel_tx B, bus = out, phase = ph\<rparr>"
  obtain P' where P': "can_routine hz now e P = Some P'"
      "B' = next_round Led2 P' (B\<lparr>inverter_channel_rx := ch_rx P', inverter_channel_tx := ch_tx P'\<rparr>)"
    using assms(1) by (auto simp: inverter_task_round_def c P_def)
  have "length (ch_rx P') \<le> FRAME_BUFFER \<and> length (ch_tx P') \<le> FRAME_BUFFER"
    using can_routine_bounds [OF P'(1)] assms(2) by (simp add: P_def channels_ok_def)
  then show ?thesis using assms(2) by (simp add: P'(2) next_round_def channels_ok_def seen_def)
qed

lemma ze50_bms_rx_ok [board_steps]:
  assumes "ze50_bms_rx Fr process now f data (B\<lparr>bms_channel_rx := q\<rparr>) = (data', B')"
    and "bms_channel_rx B = f # q" "channels_ok B"
  shows "channels_ok B' \<and> contactor_state B' = contactor_state B \<and> (seen B \<longrightarrow> seen B')"
  using assms
  by (auto simp: ze50_bms_rx_def channels_ok_def seen_def Let_def split: can_id.splits option.splits if_splits prod.splits)

lemma try_send_bms_ok:
  "channels_ok B \<Longrightarrow> channels_ok (try_send_bms f B)"
  "contactor_state (try_send_bms f B) = contactor_state B" "seen (try_send_bms f B) = seen B"
  by (auto simp: try_send_bms_def channel_try_send_def channels_ok_def seen_def split: option.split)

lemma ze50_update_ok:
  "channels_ok (ze50_update Bo F l soc data now B) = channels_ok B"
  "contactor_state (ze50_update Bo F l soc data now B) = contactor_state B" "seen (ze50_update Bo F l soc data now B)"
  by (auto simp: ze50_update_def push_all_to_mqtt_def channels_ok_def seen_def Let_def split: prod.split bool.split)

lemma ze50_tx_round_ok [board_steps]:
  assumes "ze50_tx_round Fr Bo F l soc pre tick data now first B = Some (first', B')" "channels_ok B"
  shows "channels_ok B' \<and> contactor_state B' = contactor_state B \<and> (seen B \<longrightarrow> seen B')"
  using assms
  by (auto simp: ze50_tx_round_def Let_def try_send_bms_ok ze50_update_ok split: ze50_tick.splits if_splits)

lemma led_task_step_ok [board_steps]:
  assumes "led_task_step B ls = Some (B', ls')" "channels_ok B"
  shows "channels_ok B' \<and> contactor_state B' = contactor_state B \<and> seen B' = seen B"
  using assms by (auto simp: led_task_step_def channels_ok_def seen_def split: option.splits)

text \<open>The inverter task. \<open>armed\<close>: the contactor may be told to close only once the task has served a
  request, and that only once the battery was heard.\<close>

definition armed :: "('b, 'f) board \<Rightarrow> 'i solax_task \<Rightarrow> bool" where
  "armed B t \<longleftrightarrow> (contactor_state B = Some True \<longrightarrow> initalised t) \<and> (initalised t \<longrightarrow> seen B)"

lemma solax_finish_ok:
  assumes "\<not> tesla_m3 F" "channels_ok B" "armed B t" "v \<longrightarrow> seen B" "solax_finish F v B t = (B', t')"
  shows "channels_ok B' \<and> armed B' t' \<and> seen B' = seen B"
  using assms by (auto simp: solax_finish_def signal_contactor_def channels_ok_def armed_def seen_def Let_def)

lemma solax_begin_ok:
  assumes "\<not> tesla_m3 (ienv_features E)" "channels_ok B" "armed B t"
    and "solax_begin E now B t f = (B', t', r)"
  shows "channels_ok B' \<and> armed B' t' \<and> seen B' = seen B \<and> (r \<noteq> None \<longrightarrow> seen B')"
proof -
  let ?t = "t\<lparr>inverter := snd (inverter_parser E (inverter t) f (bms B) True)\<rparr>"
  have a: "armed B ?t" using assms(3) by (simp add: armed_def)
  have fin: "channels_ok B1 \<and> armed B1 t1 \<and> seen B1 = seen B"
    if "solax_finish (ienv_features E) v B ?t = (B1, t1)" "last_bms_message B = Some x" for v B1 t1 x
    using solax_finish_ok [OF assms(1,2) a _ that(1)] that(2) by (simp add: seen_def)
  have off: "channels_ok (signal_contactor (ienv_features E) False B)" "armed (signal_contactor (ienv_features E) False B) t"
      "seen (signal_contactor (ienv_features E) False B) = seen B"
    using assms(1-3) by (simp_all add: signal_contactor_def channels_ok_def armed_def seen_def)
  show ?thesis
    using assms(2-4) a off fin
    by (auto simp: solax_begin_def Let_def seen_def
        split: can_id.splits option.splits if_splits prod.splits sum.splits inverter_error.splits)
qed

lemma solax_end_ok:
  assumes "\<not> tesla_m3 (ienv_features E)" "channels_ok B" "armed B t" "seen B" "solax_end E B t = (B', t')"
  shows "channels_ok B' \<and> armed B' t' \<and> seen B' = seen B"
proof -
  let ?B = "signal_mqtt (ienv_features E) B"
  have "channels_ok ?B" "armed ?B t" "seen ?B = seen B"
    using assms(2,3) by (simp_all add: signal_mqtt_def channels_ok_def armed_def seen_def)
  then show ?thesis using solax_finish_ok [OF assms(1), of ?B t True B' t'] assms(4,5) by (simp add: solax_end_def)
qed

section \<open>The invariant\<close>

abbreviation driver_max :: "('i, 'v, 'b, 'f) system_env \<Rightarrow> u16" where
  "driver_max X \<equiv> max_duty (timer_max_duty X)"

interpretation sys_driver: contactor_driver "driver_max X" "contactor_match X" for X
proof
  fix state active as active' h
  assume r: "contactor_match X state active = (as, active')"
  show "active' = state"
    using r main_driver.obeys [of "driver_max X" state active as active']
      both_driver.obeys [of "driver_max X" state active as active']
    by (simp add: contactor_match_def split: if_splits)
  show "settled (driver_max X) h active \<Longrightarrow> settled (driver_max X) (hw_run as h) active'"
    using r main_driver.settles [of "driver_max X" state active as active' h]
      both_driver.settles [of "driver_max X" state active as active' h]
    by (simp add: contactor_match_def split: if_splits)
next
  fix state as active'
  show "contactor_match X state state = (as, active') \<Longrightarrow> as = []"
    using main_driver.holds [of "driver_max X" state as active'] both_driver.holds [of "driver_max X" state as active']
    by (simp add: contactor_match_def split: if_splits)
qed

text \<open>The hardware at each wait of the contactor task: settled at the signal; in the first timer of the
  precharge driver only the precharge relay is on; in the timer before the hold duty the main
  contactor is on at the maximal duty, beside the precharge relay of that driver.\<close>

definition stage_ok :: "bool \<Rightarrow> u16 \<Rightarrow> contactor_hw \<Rightarrow> bool \<Rightarrow> contactor_phase \<Rightarrow> bool" where
  "stage_ok pre m h active ph =
     (case ph of
        Awaiting \<Rightarrow> settled m h active
      | Timing start ms rest active' \<Rightarrow> \<not> active \<and> active' \<and>
          (pre \<and> ms = 500 \<and> pre_pin h \<and> \<not> pwm_on h \<and>
             rest = [Pwm_enable, Pwm_set_duty m, Timer_after_ms 100, Pre_set_low, Pwm_set_duty (hold_duty m)] \<or>
           ms = 100 \<and> pre_pin h = pre \<and> pwm_on h \<and> pwm_duty h = m \<and>
             rest = (if pre then [Pre_set_low] else []) @ [Pwm_set_duty (hold_duty m)]))"

text \<open>Taking a signal: open at once, or start to close.\<close>

lemma stage_begin:
  assumes "stage_ok (precharge X) (driver_max X) h active Awaiting" "contactor_match X v active = (as, active')"
    and "contactor_poll now as active' active h = (ph, a, h')"
  shows "stage_ok (precharge X) (driver_max X) h' a ph \<and> (ph = Awaiting \<longrightarrow> a = v) \<and> (ph \<noteq> Awaiting \<longrightarrow> v \<and> \<not> active) \<and>
    (v \<and> \<not> active \<longrightarrow> (\<exists>rest. ph = Timing now (if precharge X then 500 else 100) rest True))"
  using assms
  by (cases v; cases active; cases "precharge X")
    (auto simp: stage_ok_def settled_def contactor_match_def contactor_poll_def)

lemma stage_go_on:
  assumes "stage_ok (precharge X) (driver_max X) h active (Timing start ms as active')"
    and "contactor_poll now as active' active h = (ph, a, h')"
  shows "stage_ok (precharge X) (driver_max X) h' a ph \<and> (ph = Awaiting \<longrightarrow> a) \<and> pwm_on h' \<and>
    (if ms = 500 then \<exists>rest. ph = Timing now 100 rest True else ph = Awaiting)"
  using assms by (cases "precharge X") (auto simp: stage_ok_def settled_def contactor_poll_def)

definition sys_inv :: "('i, 'v, 'b, 'f) system_env \<Rightarrow> ('i, 'v, 'b, 'f) system \<Rightarrow> bool" where
  "sys_inv X s \<longleftrightarrow>
     channels_ok (sys_board s) \<and> armed (sys_board s) (sys_solax s) \<and>
     (sys_reply s \<noteq> None \<or> sys_active s \<or> sys_phase s \<noteq> Awaiting \<longrightarrow> seen (sys_board s)) \<and>
     stage_ok (precharge X) (driver_max X) (sys_hw s) (sys_active s) (sys_phase s) \<and>
     (\<forall>start ms rest a. sys_phase s = Timing start ms rest a \<longrightarrow> start \<le> sys_now s)"

lemma contactor_poll_start: "contactor_poll now as a active h = (Timing start ms rest a', active', h') \<Longrightarrow> start = now"
  by (auto simp: contactor_poll_def split: prod.splits option.splits)

lemma sys_inv_initial: "sys_initial s \<Longrightarrow> sys_inv X s"
  by (simp add: sys_initial_def sys_inv_def channels_ok_def armed_def stage_ok_def settled_reset)

lemma sys_inv_step:
  assumes "sys_step X k s s'" "sys_inv X s" "\<not> tesla_m3 (ienv_features (inv_env X))"
  shows "sys_inv X s'"
  using assms
proof (induction rule: sys_step.induct)
  case (inverter_begin s f q B t r)
  let ?B = "sys_board s\<lparr>inverter_channel_rx := q\<rparr>"
  have p: "channels_ok ?B" "armed ?B (sys_solax s)" "seen ?B = seen (sys_board s)"
    using inverter_begin by (auto simp: sys_inv_def channels_ok_def armed_def seen_def)
  have "channels_ok B \<and> armed B t \<and> seen B = seen (sys_board s) \<and> (r \<noteq> None \<longrightarrow> seen B)"
    using solax_begin_ok [OF inverter_begin.prems(2) p(1,2) inverter_begin.hyps(3)] p(3) by auto
  with inverter_begin.prems(1) show ?case by (auto simp: sys_inv_def)
next
  case (inverter_send s f fs)
  then show ?case by (simp add: sys_inv_def channels_ok_def armed_def seen_def)
next
  case (inverter_end s B t)
  then have "channels_ok B \<and> armed B t \<and> seen B = seen (sys_board s)"
    using solax_end_ok [of "inv_env X" "sys_board s" "sys_solax s" B t] by (simp add: sys_inv_def)
  with inverter_end show ?case by (simp add: sys_inv_def)
next
  case (contactor_begin s v as active' ph active h)
  have "stage_ok (precharge X) (driver_max X) h active ph \<and> (ph = Awaiting \<longrightarrow> active = v) \<and> (ph \<noteq> Awaiting \<longrightarrow> v)"
    using contactor_begin stage_begin [OF _ contactor_begin.hyps(3,4)] by (auto simp: sys_inv_def)
  with contactor_begin contactor_poll_start [of "sys_now s" as active' "sys_active s" "sys_hw s"] show ?case
    by (auto simp: sys_inv_def channels_ok_def armed_def seen_def stage_ok_def split: contactor_phase.splits)
next
  case (contactor_go_on s start ms as active' ph active h)
  then have "stage_ok (precharge X) (driver_max X) h active ph"
    using stage_go_on [OF _ contactor_go_on.hyps(3)] by (auto simp: sys_inv_def)
  with contactor_go_on contactor_poll_start [of "sys_now s" as active' "sys_active s" "sys_hw s"] show ?case
    by (auto simp: sys_inv_def)
qed (auto simp: sys_inv_def armed_def dest!: board_steps)

lemma reachable_inv:
  assumes "reachable X s" "\<not> tesla_m3 (ienv_features (inv_env X))"
  shows "sys_inv X s"
  using assms by (induction rule: reachable.induct) (auto intro: sys_inv_initial sys_inv_step)

text \<open>A system at its start, and after a request of the inverter has arrived.\<close>

definition sample_system :: "(unit, unit, bool, u32) system" where
  "sample_system =
     \<lparr>sys_board = sample_board\<lparr>last_bms_message := None\<rparr>, sys_solax = \<lparr>inverter = (), initalised = False\<rparr>, sys_reply = None,
      sys_data = \<lparr>ze50_soc_value = (), v_low_cell = 0, v_high_cell = 0, ze50_pack_volts = (), ze50_current_value = (),
        temp_min = (), temp_max = (), ze50_kwh_remaining = (), ze50_pack_temp = (), req_code = 0\<rparr>,
      sys_first = True, sys_phase = Awaiting, sys_active = False, sys_hw = hw_reset, sys_now = 0, sys_leds = leds_new,
      sys_can1 = (Selecting, []), sys_can2 = (Selecting, [])\<rparr>"

definition flag_ops :: "(unit, bool) bms_ops" where
  "flag_ops = (let keep = (\<lambda>b. (True, b)) in
     \<lparr>set_valid = (\<lambda>v b. (True, v)), set_soc = (\<lambda>_. keep), set_cell_mv_low_high = (\<lambda>_ _. keep), set_cell_mv = (\<lambda>_. keep),
      set_pack_volts = (\<lambda>_. keep), set_current = (\<lambda>_. keep), set_temps = (\<lambda>_ _. keep), set_kwh = (\<lambda>_. keep),
      set_max_charge_amps = (\<lambda>_. keep), set_max_discharge_amps = (\<lambda>_. keep), set_pack_temp = (\<lambda>_. keep),
      throttle_pack = keep, charge_limit_max = (\<lambda>_. ()), put_bal_cells = (\<lambda>_ b. b), put_cell_range_mv = (\<lambda>_ b. b),
      put_pack_volts = (\<lambda>_ b. b), put_discharge_max = (\<lambda>_ b. b), valid = (\<lambda>b. b)\<rparr>)"

definition sample_system_env :: "(unit, unit, bool, u32) system_env" where
  "sample_system_env =
     \<lparr>inv_env = sample_env, bms_env = flag_ops, process_payload = (\<lambda>p d. (True, d)), soc_of = (\<lambda>d. ()),
      preamble_payloads = ([], []), precharge = True, timer_max_duty = 1000\<rparr>"

definition requested :: "(unit, unit, bool, u32) system" where
  "requested = sample_system\<lparr>sys_board := sample_board\<lparr>last_bms_message := None, led_signal := Some (Toggle Led2),
     inverter_channel_rx := [0x1871]\<rparr>, sys_can2 := (Selecting, [])\<rparr>"

lemma sample_reachable: "reachable sample_system_env sample_system"
  by (rule start) (simp add: sys_initial_def sample_system_def sample_board_def)

lemma requested_reachable: "reachable sample_system_env requested"
proof (rule step [OF sample_reachable])
  show "sys_step sample_system_env Inverter_can sample_system requested"
    unfolding requested_def
    by (rule inverter_can [where e = "Rx_frame 0x1871"])
      (simp_all add: sample_system_def sample_board_def inverter_task_round_def can_routine_def next_round_def channel_send_def FRAME_BUFFER_def)
qed

lemma sample_env_not_tesla: "\<not> tesla_m3 (ienv_features (inv_env sample_system_env))" "ienv_hz (inv_env sample_system_env) = 1"
  by (simp_all add: sample_system_env_def sample_env_def)

text \<open>
  C3. In every state that the interleaved tasks can reach, also while the contactor task waits in one of
  its timers, the hardware is in one of four stages: open with the precharge relay off; precharging,
  with only the precharge relay on; pulling in, with the main contactor at the maximal duty; holding, at
  the hold duty with the precharge relay off. The task counts the contactor as closed only in
  the last. Nothing is powered, closing or told to close before the battery was heard, and
  the signal to close is only pending while the inverter task counts its last request as served.
\<close>

theorem controller_invariant:
  assumes "reachable X s" "\<not> tesla_m3 (ienv_features (inv_env X))"
  shows "(case sys_phase s of
        Awaiting \<Rightarrow> \<not> pre_pin (sys_hw s) \<and> pwm_on (sys_hw s) = sys_active s \<and>
          (pwm_on (sys_hw s) \<longrightarrow> pwm_duty (sys_hw s) = hold_duty (driver_max X))
      | Timing start ms rest active' \<Rightarrow> \<not> sys_active s \<and>
          (if ms = 500 then precharge X \<and> pre_pin (sys_hw s) \<and> \<not> pwm_on (sys_hw s)
           else ms = 100 \<and> pre_pin (sys_hw s) = precharge X \<and> pwm_on (sys_hw s) \<and> pwm_duty (sys_hw s) = driver_max X)) \<and>
    (pwm_on (sys_hw s) \<or> pre_pin (sys_hw s) \<or> sys_phase s \<noteq> Awaiting \<or> contactor_state (sys_board s) = Some True \<longrightarrow>
       last_bms_message (sys_board s) \<noteq> None) \<and>
    (contactor_state (sys_board s) = Some True \<longrightarrow> initalised (sys_solax s))"
  using reachable_inv [OF assms]
  by (auto simp: sys_inv_def stage_ok_def settled_def armed_def seen_def split: contactor_phase.splits)

theorem controller_invariant_witness:
  "sys_phase requested = Awaiting \<and> \<not> pre_pin (sys_hw requested) \<and> \<not> pwm_on (sys_hw requested)"
proof -
  have "sys_phase requested = Awaiting" "\<not> sys_active requested" by (simp_all add: requested_def sample_system_def)
  then show ?thesis using controller_invariant [OF requested_reachable sample_env_not_tesla(1)] by simp
qed

section \<open>A family of sample runs\<close>

text \<open>A controller whose inverter is answered with \<open>n\<close> frames, and what its runs visit at the time 0 with the
  battery just heard: the signal to the contactor, the two channels and the CAN interface of the
  inverter, and the inverter task.\<close>

definition replying_env :: "nat \<Rightarrow> (unit, unit, bool, u32) system_env" where
  "replying_env n = sample_system_env\<lparr>inv_env := sample_env\<lparr>inverter_parser := (\<lambda>s f b x. (Inr (replicate n f), s))\<rparr>\<rparr>"

definition visited :: "nat \<Rightarrow> bool option \<Rightarrow> u32 list \<Rightarrow> u32 list \<Rightarrow> u32 can_phase \<Rightarrow> bool \<Rightarrow> u32 list option \<Rightarrow>
    (unit, unit, bool, u32) system \<Rightarrow> bool" where
  "visited n cs rx tx ph ini rep s \<longleftrightarrow> reachable (replying_env n) s \<and> contactor_state (sys_board s) = cs \<and>
     inverter_channel_rx (sys_board s) = rx \<and> inverter_channel_tx (sys_board s) = tx \<and> fst (sys_can2 s) = ph \<and>
     initalised (sys_solax s) = ini \<and> sys_reply s = rep \<and> last_bms_message (sys_board s) = Some 0 \<and> sys_now s = 0 \<and>
     sys_phase s = Awaiting \<and> \<not> sys_active s \<and> sys_hw s = hw_reset"

lemma replying_env_simps [simp]:
  "ienv_features (inv_env (replying_env n)) = \<lparr>tesla_m3 = False, mqtt = True\<rparr>" "ticks (replying_env n) = 1"
  "precharge (replying_env n)" "process_payload (replying_env n) = (\<lambda>p d. (True, d))" "timer_max_duty (replying_env n) = 1000"
  "ienv_frame (inv_env (replying_env n)) = \<lparr>frame_id = Extended, frame_data = (\<lambda>_. Some []), frame_new = (\<lambda>_ _. None)\<rparr>"
  "inverter_parser (inv_env (replying_env n)) = (\<lambda>s f b x. (Inr (replicate n f), s))"
  by (simp_all add: replying_env_def sample_system_env_def sample_env_def)

lemma visit_start: "\<exists>s. visited n None [] [] Selecting False None s"
proof -
  let ?B1 = "(sample_board\<lparr>last_bms_message := None\<rparr>)\<lparr>bms_channel_rx := [1], bms_channel_tx := [], led_signal := Some (Toggle Led1)\<rparr>"
  let ?s1 = "sample_system\<lparr>sys_board := ?B1, sys_can1 := (Selecting, [])\<rparr>"
  have r0: "reachable (replying_env n) sample_system"
    by (rule start) (simp add: sys_initial_def sample_system_def sample_board_def)
  have "sys_step (replying_env n) Bms_can sample_system ?s1"
    by (rule bms_can [where e = "Rx_frame 1"])
      (simp_all add: sample_system_def sample_board_def bms_task_round_def can_routine_def next_round_def channel_send_def FRAME_BUFFER_def)
  note r1 = step [OF r0 this]
  have "sys_step (replying_env n) Bms_processor ?s1
      (?s1\<lparr>sys_data := sys_data sample_system, sys_board := ?B1\<lparr>bms_channel_rx := [], last_bms_message := Some 0\<rparr>\<rparr>)"
    by (rule bms_receive [where f = 1 and q = "[]"]) (simp_all add: sample_system_def sample_board_def ze50_bms_rx_def)
  note r2 = step [OF r1 this]
  show ?thesis by (rule exI, unfold visited_def, rule conjI, rule r2) (simp add: sample_system_def sample_board_def)
qed

lemma visit_arrive:
  assumes "\<exists>s. visited n cs rx tx Selecting ini rep s" "length rx < FRAME_BUFFER"
  shows "\<exists>s. visited n cs (rx @ [0x1871]) tx Selecting ini rep s"
proof -
  obtain s out where s: "visited n cs rx tx Selecting ini rep s" "sys_can2 s = (Selecting, out)"
    using assms(1) unfolding visited_def by (metis prod.collapse)
  let ?B = "(sys_board s)\<lparr>inverter_channel_rx := rx @ [0x1871], inverter_channel_tx := tx, led_signal := Some (Toggle Led2)\<rparr>"
  have "sys_step (replying_env n) Inverter_can s (s\<lparr>sys_board := ?B, sys_can2 := (Selecting, out)\<rparr>)"
    by (rule inverter_can [where e = "Rx_frame 0x1871"])
      (use s assms(2) in \<open>simp add: visited_def inverter_task_round_def can_routine_def next_round_def channel_send_def\<close>)
  then have "visited n cs (rx @ [0x1871]) tx Selecting ini rep (s\<lparr>sys_board := ?B, sys_can2 := (Selecting, out)\<rparr>)" using s(1) by (auto simp: visited_def intro: step)
  then show ?thesis by blast
qed

lemma visit_hold:
  assumes "\<exists>s. visited n cs rx tx Selecting ini rep s" "\<not> length rx < FRAME_BUFFER"
  shows "\<exists>s. visited n cs rx tx (Sending 0x1871) ini rep s"
proof -
  obtain s out where s: "visited n cs rx tx Selecting ini rep s" "sys_can2 s = (Selecting, out)"
    using assms(1) unfolding visited_def by (metis prod.collapse)
  let ?B = "(sys_board s)\<lparr>inverter_channel_rx := rx, inverter_channel_tx := tx\<rparr>"
  have "sys_step (replying_env n) Inverter_can s (s\<lparr>sys_board := ?B, sys_can2 := (Sending 0x1871, out)\<rparr>)"
    by (rule inverter_can [where e = "Rx_frame 0x1871"])
      (use s assms(2) in \<open>simp add: visited_def inverter_task_round_def can_routine_def next_round_def\<close>)
  then have "visited n cs rx tx (Sending 0x1871) ini rep (s\<lparr>sys_board := ?B, sys_can2 := (Sending 0x1871, out)\<rparr>)" using s(1) by (auto simp: visited_def intro: step)
  then show ?thesis by blast
qed

lemma visit_begin:
  assumes "\<exists>s. visited n cs (0x1871 # q) tx ph ini None s"
  shows "\<exists>s. visited n cs q tx ph ini (Some (replicate n 0x1871)) s"
proof -
  obtain s where s: "visited n cs (0x1871 # q) tx ph ini None s" using assms by blast
  have "sys_step (replying_env n) Inverter_processor s (s\<lparr>sys_board := (sys_board s)\<lparr>inverter_channel_rx := q\<rparr>,
      sys_solax := (sys_solax s)\<lparr>inverter := ()\<rparr>, sys_reply := Some (replicate n 0x1871)\<rparr>)"
    by (rule inverter_begin [where f = "0x1871" and q = q])
      (use s in \<open>simp_all add: visited_def solax_begin_def elapsed_secs_def LAST_READING_TIMEOUT_SECS_def\<close>)
  then have "visited n cs q tx ph ini (Some (replicate n 0x1871)) (s\<lparr>sys_board := (sys_board s)\<lparr>inverter_channel_rx := q\<rparr>, sys_solax := (sys_solax s)\<lparr>inverter := ()\<rparr>, sys_reply := Some (replicate n 0x1871)\<rparr>)" using s by (auto simp: visited_def intro: step)
  then show ?thesis by blast
qed

lemma visit_send:
  assumes "\<exists>s. visited n cs rx tx ph ini (Some (fs @ gs)) s" "length tx + length fs \<le> FRAME_BUFFER"
  shows "\<exists>s. visited n cs rx (tx @ fs) ph ini (Some gs) s"
  using assms
proof (induction fs arbitrary: tx)
  case (Cons f fs)
  obtain s where s: "visited n cs rx tx ph ini (Some (f # fs @ gs)) s" using Cons.prems(1) by auto
  let ?s = "s\<lparr>sys_board := send_inverter_frames [f] (sys_board s), sys_reply := Some (fs @ gs)\<rparr>"
  have "sys_step (replying_env n) Inverter_processor s ?s"
    by (rule inverter_send) (use s Cons.prems(2) in \<open>simp_all add: visited_def\<close>)
  then have "visited n cs rx (tx @ [f]) ph ini (Some (fs @ gs)) ?s" using s by (auto simp: visited_def intro: step)
  with Cons show ?case by fastforce
qed simp

lemma visit_end:
  assumes "\<exists>s. visited n cs rx tx ph ini (Some []) s"
  shows "\<exists>s. visited n (Some ini) rx tx ph True None s"
proof -
  obtain s where s: "visited n cs rx tx ph ini (Some []) s" using assms by blast
  obtain B t where e: "solax_end (inv_env (replying_env n)) (sys_board s) (sys_solax s) = (B, t)"
    by (cases "solax_end (inv_env (replying_env n)) (sys_board s) (sys_solax s)")
  have "sys_step (replying_env n) Inverter_processor s (s\<lparr>sys_board := B, sys_solax := t, sys_reply := None\<rparr>)"
    by (rule inverter_end [OF _ e]) (use s in \<open>simp add: visited_def\<close>)
  then have "visited n (Some ini) rx tx ph True None (s\<lparr>sys_board := B, sys_solax := t, sys_reply := None\<rparr>)"
    using s e by (auto simp: visited_def solax_end_def solax_finish_def signal_contactor_def signal_mqtt_def Let_def intro: step)
  then show ?thesis by blast
qed

lemma visit_served:
  assumes "\<exists>s. visited n cs [] tx Selecting ini None s" "length tx + n \<le> FRAME_BUFFER"
  shows "\<exists>s. visited n (Some ini) [] (tx @ replicate n 0x1871) Selecting True None s"
proof -
  have "\<exists>s. visited n cs [0x1871] tx Selecting ini None s" using visit_arrive [OF assms(1)] by (simp add: FRAME_BUFFER_def)
  from visit_begin [OF this] have "\<exists>s. visited n cs [] tx Selecting ini (Some (replicate n 0x1871 @ [])) s" by simp
  from visit_end [OF visit_send [OF this]] assms(2) show ?thesis by simp
qed

end
