(* ===== verification/Controller_Contactor.thy ===== *)
theory Controller_Contactor
  imports Controller
begin

text \<open>
  The contactor in the system of theory Controller: the timing of the precharge across all interleavings,
  how a pending signal is carried out although the task may be in the middle of closing, what a request
  on stale battery data leads to, and that a silent inverter leaves the contactor alone.
\<close>

section \<open>The precharge on the clock of the system\<close>

text \<open>
  C5. The precharge is timed by the clock of the system, whatever the other tasks do meanwhile. The precharge
  relay is switched on only by the contactor task on a signal to close, which starts a timer of
  500 ms; the main contactor is powered only when that timer has run out, with the relay still on; and the
  relay is switched off only 100 ms later, with the main contactor powered and put to the hold duty. No
  other task changes the stage or the hardware.
\<close>

theorem precharge_in_time:
  assumes "reachable X s" "\<not> tesla_m3 (ienv_features (inv_env X))" "precharge X" "sys_step X k s s'"
  shows "(\<not> pre_pin (sys_hw s) \<and> pre_pin (sys_hw s') \<longrightarrow> contactor_state (sys_board s) = Some True \<and> \<not> pwm_on (sys_hw s') \<and>
      (\<exists>rest. sys_phase s' = Timing (sys_now s) 500 rest True)) \<and>
    (\<not> pwm_on (sys_hw s) \<and> pwm_on (sys_hw s') \<longrightarrow> pre_pin (sys_hw s) \<and> pre_pin (sys_hw s') \<and>
      (\<exists>start rest. sys_phase s = Timing start 500 rest True \<and> 500 * ticks X \<le> (sys_now s - start) * 1000 \<and>
        (\<exists>rest'. sys_phase s' = Timing (sys_now s) 100 rest' True))) \<and>
    (pre_pin (sys_hw s) \<and> \<not> pre_pin (sys_hw s') \<longrightarrow> pwm_on (sys_hw s) \<and> pwm_on (sys_hw s') \<and>
      pwm_duty (sys_hw s') = hold_duty (driver_max X) \<and>
      (\<exists>start rest. sys_phase s = Timing start 100 rest True \<and> 100 * ticks X \<le> (sys_now s - start) * 1000)) \<and>
    (k \<noteq> Contactor_task \<longrightarrow> sys_phase s' = sys_phase s \<and> sys_hw s' = sys_hw s)"
  using assms(4) reachable_inv [OF assms(1,2)] assms(3)
proof (induction rule: sys_step.induct)
  case (contactor_begin s v as active' ph active h)
  then show ?case
    by (cases v; cases "sys_active s")
      (auto simp: sys_inv_def stage_ok_def settled_def contactor_match_def contactor_poll_def)
next
  case (contactor_go_on s start ms as active' ph active h)
  then show ?case
    by (auto simp: sys_inv_def stage_ok_def contactor_poll_def timer_expired_def)
qed simp_all

text \<open>A run that closes: the second served request signals, and 500 ms after the relay the main contactor is
  powered.\<close>

lemma visit_closing:
  obtains s where "visited 1 (Some True) [] [0x1871, 0x1871] Selecting True None s"
proof -
  have "\<exists>s. visited 1 (Some True) [] ([] @ replicate 1 0x1871 @ replicate 1 0x1871) Selecting True None s"
    using visit_served [OF visit_served [OF visit_start [of 1]]] by (simp add: FRAME_BUFFER_def)
  then show thesis using that by auto
qed

theorem precharge_in_time_witness:
  "\<exists>s s' start rest. sys_step (replying_env 1) Contactor_task s s' \<and> \<not> pwm_on (sys_hw s) \<and> pwm_on (sys_hw s') \<and>
     pre_pin (sys_hw s) \<and> sys_phase s = Timing start 500 rest True \<and> 500 \<le> (sys_now s - start) * 1000"
proof -
  let ?X = "replying_env 1"
  obtain s where s: "visited 1 (Some True) [] [0x1871, 0x1871] Selecting True None s" by (rule visit_closing)
  let ?rest = "[Pwm_enable, Pwm_set_duty 999, Timer_after_ms 100, Pre_set_low, Pwm_set_duty 747]"
  let ?s1 = "s\<lparr>sys_board := sys_board s\<lparr>contactor_state := None\<rparr>, sys_phase := Timing 0 500 ?rest True, sys_active := False,
      sys_hw := hw_reset\<lparr>pre_pin := True, clock_ms := 500\<rparr>\<rparr>"
  have "sys_step ?X Contactor_task s ?s1"
    by (rule contactor_begin [where v = True and as = "[Pre_set_high, Timer_after_ms 500] @ ?rest" and active' = True])
      (use s in \<open>simp_all add: visited_def contactor_match_def max_duty_def hold_duty_def contactor_poll_def hw_reset_def\<close>)
  then have r1: "reachable ?X ?s1" using s by (auto simp: visited_def intro: step)
  let ?s2 = "?s1\<lparr>sys_now := sys_now ?s1 + 1\<rparr>"
  have r2: "reachable ?X ?s2" by (rule step [OF r1 clock])
  let ?s3 = "?s2\<lparr>sys_phase := Timing 1 100 [Pre_set_low, Pwm_set_duty 747] True, sys_active := False,
      sys_hw := \<lparr>pre_pin = True, pwm_on = True, pwm_duty = 999, clock_ms = 600\<rparr>\<rparr>"
  have c: "sys_step ?X Contactor_task ?s2 ?s3"
    by (rule contactor_go_on [where start = 0 and ms = 500 and as = ?rest and active' = True])
      (use s in \<open>simp_all add: visited_def timer_expired_def contactor_poll_def hw_reset_def\<close>)
  have "\<not> pwm_on (sys_hw ?s2)" "pwm_on (sys_hw ?s3)" by (simp_all add: hw_reset_def)
  moreover from this precharge_in_time [OF r2 _ _ c] obtain start rest where "sys_phase ?s2 = Timing start 500 rest True"
      "500 \<le> (sys_now ?s2 - start) * 1000" "pre_pin (sys_hw ?s2)" by auto
  ultimately show ?thesis using c by blast
qed

section \<open>A pending signal is carried out\<close>

text \<open>Steps of the contactor task and of time; \<open>closing_time\<close> bounds both timers.\<close>

definition contacting :: "('i, 'v, 'b, 'f) system_env \<Rightarrow> ('i, 'v, 'b, 'f) system \<Rightarrow> ('i, 'v, 'b, 'f) system \<Rightarrow> bool" where
  "contacting X s s' \<longleftrightarrow> (\<exists>k \<in> {Clock, Contactor_task}. sys_step X k s s')"

lemma contactingI [intro]:
  "sys_step X Clock s s' \<Longrightarrow> contacting X s s'" "sys_step X Contactor_task s s' \<Longrightarrow> contacting X s s'"
  by (auto simp: contacting_def)

definition ms_ticks :: "nat \<Rightarrow> nat \<Rightarrow> nat" where
  "ms_ticks hz ms = (ms * hz + 999) div 1000"

definition closing_time :: "('i, 'v, 'b, 'f) system_env \<Rightarrow> nat" where
  "closing_time X = ms_ticks (ticks X) 500 + ms_ticks (ticks X) 100"

lemma timer_expired_after: "start \<le> now \<Longrightarrow> timer_expired hz start ms (now + ms_ticks hz ms)"
proof -
  assume "start \<le> now"
  have "ms * hz \<le> ms_ticks hz ms * 1000" by (simp add: ms_ticks_def)
  also have "\<dots> \<le> (now + ms_ticks hz ms - start) * 1000" using \<open>start \<le> now\<close> by simp
  finally show ?thesis by (simp add: timer_expired_def)
qed

lemma contacting_inv:
  "(contacting X)\<^sup>*\<^sup>* s s' \<Longrightarrow> sys_inv X s \<Longrightarrow> \<not> tesla_m3 (ienv_features (inv_env X)) \<Longrightarrow> sys_inv X s'"
  by (induction rule: rtranclp_induct) (auto simp: contacting_def dest: sys_inv_step)

text \<open>What the steps of the contactor leave alone.\<close>

definition same_others :: "('i, 'v, 'b, 'f) system \<Rightarrow> ('i, 'v, 'b, 'f) system \<Rightarrow> bool" where
  "same_others s s' \<longleftrightarrow> sys_board s' = sys_board s \<and> sys_reply s' = sys_reply s \<and> sys_solax s' = sys_solax s \<and> sys_can2 s' = sys_can2 s"

lemma contactor_goes_on:
  assumes "sys_inv X s" "sys_phase s = Timing start ms rest a"
  shows "\<exists>s'. (contacting X)\<^sup>*\<^sup>* s s' \<and> same_others s s' \<and> sys_now s' = sys_now s + ms_ticks (ticks X) ms \<and>
    (if ms = 500 then \<exists>rest. sys_phase s' = Timing (sys_now s') 100 rest True else ms = 100 \<and> sys_phase s' = Awaiting \<and> sys_active s')"
proof -
  let ?s1 = "s\<lparr>sys_now := sys_now s + ms_ticks (ticks X) ms\<rparr>"
  obtain ph active h where p: "contactor_poll (sys_now ?s1) rest a (sys_active ?s1) (sys_hw ?s1) = (ph, active, h)"
    by (cases "contactor_poll (sys_now ?s1) rest a (sys_active ?s1) (sys_hw ?s1)")
  have "start \<le> sys_now s" using assms by (auto simp: sys_inv_def)
  then have st: "sys_step X Contactor_task ?s1 (?s1\<lparr>sys_phase := ph, sys_active := active, sys_hw := h\<rparr>)"
    using assms(2) by (intro contactor_go_on [OF _ _ p]) (auto intro: timer_expired_after)
  have ok: "stage_ok (precharge X) (driver_max X) (sys_hw s) (sys_active s) (Timing start ms rest a)"
    using assms by (auto simp: sys_inv_def)
  then have "ms = 500 \<or> ms = 100" by (auto simp: stage_ok_def)
  with stage_go_on [OF ok, of "sys_now ?s1" ph active h] p
  have "if ms = 500 then \<exists>rest. ph = Timing (sys_now ?s1) 100 rest True else ms = 100 \<and> ph = Awaiting \<and> active" by auto
  moreover have "contacting X s ?s1" by (intro contactingI(1) clock)
  moreover have "contacting X ?s1 (?s1\<lparr>sys_phase := ph, sys_active := active, sys_hw := h\<rparr>)"
    by (rule contactingI(2) [OF st])
  ultimately have "(contacting X)\<^sup>*\<^sup>* s (?s1\<lparr>sys_phase := ph, sys_active := active, sys_hw := h\<rparr>)"
      "if ms = 500 then \<exists>rest. ph = Timing (sys_now ?s1) 100 rest True else ms = 100 \<and> ph = Awaiting \<and> active" by auto
  then show ?thesis
    by (intro exI [of _ "?s1\<lparr>sys_phase := ph, sys_active := active, sys_hw := h\<rparr>"]) (auto simp: same_others_def)
qed

lemma contactor_finishes:
  assumes "sys_inv X s" "\<not> tesla_m3 (ienv_features (inv_env X))"
  obtains s' where "(contacting X)\<^sup>*\<^sup>* s s'" "same_others s s'" "sys_phase s' = Awaiting" "sys_now s' \<le> sys_now s + closing_time X"
    "sys_phase s = Awaiting \<longrightarrow> s' = s" "sys_phase s \<noteq> Awaiting \<longrightarrow> sys_active s'"
proof (cases "sys_phase s")
  case Awaiting
  then show thesis by (intro that [of s]) (simp_all add: same_others_def)
next
  case (Timing start ms rest a)
  obtain s1 where s1: "(contacting X)\<^sup>*\<^sup>* s s1" "same_others s s1" "sys_now s1 = sys_now s + ms_ticks (ticks X) ms"
      "if ms = 500 then \<exists>rest. sys_phase s1 = Timing (sys_now s1) 100 rest True else ms = 100 \<and> sys_phase s1 = Awaiting \<and> sys_active s1"
    using contactor_goes_on [OF assms(1) Timing] by blast
  show thesis
  proof (cases "ms = 500")
    case False
    then show thesis using s1 Timing by (intro that [of s1]) (auto simp: closing_time_def split: if_splits)
  next
    case True
    then obtain rest' where "sys_phase s1 = Timing (sys_now s1) 100 rest' True" using s1(4) by auto
    from contactor_goes_on [OF contacting_inv [OF s1(1) assms] this] obtain s2 where s2: "(contacting X)\<^sup>*\<^sup>* s1 s2"
        "same_others s1 s2" "sys_now s2 = sys_now s1 + ms_ticks (ticks X) 100" "sys_phase s2 = Awaiting" "sys_active s2" by auto
    show thesis
      using s1(1-3) s2 Timing True by (intro that [of s2]) (auto simp: same_others_def closing_time_def intro: rtranclp_trans)
  qed
qed

lemma contactor_obeys:
  assumes "sys_inv X s" "\<not> tesla_m3 (ienv_features (inv_env X))" "contactor_state (sys_board s) = Some v"
  obtains s' where "(contacting X)\<^sup>*\<^sup>* s s'" "sys_inv X s'" "sys_phase s' = Awaiting" "sys_active s' = v"
    "sys_board s' = sys_board s\<lparr>contactor_state := None\<rparr>" "sys_now s' \<le> sys_now s + (if v then 2 else 1) * closing_time X"
proof -
  obtain s1 where s1: "(contacting X)\<^sup>*\<^sup>* s s1" "same_others s s1" "sys_phase s1 = Awaiting" "sys_now s1 \<le> sys_now s + closing_time X"
    by (rule contactor_finishes [OF assms(1,2)])
  obtain as a where m: "contactor_match X v (sys_active s1) = (as, a)" by (cases "contactor_match X v (sys_active s1)")
  obtain ph active h where p: "contactor_poll (sys_now s1) as a (sys_active s1) (sys_hw s1) = (ph, active, h)"
    by (cases "contactor_poll (sys_now s1) as a (sys_active s1) (sys_hw s1)")
  let ?s2 = "s1\<lparr>sys_board := sys_board s1\<lparr>contactor_state := None\<rparr>, sys_phase := ph, sys_active := active, sys_hw := h\<rparr>"
  have i1: "sys_inv X s1" using contacting_inv [OF s1(1) assms(1,2)] .
  have st: "sys_step X Contactor_task s1 ?s2"
    using s1(2) assms(3) by (intro contactor_begin [OF s1(3) _ m p]) (simp add: same_others_def)
  then have r2: "(contacting X)\<^sup>*\<^sup>* s ?s2" using s1(1) by (auto simp: contacting_def intro: rtranclp.rtrancl_into_rtrancl)
  have g: "(ph = Awaiting \<longrightarrow> active = v) \<and> (ph \<noteq> Awaiting \<longrightarrow> v)"
    using stage_begin [OF _ m p] i1 s1(3) by (auto simp: sys_inv_def)
  have i2: "sys_inv X ?s2" by (rule sys_inv_step [OF st i1 assms(2)])
  obtain s3 where s3: "(contacting X)\<^sup>*\<^sup>* ?s2 s3" "same_others ?s2 s3" "sys_phase s3 = Awaiting" "sys_now s3 \<le> sys_now ?s2 + closing_time X"
      "sys_phase ?s2 = Awaiting \<longrightarrow> s3 = ?s2" "sys_phase ?s2 \<noteq> Awaiting \<longrightarrow> sys_active s3"
    by (rule contactor_finishes [OF i2 assms(2)])
  have "sys_active s3 = v" using g s3(5,6) by (cases "ph = Awaiting") auto
  moreover have "sys_now s3 \<le> sys_now s + (if v then 2 else 1) * closing_time X" using g s1(4) s3(4,5) by auto
  moreover have "sys_board s3 = sys_board s\<lparr>contactor_state := None\<rparr>" using s1(2) s3(2) by (simp add: same_others_def)
  ultimately show thesis using that [of s3] rtranclp_trans [OF r2 s3(1)] contacting_inv [OF s3(1) i2 assms(2)] s3(3) by blast
qed

section \<open>A request on stale data\<close>

text \<open>The contactor is open and nothing is pending.\<close>

definition opened :: "('i, 'v, 'b, 'f) system \<Rightarrow> bool" where
  "opened s \<longleftrightarrow> contactor_state (sys_board s) = None \<and> sys_phase s = Awaiting \<and> \<not> sys_active s \<and>
     \<not> pwm_on (sys_hw s) \<and> \<not> pre_pin (sys_hw s)"

text \<open>Steps of the other tasks.\<close>

definition quiet :: "('i, 'v, 'b, 'f) system_env \<Rightarrow> ('i, 'v, 'b, 'f) system \<Rightarrow> ('i, 'v, 'b, 'f) system \<Rightarrow> bool" where
  "quiet X s s' \<longleftrightarrow> (\<exists>k. k \<noteq> Inverter_processor \<and> sys_step X k s s')"

lemma settled_open: "sys_inv X s \<Longrightarrow> sys_phase s = Awaiting \<Longrightarrow> \<not> sys_active s \<Longrightarrow> contactor_state (sys_board s) = None \<Longrightarrow> opened s"
  by (simp add: sys_inv_def stage_ok_def settled_def opened_def)

lemma quiet_step:
  assumes "quiet X s s'" "sys_inv X s" "\<not> tesla_m3 (ienv_features (inv_env X))"
    and "contactor_state (sys_board s) = Some False \<or> opened s"
  shows "sys_inv X s' \<and> (contactor_state (sys_board s') = Some False \<or> opened s')"
proof -
  obtain k where k: "k \<noteq> Inverter_processor" "sys_step X k s s'" using assms(1) by (auto simp: quiet_def)
  have inv: "sys_inv X s'" using sys_inv_step [OF k(2) assms(2,3)] .
  have ok: "channels_ok (sys_board s)" using assms(2) by (simp add: sys_inv_def)
  have "contactor_state (sys_board s') = Some False \<or> opened s'"
    using k(2,1) assms(2,4) ok inv
  proof (induction rule: sys_step.induct)
    case (contactor_begin s v as active' ph active h)
    then have "\<not> v" by (auto simp: opened_def)
    with contactor_begin stage_begin [OF _ contactor_begin.hyps(3,4)] have "ph = Awaiting" "\<not> active" by (auto simp: sys_inv_def)
    with contactor_begin.prems(5) show ?case by (intro disjI2 settled_open) auto
  next
    case (contactor_go_on s start ms as active' ph active h)
    then show ?case by (auto simp: opened_def)
  qed (auto simp: opened_def dest!: board_steps)
  with inv show ?thesis by simp
qed

lemma quiet_run:
  assumes "(quiet X)\<^sup>*\<^sup>* s s'" "sys_inv X s" "\<not> tesla_m3 (ienv_features (inv_env X))" "contactor_state (sys_board s) = Some False \<or> opened s"
  shows "sys_inv X s' \<and> (contactor_state (sys_board s') = Some False \<or> opened s')"
  using assms by (induction rule: rtranclp_induct) (auto dest: quiet_step)

lemma reaches_open:
  assumes "sys_inv X s" "\<not> tesla_m3 (ienv_features (inv_env X))" "contactor_state (sys_board s) = Some False \<or> opened s"
  shows "\<exists>s'. (contacting X)\<^sup>*\<^sup>* s s' \<and> opened s' \<and> sys_now s' \<le> sys_now s + closing_time X"
proof (cases "opened s")
  case False
  then have "contactor_state (sys_board s) = Some False" using assms(3) by simp
  from contactor_obeys [OF assms(1,2) this] obtain s' where "(contacting X)\<^sup>*\<^sup>* s s'" "sys_inv X s'" "sys_phase s' = Awaiting"
      "\<not> sys_active s'" "contactor_state (sys_board s') = None" "sys_now s' \<le> sys_now s + closing_time X" by force
  then show ?thesis using settled_open by blast
qed auto

lemma stale_pass:
  assumes "\<not> tesla_m3 (ienv_features (inv_env X))" "sys_reply s = None" "inverter_channel_rx (sys_board s) = f # q"
    and "frame_id (ienv_frame (inv_env X)) f = Extended 0x1871" "\<not> fresh (ticks X) (sys_now s) (sys_board s)"
  shows "sys_step X Inverter_processor s s1 \<longleftrightarrow>
    s1 = s\<lparr>sys_board := (sys_board s)\<lparr>inverter_channel_rx := q, contactor_state := Some False\<rparr>, sys_solax := sys_solax s, sys_reply := None\<rparr>"
proof -
  let ?B = "sys_board s\<lparr>inverter_channel_rx := q\<rparr>"
  have b: "solax_begin (inv_env X) (sys_now s) ?B (sys_solax s) f = (?B\<lparr>contactor_state := Some False\<rparr>, sys_solax s, None)"
    using assms(1,4,5) by (auto simp: solax_begin_def Let_def signal_contactor_def fresh_def split: option.splits)
  show ?thesis using inverter_begin [OF assms(2,3) b] assms(2,3) b by (auto elim!: inverter_stepE)
qed

text \<open>
  C14. A battery that has fallen silent opens the contactor at the next request of the inverter. When the
  inverter task is idle and the next frame is a request, its step cannot but signal the contactor to
  open. From then on, and until the inverter task takes its next frame, in whatever order the other tasks
  run, the signal is pending or the contactor is open; a signal that is pending while the contactor task
  is in the middle of closing lets it finish, and from every such state the contactor task alone reaches
  the open contactor within its two timers (600 ms).
\<close>

theorem stale_request_opens:
  assumes "reachable X s" "\<not> tesla_m3 (ienv_features (inv_env X))" "sys_reply s = None"
    and "inverter_channel_rx (sys_board s) = f # q" "frame_id (ienv_frame (inv_env X)) f = Extended 0x1871"
    and "\<not> fresh (ticks X) (sys_now s) (sys_board s)"
  shows "(\<exists>s1. sys_step X Inverter_processor s s1) \<and>
    (\<forall>s1. sys_step X Inverter_processor s s1 \<longrightarrow> contactor_state (sys_board s1) = Some False \<and>
       (\<forall>s2. (quiet X)\<^sup>*\<^sup>* s1 s2 \<longrightarrow> (contactor_state (sys_board s2) = Some False \<or> opened s2) \<and>
          (\<exists>s3. (contacting X)\<^sup>*\<^sup>* s2 s3 \<and> opened s3 \<and> sys_now s3 \<le> sys_now s2 + closing_time X)))"
proof -
  let ?s1 = "s\<lparr>sys_board := (sys_board s)\<lparr>inverter_channel_rx := q, contactor_state := Some False\<rparr>, sys_solax := sys_solax s, sys_reply := None\<rparr>"
  note only = stale_pass [OF assms(2-6)]
  have i1: "sys_inv X ?s1" using sys_inv_step [OF _ reachable_inv [OF assms(1,2)] assms(2)] only by blast
  have "(contactor_state (sys_board s2) = Some False \<or> opened s2) \<and>
      (\<exists>s3. (contacting X)\<^sup>*\<^sup>* s2 s3 \<and> opened s3 \<and> sys_now s3 \<le> sys_now s2 + closing_time X)" if "(quiet X)\<^sup>*\<^sup>* ?s1 s2" for s2
    using quiet_run [OF that i1 assms(2)] reaches_open [of X s2] assms(2) by simp
  then show ?thesis unfolding only by auto
qed

theorem stale_request_opens_witness:
  "\<exists>s1 s3. sys_step sample_system_env Inverter_processor requested s1 \<and> (contacting sample_system_env)\<^sup>*\<^sup>* s1 s3 \<and> opened s3"
proof -
  have "sys_reply requested = None" "inverter_channel_rx (sys_board requested) = 0x1871 # []"
      "frame_id (ienv_frame (inv_env sample_system_env)) 0x1871 = Extended 0x1871"
      "\<not> fresh (ticks sample_system_env) (sys_now requested) (sys_board requested)"
    by (simp_all add: requested_def sample_system_def sample_system_env_def sample_env_def fresh_def)
  from stale_request_opens [OF requested_reachable sample_env_not_tesla(1) this] show ?thesis by blast
qed

section \<open>A silent inverter\<close>

text \<open>Steps in which no frame of the inverter comes in.\<close>

definition silent :: "('i, 'v, 'b, 'f) system_env \<Rightarrow> ('i, 'v, 'b, 'f) system \<Rightarrow> ('i, 'v, 'b, 'f) system \<Rightarrow> bool" where
  "silent X s s' \<longleftrightarrow> (\<exists>k. sys_step X k s s') \<and> inverter_channel_rx (sys_board s') = []"

definition at_rest :: "('i, 'v, 'b, 'f) system \<Rightarrow> bool" where
  "at_rest s \<longleftrightarrow> sys_phase s = Awaiting \<and> contactor_state (sys_board s) = None \<and> sys_reply s = None \<and>
     inverter_channel_rx (sys_board s) = [] \<and> channels_ok (sys_board s)"

lemma silent_step:
  assumes "silent X s s'" "at_rest s"
  shows "at_rest s' \<and> sys_hw s' = sys_hw s"
proof -
  obtain k where k: "sys_step X k s s'" "inverter_channel_rx (sys_board s') = []" using assms(1) by (auto simp: silent_def)
  from k assms(2) show ?thesis by (induction rule: sys_step.induct) (auto simp: at_rest_def dest!: board_steps)
qed

lemma silent_run: "(silent X)\<^sup>*\<^sup>* s s' \<Longrightarrow> at_rest s \<Longrightarrow> at_rest s' \<and> sys_hw s' = sys_hw s"
  by (induction rule: rtranclp_induct) (auto dest: silent_step)

lemma becomes_stale:
  assumes "0 < hz"
  shows "\<exists>n. \<not> fresh hz (now + n) B"
proof -
  define n where "n = (case last_bms_message B of None \<Rightarrow> 0 | Some t \<Rightarrow> t + 11 * hz)"
  have "\<not> fresh hz (now + n) B"
  proof
    assume "fresh hz (now + n) B"
    then obtain t where t: "last_bms_message B = Some t" "(now + n - t) div hz \<le> 10"
      by (auto simp: fresh_def elapsed_secs_def LAST_READING_TIMEOUT_SECS_def)
    have "11 * hz \<le> now + n - t" by (simp add: n_def t(1))
    then have "11 \<le> (now + n - t) div hz" using assms by (simp add: less_eq_div_iff_mult_less_eq)
    then show False using t(2) by simp
  qed
  then show ?thesis by blast
qed

text \<open>
  C37. Only the inverter task looks at the age of the battery data, and only when a frame arrives: when the
  contactor task waits for a signal and none is pending, the inverter task is idle and its channel
  empty, then as long as no frame of the inverter comes in, nothing that happens changes the
  contactor, and the data can become stale in the meantime while a closed contactor stays closed.
\<close>

theorem silent_inverter_keeps_contactor:
  assumes "reachable X s" "\<not> tesla_m3 (ienv_features (inv_env X))" "0 < ticks X"
    and "sys_phase s = Awaiting" "contactor_state (sys_board s) = None"
    and "sys_reply s = None" "inverter_channel_rx (sys_board s) = []"
  shows "(\<forall>s'. (silent X)\<^sup>*\<^sup>* s s' \<longrightarrow> sys_hw s' = sys_hw s) \<and>
    (\<exists>s'. (silent X)\<^sup>*\<^sup>* s s' \<and> \<not> fresh (ticks X) (sys_now s') (sys_board s') \<and> sys_hw s' = sys_hw s)"
proof -
  have r: "at_rest s" using reachable_inv [OF assms(1,2)] assms(4-7) by (simp add: at_rest_def sys_inv_def)
  obtain n where n: "\<not> fresh (ticks X) (sys_now s + n) (sys_board s)" using becomes_stale [OF assms(3)] by blast
  let ?s = "s\<lparr>sys_now := sys_now s + n\<rparr>"
  have "sys_step X Clock s ?s" by (rule clock)
  then have "silent X s ?s" using assms(7) by (auto simp: silent_def)
  moreover have "\<not> fresh (ticks X) (sys_now ?s) (sys_board ?s)" using n by simp
  ultimately show ?thesis using silent_run [OF _ r] by blast
qed

text \<open>The contactor of the sample run, once closed.\<close>

theorem silent_inverter_keeps_contactor_witness:
  "\<exists>s s'. pwm_on (sys_hw s) \<and> (silent (replying_env 1))\<^sup>*\<^sup>* s s' \<and> \<not> fresh 1 (sys_now s') (sys_board s') \<and> pwm_on (sys_hw s')"
proof -
  let ?X = "replying_env 1"
  obtain s where s: "visited 1 (Some True) [] [0x1871, 0x1871] Selecting True None s" by (rule visit_closing)
  have t: "\<not> tesla_m3 (ienv_features (inv_env ?X))" by simp
  have r: "reachable ?X s" and i: "sys_inv ?X s" and c: "contactor_state (sys_board s) = Some True"
    using s reachable_inv [of ?X s] by (auto simp: visited_def)
  obtain s' where s': "(contacting ?X)\<^sup>*\<^sup>* s s'" "sys_inv ?X s'" "sys_phase s' = Awaiting" "sys_active s'"
      "sys_board s' = sys_board s\<lparr>contactor_state := None\<rparr>"
    by (rule contactor_obeys [OF i t c]) simp
  have r': "reachable ?X s'" using s'(1) r by (induction rule: rtranclp_induct) (auto simp: contacting_def intro: step)
  have "sys_reply s' = sys_reply s" using s'(1)
    by (induction rule: rtranclp_induct) (auto simp: contacting_def elim!: clock_stepE contactor_stepE)
  then have rest: "contactor_state (sys_board s') = None" "sys_reply s' = None" "inverter_channel_rx (sys_board s') = []"
    using s s'(5) by (simp_all add: visited_def)
  have on: "pwm_on (sys_hw s')" using s'(2-4) by (simp add: sys_inv_def stage_ok_def settled_def)
  have hz: "0 < ticks ?X" by simp
  from silent_inverter_keeps_contactor [OF r' t hz s'(3) rest] obtain s'' where "(silent ?X)\<^sup>*\<^sup>* s' s''"
      "\<not> fresh (ticks ?X) (sys_now s'') (sys_board s'')" "sys_hw s'' = sys_hw s'" by blast
  then show ?thesis using on unfolding replying_env_simps(2) by (intro exI [of _ s'] exI [of _ s'']) simp
qed

end
