(* ===== verification/Controller_Replies.thy ===== *)
theory Controller_Replies
  imports Controller_Contactor
begin

text \<open>
  What becomes of a request that the inverter task of theory Controller has begun to answer. The
  replies go out one by one into a channel of ten frames, which the CAN interface of the inverter
  empties; the same interface fills the channel of ten frames that only the inverter task empties. The
  lemmas build the run that completes a reply, and characterise the states in which none exists because the
  two tasks wait for each other.
\<close>

section \<open>The two tasks that wait for each other\<close>

text \<open>The interface holds a received frame for which there is no room, and the inverter task has more
  replies left than fit into the other channel.\<close>

definition jammed :: "('i, 'v, 'b, 'f) system \<Rightarrow> bool" where
  "jammed s \<longleftrightarrow> (\<exists>g fs. fst (sys_can2 s) = Sending g \<and> FRAME_BUFFER \<le> length (inverter_channel_rx (sys_board s)) \<and>
     sys_reply s = Some fs \<and> FRAME_BUFFER < length (inverter_channel_tx (sys_board s)) + length fs)"

definition running :: "('i, 'v, 'b, 'f) system_env \<Rightarrow> ('i, 'v, 'b, 'f) system \<Rightarrow> ('i, 'v, 'b, 'f) system \<Rightarrow> bool" where
  "running X s s' \<longleftrightarrow> (\<exists>k. sys_step X k s s')"

text \<open>The tasks of the battery and the LEDs leave the inverter's channels alone.\<close>

named_theorems inverter_side

lemma ze50_bms_rx_inverter [inverter_side]:
  "ze50_bms_rx Fr process now f data B = (data', B') \<Longrightarrow>
   inverter_channel_rx B' = inverter_channel_rx B \<and> inverter_channel_tx B' = inverter_channel_tx B"
  by (auto simp: ze50_bms_rx_def Let_def split: can_id.splits option.splits if_splits prod.splits)

lemma try_send_bms_inverter [simp]:
  "inverter_channel_rx (try_send_bms f B) = inverter_channel_rx B" "inverter_channel_tx (try_send_bms f B) = inverter_channel_tx B"
  by (auto simp: try_send_bms_def split: option.split)

lemma ze50_update_inverter [simp]:
  "inverter_channel_rx (ze50_update Bo F l soc data now B) = inverter_channel_rx B"
  "inverter_channel_tx (ze50_update Bo F l soc data now B) = inverter_channel_tx B"
  by (auto simp: ze50_update_def push_all_to_mqtt_def Let_def split: prod.split bool.split)

lemma ze50_tx_round_inverter [inverter_side]:
  "ze50_tx_round Fr Bo F l soc pre tick data now first B = Some (first', B') \<Longrightarrow>
   inverter_channel_rx B' = inverter_channel_rx B \<and> inverter_channel_tx B' = inverter_channel_tx B"
  by (auto simp: ze50_tx_round_def Let_def split: ze50_tick.splits if_splits)

lemma led_task_step_inverter [inverter_side]:
  "led_task_step B ls = Some (B', ls') \<Longrightarrow>
   inverter_channel_rx B' = inverter_channel_rx B \<and> inverter_channel_tx B' = inverter_channel_tx B"
  by (auto simp: led_task_step_def)

lemma held_frame_waits:
  "fst can = Sending g \<Longrightarrow> FRAME_BUFFER \<le> length (inverter_channel_rx B) \<Longrightarrow> inverter_task_round hz now e B can = None"
  by (cases can; cases e) (auto simp: inverter_task_round_def can_routine_def)

lemma jam_step:
  assumes "sys_step X k s s'" "jammed s" "channels_ok (sys_board s)"
  shows "jammed s' \<and> sys_can2 s' = sys_can2 s \<and> (contactor_state (sys_board s) = None \<longrightarrow> contactor_state (sys_board s') = None)"
  using assms
proof (induction rule: sys_step.induct)
  case (inverter_can s e B can)
  then obtain g where "fst (sys_can2 s) = Sending g" "FRAME_BUFFER \<le> length (inverter_channel_rx (sys_board s))"
    by (auto simp: jammed_def)
  from held_frame_waits [OF this, of "ticks X" "sys_now s" e] inverter_can.hyps show ?case by simp
next
  case (inverter_end s B t)
  then show ?case by (auto simp: jammed_def channels_ok_def)
next
  case (bms_receive s f q data B)
  then show ?case using ze50_bms_rx_ok [OF bms_receive.hyps(2,1)] ze50_bms_rx_inverter [OF bms_receive.hyps(2)]
    by (simp add: jammed_def)
next
  case (bms_request tick s first B)
  then show ?case using ze50_tx_round_ok [OF bms_request.hyps] ze50_tx_round_inverter [OF bms_request.hyps]
    by (simp add: jammed_def)
next
  case (leds s B ls)
  then show ?case using led_task_step_ok [OF leds.hyps] led_task_step_inverter [OF leds.hyps] by (simp add: jammed_def)
qed (auto simp: jammed_def dest: bms_task_round_ok)

lemma running_inv:
  "(running X)\<^sup>*\<^sup>* s s' \<Longrightarrow> sys_inv X s \<Longrightarrow> \<not> tesla_m3 (ienv_features (inv_env X)) \<Longrightarrow> sys_inv X s'"
  by (induction rule: rtranclp_induct) (auto simp: running_def dest: sys_inv_step)

definition rest_kept :: "('i, 'v, 'b, 'f) system \<Rightarrow> ('i, 'v, 'b, 'f) system \<Rightarrow> bool" where
  "rest_kept s s' \<longleftrightarrow> (sys_phase s = Awaiting \<and> contactor_state (sys_board s) = None \<longrightarrow>
     sys_phase s' = Awaiting \<and> contactor_state (sys_board s') = None \<and> sys_hw s' = sys_hw s)"

lemma jam_keeps_contactor: "sys_step X k s s' \<Longrightarrow> contactor_state (sys_board s') = None \<or> contactor_state (sys_board s) \<noteq> None \<Longrightarrow>
    rest_kept s s'"
  by (induction rule: sys_step.induct) (auto simp: rest_kept_def)

lemma jam_run:
  assumes "(running X)\<^sup>*\<^sup>* s s'" "jammed s" "sys_inv X s" "\<not> tesla_m3 (ienv_features (inv_env X))"
  shows "jammed s' \<and> sys_can2 s' = sys_can2 s \<and> rest_kept s s'"
  using assms
proof (induction rule: rtranclp_induct)
  case (step t u)
  obtain k where k: "sys_step X k t u" using step.hyps(2) by (auto simp: running_def)
  have "channels_ok (sys_board t)" using running_inv [OF step.hyps(1) step.prems(2,3)] by (simp add: sys_inv_def)
  moreover have "jammed t" "sys_can2 t = sys_can2 s" "rest_kept s t" using step.IH step.prems by blast+
  moreover note jam_step [OF k calculation(2,1)]
  moreover from this have "rest_kept t u" using jam_keeps_contactor [OF k] by blast
  ultimately show ?case by (simp add: rest_kept_def)
qed (simp add: rest_kept_def)

section \<open>A reply that is completed\<close>

text \<open>Steps of the two tasks that bring a reply to the inverter's bus, and of time.\<close>

definition replying :: "('i, 'v, 'b, 'f) system_env \<Rightarrow> ('i, 'v, 'b, 'f) system \<Rightarrow> ('i, 'v, 'b, 'f) system \<Rightarrow> bool" where
  "replying X s s' \<longleftrightarrow> (\<exists>k \<in> {Clock, Inverter_processor, Inverter_can}. sys_step X k s s')"

lemma replyingI [intro]:
  "sys_step X Clock s s' \<Longrightarrow> replying X s s'" "sys_step X Inverter_processor s s' \<Longrightarrow> replying X s s'"
  "sys_step X Inverter_can s s' \<Longrightarrow> replying X s s'"
  by (auto simp: replying_def)

text \<open>What has been sent towards the inverter, and what the replying steps leave alone.\<close>

definition to_inverter :: "('i, 'v, 'b, 'f) system \<Rightarrow> 'f list" where
  "to_inverter s = snd (sys_can2 s) @ (case fst (sys_can2 s) of Writing f \<Rightarrow> [f] | _ \<Rightarrow> []) @ inverter_channel_tx (sys_board s)"

definition same_rest :: "('i, 'v, 'b, 'f) system \<Rightarrow> ('i, 'v, 'b, 'f) system \<Rightarrow> bool" where
  "same_rest s s' \<longleftrightarrow> sys_hw s' = sys_hw s \<and> sys_active s' = sys_active s \<and> sys_phase s' = sys_phase s \<and>
     last_bms_message (sys_board s') = last_bms_message (sys_board s) \<and> sys_solax s' = sys_solax s"

lemma same_rest_trans: "same_rest s s' \<Longrightarrow> same_rest s' s'' \<Longrightarrow> same_rest s s''"
  by (simp add: same_rest_def)

text \<open>An interface that can go on comes to its select.\<close>

definition moved :: "('i, 'v, 'b, 'f) system_env \<Rightarrow> ('i, 'v, 'b, 'f) system \<Rightarrow> ('i, 'v, 'b, 'f) system \<Rightarrow> bool" where
  "moved X s s' \<longleftrightarrow> (replying X)\<^sup>*\<^sup>* s s' \<and> fst (sys_can2 s') = Selecting \<and> same_rest s s' \<and> to_inverter s' = to_inverter s \<and>
     sys_reply s' = sys_reply s"

lemma interface_moves:
  assumes "\<not> (\<exists>g. fst (sys_can2 s) = Sending g \<and> FRAME_BUFFER \<le> length (inverter_channel_rx (sys_board s)))"
  shows "\<exists>s'. moved X s s' \<and> inverter_channel_tx (sys_board s') = inverter_channel_tx (sys_board s)"
proof -
  obtain ph out where c: "sys_can2 s = (ph, out)" by (cases "sys_can2 s")
  note defs = inverter_task_round_def can_routine_def next_round_def channel_send_def moved_def same_rest_def to_inverter_def
  show ?thesis
  proof (cases ph)
    case Selecting
    then show ?thesis by (intro exI [of _ s]) (simp add: c defs)
  next
    case (Sending g)
    let ?B = "(sys_board s)\<lparr>inverter_channel_rx := inverter_channel_rx (sys_board s) @ [g],
        inverter_channel_tx := inverter_channel_tx (sys_board s), led_signal := Some (Toggle Led2)\<rparr>"
    have "sys_step X Inverter_can s (s\<lparr>sys_board := ?B, sys_can2 := (Selecting, out)\<rparr>)"
      by (rule inverter_can [where e = Resume]) (use assms c Sending in \<open>auto simp: defs\<close>)
    then show ?thesis by (intro exI [of _ "s\<lparr>sys_board := ?B, sys_can2 := (Selecting, out)\<rparr>"]) (auto simp: c Sending defs)
  next
    case (Pausing start)
    let ?s1 = "s\<lparr>sys_now := max start (sys_now s) + ms_ticks (ticks X) 50\<rparr>"
    let ?B = "(sys_board s)\<lparr>inverter_channel_rx := inverter_channel_rx (sys_board s),
        inverter_channel_tx := inverter_channel_tx (sys_board s), led_signal := Some (Toggle Led2)\<rparr>"
    have "sys_step X Clock s (s\<lparr>sys_now := sys_now s + (max start (sys_now s) - sys_now s + ms_ticks (ticks X) 50)\<rparr>)" by (rule clock)
    then have "replying X s ?s1" by (simp add: replyingI(1))
    moreover have "timer_expired (ticks X) start 50 (sys_now ?s1)" using timer_expired_after [of start "max start (sys_now s)"] by simp
    then have "sys_step X Inverter_can ?s1 (?s1\<lparr>sys_board := ?B, sys_can2 := (Selecting, out)\<rparr>)"
      by (intro inverter_can [where e = Resume]) (use c Pausing in \<open>auto simp: defs\<close>)
    ultimately have "(replying X)\<^sup>*\<^sup>* s (?s1\<lparr>sys_board := ?B, sys_can2 := (Selecting, out)\<rparr>)"
      by (meson converse_rtranclp_into_rtranclp r_into_rtranclp replyingI(3))
    then show ?thesis
      by (intro exI [of _ "?s1\<lparr>sys_board := ?B, sys_can2 := (Selecting, out)\<rparr>"]) (auto simp: c Pausing defs)
  next
    case (Writing f)
    let ?B = "(sys_board s)\<lparr>inverter_channel_rx := inverter_channel_rx (sys_board s),
        inverter_channel_tx := inverter_channel_tx (sys_board s), led_signal := Some (Toggle Led2)\<rparr>"
    have "sys_step X Inverter_can s (s\<lparr>sys_board := ?B, sys_can2 := (Selecting, out @ [f])\<rparr>)"
      by (rule inverter_can [where e = Resume]) (use c Writing in \<open>auto simp: defs\<close>)
    then show ?thesis by (intro exI [of _ "s\<lparr>sys_board := ?B, sys_can2 := (Selecting, out @ [f])\<rparr>"]) (auto simp: c Writing defs)
  qed
qed

lemma moved_trans: "moved X s s' \<Longrightarrow> moved X s' s'' \<Longrightarrow> moved X s s''"
  by (auto simp: moved_def intro: rtranclp_trans same_rest_trans)

lemma make_room:
  assumes "fst (sys_can2 s) = Selecting" "length (inverter_channel_tx (sys_board s)) \<le> FRAME_BUFFER"
  shows "\<exists>s'. moved X s s' \<and> length (inverter_channel_tx (sys_board s')) < FRAME_BUFFER"
proof (cases "length (inverter_channel_tx (sys_board s)) < FRAME_BUFFER")
  case True
  then show ?thesis using assms(1) by (intro exI [of _ s]) (simp add: moved_def same_rest_def)
next
  case False
  then obtain f q where q: "inverter_channel_tx (sys_board s) = f # q"
    by (cases "inverter_channel_tx (sys_board s)") (auto simp: FRAME_BUFFER_def)
  obtain out where c: "sys_can2 s = (Selecting, out)" using assms(1) by (cases "sys_can2 s") auto
  let ?s1 = "s\<lparr>sys_board := (sys_board s)\<lparr>inverter_channel_rx := inverter_channel_rx (sys_board s), inverter_channel_tx := q\<rparr>,
      sys_can2 := (Writing f, out)\<rparr>"
  have st: "sys_step X Inverter_can s ?s1"
    by (rule inverter_can [where e = Tx_frame]) (use c q in \<open>auto simp: inverter_task_round_def can_routine_def next_round_def\<close>)
  obtain s' where s': "moved X ?s1 s'" "inverter_channel_tx (sys_board s') = q" using interface_moves [of ?s1 X] by auto
  have "(replying X)\<^sup>*\<^sup>* s s'"
    using replyingI(3) [OF st] s'(1) by (simp add: moved_def converse_rtranclp_into_rtranclp)
  moreover have "to_inverter s' = to_inverter ?s1" "to_inverter ?s1 = to_inverter s"
    using s'(1) c q by (auto simp: moved_def to_inverter_def)
  ultimately have "moved X s s'" using s'(1) by (simp add: moved_def same_rest_def)
  then show ?thesis using s'(2) q assms(2) by (intro exI [of _ s']) simp
qed

text \<open>All replies are sent when they fit, and otherwise by turns with the interface.\<close>

definition sent_all :: "('i, 'v, 'b, 'f) system_env \<Rightarrow> 'f list \<Rightarrow> ('i, 'v, 'b, 'f) system \<Rightarrow> ('i, 'v, 'b, 'f) system \<Rightarrow> bool" where
  "sent_all X fs s s' \<longleftrightarrow> (replying X)\<^sup>*\<^sup>* s s' \<and> sys_reply s' = Some [] \<and> same_rest s s' \<and> to_inverter s' = to_inverter s @ fs"

lemma reply_step:
  assumes "sys_reply s = Some (f # fs)" "length (inverter_channel_tx (sys_board s)) < FRAME_BUFFER"
  obtains s' where "replying X s s'" "sys_reply s' = Some fs" "same_rest s s'" "to_inverter s' = to_inverter s @ [f]"
    "sys_can2 s' = sys_can2 s" "inverter_channel_tx (sys_board s') = inverter_channel_tx (sys_board s) @ [f]"
proof -
  have "replying X s (s\<lparr>sys_board := send_inverter_frames [f] (sys_board s), sys_reply := Some fs\<rparr>)"
    by (rule replyingI(2) [OF inverter_send [OF assms]])
  then show thesis by (rule that) (simp_all add: same_rest_def to_inverter_def)
qed

lemma reply_fits:
  "sys_reply s = Some fs \<Longrightarrow> length (inverter_channel_tx (sys_board s)) + length fs \<le> FRAME_BUFFER \<Longrightarrow> \<exists>s'. sent_all X fs s s'"
proof (induction fs arbitrary: s)
  case Nil
  then show ?case by (intro exI [of _ s]) (simp add: sent_all_def same_rest_def)
next
  case (Cons f fs)
  then have "length (inverter_channel_tx (sys_board s)) < FRAME_BUFFER" by simp
  from reply_step [OF Cons.prems(1) this, of X] obtain s1 where s1: "replying X s s1" "sys_reply s1 = Some fs" "same_rest s s1"
      "to_inverter s1 = to_inverter s @ [f]" "inverter_channel_tx (sys_board s1) = inverter_channel_tx (sys_board s) @ [f]" by metis
  with Cons obtain s2 where "sent_all X fs s1 s2" by fastforce
  with s1 show ?case by (intro exI [of _ s2]) (auto simp: sent_all_def intro: same_rest_trans)
qed

lemma reply_by_turns:
  "sys_reply s = Some fs \<Longrightarrow> fst (sys_can2 s) = Selecting \<Longrightarrow> length (inverter_channel_tx (sys_board s)) \<le> FRAME_BUFFER \<Longrightarrow>
   \<exists>s'. sent_all X fs s s'"
proof (induction fs arbitrary: s)
  case Nil
  then show ?case by (intro exI [of _ s]) (simp add: sent_all_def same_rest_def)
next
  case (Cons f fs)
  obtain s1 where s1: "moved X s s1" "length (inverter_channel_tx (sys_board s1)) < FRAME_BUFFER"
    using make_room [OF Cons.prems(2,3)] by blast
  then have "sys_reply s1 = Some (f # fs)" using Cons.prems(1) by (simp add: moved_def)
  from reply_step [OF this s1(2), of X] obtain s2 where s2: "replying X s1 s2" "sys_reply s2 = Some fs" "same_rest s1 s2"
      "to_inverter s2 = to_inverter s1 @ [f]" "sys_can2 s2 = sys_can2 s1"
      "inverter_channel_tx (sys_board s2) = inverter_channel_tx (sys_board s1) @ [f]" by metis
  have "fst (sys_can2 s2) = Selecting" "length (inverter_channel_tx (sys_board s2)) \<le> FRAME_BUFFER"
    using s1 s2(5,6) by (simp_all add: moved_def)
  from Cons.IH [OF s2(2) this] obtain s3 where s3: "sent_all X fs s2 s3" by blast
  have "(replying X)\<^sup>*\<^sup>* s s3" using s1(1) s2(1) s3 by (auto simp: moved_def sent_all_def)
  with s1(1) s2(3,4) s3 show ?case by (intro exI [of _ s3]) (auto simp: moved_def sent_all_def intro: same_rest_trans)
qed

lemma reply_sent:
  assumes "sys_reply s = Some fs" "\<not> jammed s" "channels_ok (sys_board s)"
  shows "\<exists>s'. sent_all X fs s s'"
proof (cases "length (inverter_channel_tx (sys_board s)) + length fs \<le> FRAME_BUFFER")
  case True
  then show ?thesis using reply_fits [OF assms(1)] by blast
next
  case False
  then have "\<not> (\<exists>g. fst (sys_can2 s) = Sending g \<and> FRAME_BUFFER \<le> length (inverter_channel_rx (sys_board s)))"
    using assms(1,2) by (auto simp: jammed_def)
  from interface_moves [OF this] obtain s1 where s1: "moved X s s1"
      "inverter_channel_tx (sys_board s1) = inverter_channel_tx (sys_board s)" by blast
  then obtain s2 where "sent_all X fs s1 s2"
    using reply_by_turns [of s1 fs X] assms(1,3) by (auto simp: moved_def channels_ok_def)
  with s1(1) show ?thesis
    by (intro exI [of _ s2]) (auto simp: sent_all_def moved_def intro: rtranclp_trans same_rest_trans)
qed

text \<open>While a reply is on its way, no other task can change what the pass will signal at its end.\<close>

lemma pass_decided:
  assumes "sys_step X k s s'" "sys_reply s = Some fs" "initalised (sys_solax s)" "\<not> tesla_m3 (ienv_features (inv_env X))"
  shows "(\<exists>fs'. sys_reply s' = Some fs' \<and> initalised (sys_solax s')) \<or>
    (sys_reply s' = None \<and> contactor_state (sys_board s') = Some True)"
  using assms
  by (induction rule: sys_step.induct)
    (auto simp: solax_end_def solax_finish_def signal_contactor_def signal_mqtt_def Let_def split: if_splits)

text \<open>The completed run: all replies are on their way, in order and behind what was sent before, the contactor is
  told to close, and its task closes it within twice its timers (it may still be closing from before).\<close>

definition closing :: "('i, 'v, 'b, 'f) system_env \<Rightarrow> 'f list \<Rightarrow> ('i, 'v, 'b, 'f) system \<Rightarrow> bool" where
  "closing X fs s \<longleftrightarrow> (\<exists>s1 s2. (replying X)\<^sup>*\<^sup>* s s1 \<and> to_inverter s1 = to_inverter s @ fs \<and> sys_reply s1 = None \<and>
     contactor_state (sys_board s1) = Some True \<and> last_bms_message (sys_board s1) = last_bms_message (sys_board s) \<and>
     (contacting X)\<^sup>*\<^sup>* s1 s2 \<and> contactor_state (sys_board s2) = None \<and> sys_phase s2 = Awaiting \<and>
     pwm_on (sys_hw s2) \<and> pwm_duty (sys_hw s2) = hold_duty (driver_max X) \<and> sys_now s2 \<le> sys_now s1 + 2 * closing_time X)"

lemma reply_closing:
  assumes "sys_inv X s" "\<not> tesla_m3 (ienv_features (inv_env X))" "sys_reply s = Some fs" "initalised (sys_solax s)" "\<not> jammed s"
  shows "closing X fs s"
proof -
  have c: "channels_ok (sys_board s)" using assms(1) by (simp add: sys_inv_def)
  obtain s1 where s1: "(replying X)\<^sup>*\<^sup>* s s1" "sys_reply s1 = Some []" "same_rest s s1" "to_inverter s1 = to_inverter s @ fs"
    using reply_sent [OF assms(3,5) c, of X] by (auto simp: sent_all_def)
  obtain B t where e: "solax_end (inv_env X) (sys_board s1) (sys_solax s1) = (B, t)"
    by (cases "solax_end (inv_env X) (sys_board s1) (sys_solax s1)")
  let ?s2 = "s1\<lparr>sys_board := B, sys_solax := t, sys_reply := None\<rparr>"
  have st: "sys_step X Inverter_processor s1 ?s2" using s1(2) e by (rule inverter_end)
  have r: "(replying X)\<^sup>*\<^sup>* s ?s2" using s1(1) replyingI(2) [OF st] by (rule rtranclp.rtrancl_into_rtrancl)
  have "sys_inv X ?s2" using r assms(1)
    by (induction rule: rtranclp_induct) (auto simp: replying_def dest: sys_inv_step [OF _ _ assms(2)])
  moreover have on: "contactor_state B = Some True"
    using pass_decided [OF st s1(2) _ assms(2)] s1(3) assms(4) by (auto simp: same_rest_def)
  ultimately obtain s3 where s3: "(contacting X)\<^sup>*\<^sup>* ?s2 s3" "sys_inv X s3" "sys_phase s3 = Awaiting" "sys_active s3"
      "sys_board s3 = B\<lparr>contactor_state := None\<rparr>" "sys_now s3 \<le> sys_now ?s2 + 2 * closing_time X"
    using contactor_obeys [OF _ assms(2), of ?s2 True] by auto
  have "pwm_on (sys_hw s3)" "pwm_duty (sys_hw s3) = hold_duty (driver_max X)"
    using s3(2-4) by (simp_all add: sys_inv_def stage_ok_def settled_def)
  moreover have "to_inverter ?s2 = to_inverter s @ fs" "last_bms_message (sys_board ?s2) = last_bms_message (sys_board s)"
    using e s1(3,4) by (auto simp: to_inverter_def same_rest_def solax_end_def solax_finish_def signal_contactor_def signal_mqtt_def Let_def)
  ultimately show ?thesis
    unfolding closing_def using r on s3 by (intro exI [of _ ?s2] exI [of _ s3]) auto
qed

lemma jam_not_closing:
  assumes "sys_inv X s" "\<not> tesla_m3 (ienv_features (inv_env X))" "jammed s"
  shows "\<not> closing X fs s"
proof
  assume "closing X fs s"
  then obtain s1 where s1: "(replying X)\<^sup>*\<^sup>* s s1" "sys_reply s1 = None" by (auto simp: closing_def)
  have "(running X)\<^sup>*\<^sup>* s s1" using s1(1) by (rule rtranclp_mono [THEN predicate2D, rotated]) (auto simp: replying_def running_def)
  from jam_run [OF this assms(3,1,2)] s1(2) show False by (auto simp: jammed_def)
qed

text \<open>
  C15. When a reply that has been started after an earlier served request can be completed, and
  that completed it closes the contactor. In a reachable state in which the inverter task is sending its
  replies there is a run of this task, its CAN interface and the clock to a state in which all replies are on
  their way, in order and behind what was sent before, with the contactor told to close, and a run
  of the contactor task that closes it, exactly when the task and its interface are not waiting for each
  other (jammed). Until the reply is complete no step of any task takes the decision back.
  The age of the battery data is not tested again: with the data stale in the meantime, the
  contactor closes all the same.
\<close>

theorem started_reply_closes:
  assumes "reachable X s" "\<not> tesla_m3 (ienv_features (inv_env X))" "sys_reply s = Some fs" "initalised (sys_solax s)"
    and "0 < ticks X"
  shows "(closing X fs s \<longleftrightarrow> \<not> jammed s) \<and>
    (\<forall>k s'. sys_step X k s s' \<longrightarrow> (\<exists>fs'. sys_reply s' = Some fs' \<and> initalised (sys_solax s')) \<or>
       (sys_reply s' = None \<and> contactor_state (sys_board s') = Some True)) \<and>
    (\<exists>s'. sys_step X Clock s s' \<and> \<not> fresh (ticks X) (sys_now s') (sys_board s') \<and> (closing X fs s' \<longleftrightarrow> \<not> jammed s))"
proof -
  have iff: "closing X fs u \<longleftrightarrow> \<not> jammed u" if "sys_inv X u" "sys_reply u = Some fs" "initalised (sys_solax u)" for u
    using reply_closing [OF that(1) assms(2) that(2,3)] jam_not_closing [OF that(1) assms(2)] by blast
  obtain n where n: "\<not> fresh (ticks X) (sys_now s + n) (sys_board s)" using becomes_stale [OF assms(5)] by blast
  let ?s = "s\<lparr>sys_now := sys_now s + n\<rparr>"
  have c: "sys_step X Clock s ?s" by (rule clock)
  have i: "sys_inv X s" "sys_inv X ?s"
    using reachable_inv [OF assms(1,2)] reachable_inv [OF step [OF assms(1) c] assms(2)] by auto
  have "closing X fs ?s \<longleftrightarrow> \<not> jammed s" using iff [OF i(2)] assms(3,4) by (simp add: jammed_def)
  moreover have "\<not> fresh (ticks X) (sys_now ?s) (sys_board ?s)" using n by simp
  ultimately show ?thesis using iff [OF i(1) assms(3,4)] pass_decided [OF _ assms(3,4,2)] c by blast
qed

theorem started_reply_closes_witness:
  "\<exists>s. sys_reply s = Some [0x1871] \<and> closing (replying_env 1) [0x1871] s \<and>
     (\<exists>s'. sys_step (replying_env 1) Clock s s' \<and> \<not> fresh 1 (sys_now s') (sys_board s') \<and> closing (replying_env 1) [0x1871] s')"
proof -
  have "\<exists>s. visited 1 (Some False) [] [0x1871] Selecting True None s"
    using visit_served [OF visit_start [of 1]] by (simp add: FRAME_BUFFER_def)
  from visit_arrive [OF this] have "\<exists>s. visited 1 (Some False) [0x1871] [0x1871] Selecting True None s"
    by (simp add: FRAME_BUFFER_def)
  from visit_begin [OF this] obtain s where
    s: "visited 1 (Some False) [] [0x1871] Selecting True (Some [0x1871]) s" by (metis replicate_0 replicate_Suc One_nat_def)
  then have r: "reachable (replying_env 1) s" "sys_reply s = Some [0x1871]" "initalised (sys_solax s)" "\<not> jammed s"
    by (auto simp: visited_def jammed_def)
  have e: "\<not> tesla_m3 (ienv_features (inv_env (replying_env 1)))" "0 < ticks (replying_env 1)" by simp_all
  note c = started_reply_closes [OF r(1) e(1) r(2,3) e(2), unfolded replying_env_simps(2)]
  obtain s' where "sys_step (replying_env 1) Clock s s'" "\<not> fresh 1 (sys_now s') (sys_board s')" "closing (replying_env 1) [0x1871] s'"
    using conjunct2 [OF conjunct2 [OF c]] r(4) by blast
  then show ?thesis using conjunct1 [OF c] r(2,4) by (intro exI [of _ s]) blast
qed

section \<open>The inverter bus stands still for ever\<close>

text \<open>
  C16. The CAN interface waits for room in the channel of received frames with a frame in its hand, and does
  not transmit meanwhile; only the inverter task empties that channel, and it waits for room in the channel
  that only the interface empties. Once the two wait for each other they do so for ever, whatever the other
  tasks do: the inverter task never takes another frame and nothing more is transmitted. As the task is also
  the only one that opens the contactor, a contactor with no signal pending never changes again, however
  old the battery data becomes.
\<close>

theorem inverter_jam_is_forever:
  assumes "reachable X s" "\<not> tesla_m3 (ienv_features (inv_env X))" "jammed s" "0 < ticks X"
    and "sys_phase s = Awaiting" "contactor_state (sys_board s) = None"
  shows "(\<forall>s'. (running X)\<^sup>*\<^sup>* s s' \<longrightarrow> sys_reply s' \<noteq> None \<and> sys_can2 s' = sys_can2 s \<and> sys_hw s' = sys_hw s) \<and>
    (\<exists>s'. (running X)\<^sup>*\<^sup>* s s' \<and> \<not> fresh (ticks X) (sys_now s') (sys_board s') \<and> sys_hw s' = sys_hw s)"
proof -
  note run = jam_run [OF _ assms(3) reachable_inv [OF assms(1,2)] assms(2)]
  have all: "sys_reply s' \<noteq> None \<and> sys_can2 s' = sys_can2 s \<and> sys_hw s' = sys_hw s" if "(running X)\<^sup>*\<^sup>* s s'" for s'
    using run [OF that] assms(5,6) by (auto simp: jammed_def rest_kept_def)
  obtain n where n: "\<not> fresh (ticks X) (sys_now s + n) (sys_board s)" using becomes_stale [OF assms(4)] by blast
  let ?s = "s\<lparr>sys_now := sys_now s + n\<rparr>"
  have "sys_step X Clock s ?s" by (rule clock)
  then have "(running X)\<^sup>*\<^sup>* s ?s" unfolding running_def by blast
  moreover have "\<not> fresh (ticks X) (sys_now ?s) (sys_board ?s)" using n by simp
  ultimately show ?thesis using all by blast
qed

text \<open>With five replies to each request, the third request jams while the second closes the contactor.\<close>

lemma visit_flood:
  assumes "\<exists>s. visited n cs [] tx Selecting ini rep s" "k \<le> FRAME_BUFFER"
  shows "\<exists>s. visited n cs (replicate k 0x1871) tx Selecting ini rep s"
  using assms(2)
proof (induction k)
  case (Suc k)
  then have "\<exists>s. visited n cs (replicate k 0x1871) tx Selecting ini rep s" by simp
  from visit_arrive [OF this] Suc.prems show ?case by (simp add: replicate_append_same)
qed (use assms(1) in simp)

lemma visit_jam: "\<exists>s. visited 5 (Some True) (replicate 10 0x1871) (replicate 10 0x1871) (Sending 0x1871) True (Some (replicate 5 0x1871)) s"
proof -
  have "\<exists>s. visited 5 (Some True) [] ([] @ replicate 5 0x1871 @ replicate 5 0x1871) Selecting True None s"
    using visit_served [OF visit_served [OF visit_start [of 5]]] by (simp add: FRAME_BUFFER_def)
  then have "\<exists>s. visited 5 (Some True) [] (replicate 10 0x1871) Selecting True None s" by (simp add: replicate_add [symmetric])
  from visit_begin [of 5 "Some True" "[]", OF visit_arrive [OF this, simplified]]
  have "\<exists>s. visited 5 (Some True) [] (replicate 10 0x1871) Selecting True (Some (replicate 5 0x1871)) s"
    by (simp add: FRAME_BUFFER_def)
  from visit_hold [OF visit_flood [OF this, of 10]] show ?thesis by (simp add: FRAME_BUFFER_def)
qed

theorem inverter_jam_is_forever_witness:
  "\<exists>s s'. reachable (replying_env 5) s \<and> pwm_on (sys_hw s) \<and> (running (replying_env 5))\<^sup>*\<^sup>* s s' \<and>
     \<not> fresh 1 (sys_now s') (sys_board s') \<and> pwm_on (sys_hw s')"
proof -
  let ?X = "replying_env 5"
  obtain s where s: "visited 5 (Some True) (replicate 10 0x1871) (replicate 10 0x1871) (Sending 0x1871) True (Some (replicate 5 0x1871)) s"
    using visit_jam by blast
  have t: "\<not> tesla_m3 (ienv_features (inv_env ?X))" by simp
  have hz: "0 < ticks ?X" by simp
  have r: "reachable ?X s" and i: "sys_inv ?X s" and c: "contactor_state (sys_board s) = Some True" and j: "jammed s"
    using s reachable_inv [of ?X s] by (auto simp: visited_def jammed_def FRAME_BUFFER_def)
  obtain s' where s': "(contacting ?X)\<^sup>*\<^sup>* s s'" "sys_inv ?X s'" "sys_phase s' = Awaiting" "sys_active s'"
      "sys_board s' = sys_board s\<lparr>contactor_state := None\<rparr>"
    by (rule contactor_obeys [OF i t c]) simp
  have r': "reachable ?X s'" using s'(1) r by (induction rule: rtranclp_induct) (auto simp: contacting_def intro: step)
  have "(running ?X)\<^sup>*\<^sup>* s s'" using s'(1) by (rule rtranclp_mono [THEN predicate2D, rotated]) (auto simp: contacting_def running_def)
  then have j': "jammed s'" using jam_run [OF _ j i t] by blast
  have on: "pwm_on (sys_hw s')" using s'(2-4) by (simp add: sys_inv_def stage_ok_def settled_def)
  have none: "contactor_state (sys_board s') = None" using s'(5) by simp
  from inverter_jam_is_forever [OF r' t j' hz s'(3) none] obtain s'' where "(running ?X)\<^sup>*\<^sup>* s' s''"
      "\<not> fresh (ticks ?X) (sys_now s'') (sys_board s'')" "sys_hw s'' = sys_hw s'" by blast
  then show ?thesis using on r' unfolding replying_env_simps(2) by (intro exI [of _ s'] exI [of _ s'']) simp
qed

text \<open>A request on stale data opens the contactor, but the task keeps counting its last served request: when
  the battery is back, the first request that is served closes the contactor again.\<close>

lemma stale_pass_keeps_initalised:
  assumes "\<not> fresh (ienv_hz E) now B" "frame_id (ienv_frame E) f = Extended 0x1871"
  shows "snd (solax_inverter_rx E now B t f) = t"
  using assms by (auto simp: solax_inverter_rx_def fresh_def Let_def split: option.splits)

end
