(* ===== verification/Startup.thy ===== *)
theory Startup
  imports Controller Controller_Config Byte_Order
begin

text \<open>
  The start of the controller: which feature sets compile (\<open>check_compile_features\<close> of main.rs and the
  module list of tasks/mod.rs), which tasks \<open>main\<close> spawns in each, the battery limits it sets before,
  the clocks, CAN filters and network settings of the hardware (hal/mod.rs, can_interfaces.rs), and the
  time zone that build.rs writes.
\<close>

section \<open>Features\<close>

datatype feature = F_display | F_spi | F_syslog | F_mqtt | F_ntp | F_http | F_modbus_bridge | F_modbus_client | F_OB737
  | F_tcp_debug | F_precharge | F_v65 | F_defmt | F_byd | F_tesla_m3 | F_pylontech | F_goodwe | F_ze50 | F_ze40
  | F_foxess | F_solax | F_forceh2

text \<open>A feature set as Cargo completes it: \<open>syslog\<close> turns on \<open>ntp\<close>.\<close>

definition cargo_closed :: "feature set \<Rightarrow> bool" where
  "cargo_closed fs \<longleftrightarrow> F_syslog \<notin> fs \<or> F_ntp \<in> fs"

definition exclusive_pairs :: "(feature \<times> feature) list" where
  "exclusive_pairs =
     [(F_ze40, F_ze50), (F_ze40, F_tesla_m3), (F_ze50, F_tesla_m3), (F_solax, F_foxess), (F_solax, F_byd),
      (F_solax, F_pylontech), (F_foxess, F_byd), (F_foxess, F_pylontech), (F_byd, F_pylontech)]"

definition check_compile_features :: "feature set \<Rightarrow> bool" where
  "check_compile_features fs \<longleftrightarrow> \<not> list_ex (\<lambda>(a, b). a \<in> fs \<and> b \<in> fs) exclusive_pairs"

definition battery_features :: "feature list" where "battery_features = [F_ze40, F_ze50, F_tesla_m3]"

definition inverter_features :: "feature list" where
  "inverter_features = [F_solax, F_foxess, F_byd, F_pylontech, F_goodwe, F_forceh2]"

definition any_of :: "feature list \<Rightarrow> feature set \<Rightarrow> bool" where
  "any_of xs fs \<longleftrightarrow> list_ex (\<lambda>f. f \<in> fs) xs"

text \<open>What \<open>tasks\<close> re-exports from its modules. The same name from two modules is an error of the
  compiler, and so is an import or a use of a name that is not there.\<close>

datatype item = Bms_rx | Bms_tx_periodic | Inverter_rx

definition tasks_exports :: "feature set \<Rightarrow> item list" where
  "tasks_exports fs =
     (if F_ze40 \<in> fs then [Bms_rx, Bms_tx_periodic] else []) @
     (if F_ze50 \<in> fs then [Bms_rx, Bms_tx_periodic] else []) @
     (if F_tesla_m3 \<in> fs then [Bms_rx, Bms_tx_periodic] else []) @
     (if any_of [F_foxess, F_solax] fs then [Inverter_rx] else []) @
     (if any_of [F_pylontech, F_byd, F_goodwe] fs then [Inverter_rx] else []) @
     (if F_forceh2 \<in> fs then [Inverter_rx] else [])"

definition main_imports :: "feature set \<Rightarrow> item list" where
  "main_imports fs = (if any_of inverter_features fs then [Bms_rx, Bms_tx_periodic, Inverter_rx] else [])"

definition main_uses :: "feature set \<Rightarrow> item list" where
  "main_uses fs = (if any_of battery_features fs then [Bms_rx] else []) @
     (if any_of inverter_features fs then [Inverter_rx, Bms_tx_periodic] else [])"

text \<open>What every build that compiles satisfies. It is not sufficient: the Modbus modules have tests of their own
  (the two gateway builds exclude each other, and no build with the OB737 filter compiles).\<close>

definition compiles :: "feature set \<Rightarrow> bool" where
  "compiles fs \<longleftrightarrow> cargo_closed fs \<and> check_compile_features fs \<and> distinct (tasks_exports fs) \<and>
     set (main_imports fs) \<subseteq> set (tasks_exports fs) \<and> set (main_uses fs) \<subseteq> set (main_imports fs)"

section \<open>The tasks\<close>

datatype spawned = T_led | T_display | T_contactor_main | T_contactor_both | T_bms_rx | T_inverter_rx | T_bms_tx_periodic
  | T_bms_can | T_inverter_can | T_net | T_http | T_ntp | T_tcp_debug | T_mqtt | T_modbus | T_watchdog | T_uart

definition spawned_tasks :: "feature set \<Rightarrow> spawned list" where
  "spawned_tasks fs =
     [T_led] @
     (if F_spi \<in> fs \<and> F_display \<in> fs then [T_display] else []) @
     (if F_precharge \<notin> fs then [T_contactor_main] else []) @
     (if F_precharge \<in> fs then [T_contactor_both] else []) @
     (if any_of battery_features fs then [T_bms_rx] else []) @
     (if any_of inverter_features fs then [T_inverter_rx, T_bms_tx_periodic] else []) @
     [T_bms_can, T_inverter_can, T_net] @
     (if F_tcp_debug \<notin> fs \<and> F_http \<in> fs then [T_http] else []) @
     (if F_ntp \<in> fs then [T_ntp] else []) @
     (if F_tcp_debug \<in> fs \<and> F_http \<notin> fs then [T_tcp_debug] else []) @
     (if F_mqtt \<in> fs then [T_mqtt] else []) @
     (if F_modbus_bridge \<in> fs \<or> F_modbus_client \<in> fs then [T_modbus] else [])"

lemmas feature_defs = compiles_def cargo_closed_def check_compile_features_def exclusive_pairs_def battery_features_def
  inverter_features_def any_of_def tasks_exports_def main_imports_def main_uses_def

text \<open>
  C31. Every feature set that compiles has as many batteries as inverters, at most one of each: either no
  battery and no inverter, or one battery feature and inverter features of one family (PylonTech and
  BYD may be combined with GoodWe). Its tasks are spawned once each, with exactly one contactor task;
  there is a receiver for the battery, one for the inverter and the periodic sender together or not at
  all. No build starts the watchdog or the UART task, and one with both the web server and the debug
  console starts neither.
\<close>

theorem builds_spawn:
  assumes "compiles fs"
  shows "distinct (spawned_tasks fs) \<and> T_led \<in> set (spawned_tasks fs) \<and>
    (T_contactor_main \<in> set (spawned_tasks fs) \<longleftrightarrow> T_contactor_both \<notin> set (spawned_tasks fs)) \<and>
    length (filter (\<lambda>f. f \<in> fs) battery_features) = (if any_of inverter_features fs then 1 else 0) \<and>
    length (filter (\<lambda>g. any_of g fs) [[F_foxess, F_solax], [F_pylontech, F_byd, F_goodwe], [F_forceh2]]) =
      (if any_of inverter_features fs then 1 else 0) \<and>
    (T_bms_rx \<in> set (spawned_tasks fs) \<longleftrightarrow> any_of inverter_features fs) \<and>
    (T_inverter_rx \<in> set (spawned_tasks fs) \<longleftrightarrow> any_of inverter_features fs) \<and>
    (T_bms_tx_periodic \<in> set (spawned_tasks fs) \<longleftrightarrow> any_of inverter_features fs) \<and>
    T_watchdog \<notin> set (spawned_tasks fs) \<and> T_uart \<notin> set (spawned_tasks fs) \<and>
    (F_http \<in> fs \<and> F_tcp_debug \<in> fs \<longrightarrow> T_http \<notin> set (spawned_tasks fs) \<and> T_tcp_debug \<notin> set (spawned_tasks fs))"
proof -
  have b: "length (filter (\<lambda>f. f \<in> fs) battery_features) = (if any_of inverter_features fs then 1 else 0)"
    using assms by (auto simp: feature_defs split: if_splits)
  moreover have "length (filter (\<lambda>g. any_of g fs) [[F_foxess, F_solax], [F_pylontech, F_byd, F_goodwe], [F_forceh2]]) =
      (if any_of inverter_features fs then 1 else 0)"
    using assms by (auto simp: feature_defs split: if_splits)
  moreover have "any_of battery_features fs = any_of inverter_features fs"
    using b by (auto simp: any_of_def battery_features_def split: if_splits)
  ultimately show ?thesis by (auto simp: spawned_tasks_def)
qed

theorem builds_spawn_witness:
  "compiles {F_ze50, F_solax, F_precharge, F_mqtt} \<and> T_contactor_both \<in> set (spawned_tasks {F_ze50, F_solax, F_precharge, F_mqtt}) \<and>
   T_watchdog \<notin> set (spawned_tasks {F_ze50, F_solax, F_precharge, F_mqtt})"
proof -
  have c: "compiles {F_ze50, F_solax, F_precharge, F_mqtt}" by (simp add: feature_defs)
  have "F_precharge \<in> {F_ze50, F_solax, F_precharge, F_mqtt}" by simp
  with builds_spawn [OF c] c show ?thesis by (simp add: spawned_tasks_def)
qed

text \<open>The features that the tasks test (theory Board), and the build of theory Controller.\<close>

definition task_features :: "feature set \<Rightarrow> features" where
  "task_features fs = \<lparr>tesla_m3 = F_tesla_m3 \<in> fs, mqtt = F_mqtt \<in> fs\<rparr>"

section \<open>Battery limits at the start\<close>

text \<open>The setters of the battery crate are parameters, None when they refuse; \<open>fl\<close> is a literal.\<close>

record ('b, 'v) limit_ops =
  set_discharge_limts :: "'v \<Rightarrow> 'v \<Rightarrow> 'b \<Rightarrow> 'b option"
  set_charge_limts :: "'v \<Rightarrow> 'v \<Rightarrow> 'b \<Rightarrow> 'b option"
  set_current_sensor_limts :: "'v \<Rightarrow> 'v \<Rightarrow> 'b \<Rightarrow> 'b option"
  set_dod :: "u8 \<Rightarrow> u8 \<Rightarrow> 'b \<Rightarrow> 'b option"
  bms_get_config :: "'b \<Rightarrow> 'v bms_config"

definition startup_limits ::
    "('b, 'v) limit_ops \<Rightarrow> (int \<Rightarrow> 'v) \<Rightarrow> feature set \<Rightarrow> 'b \<times> 'v controller_config \<Rightarrow> ('e, 'b \<times> 'v controller_config) outcome" where
  "startup_limits O' fl fs = (\<lambda>(b, config).
     bind_outcome
       (if F_v65 \<in> fs then
          bind_outcome (unwrap_option (set_discharge_limts O' (fl 0) (fl 250) b)) (\<lambda>b1.
          bind_outcome (unwrap_option (set_charge_limts O' (fl 0) (fl 250) b1)) (\<lambda>b2.
          bind_outcome (unwrap_option (set_current_sensor_limts O' (fl (- 200)) (fl 200) b2)) (\<lambda>b3.
          unwrap_option (set_dod O' 5 90 b3))))
        else
          bind_outcome (unwrap_option (set_discharge_limts O' (fl 0) (fl 35) b)) (\<lambda>b1.
          bind_outcome (unwrap_option (set_charge_limts O' (fl 0) (fl 150) b1)) (\<lambda>b2.
          unwrap_option (set_dod O' 5 100 b2))))
       (\<lambda>b'. Ok (b', import_from_bms (bms_get_config O' b') config)))"

text \<open>After the start the settings page shows the limits of the battery, but for the cell temperatures,
  and the depth of discharge of the settings is still the default: it is set in the battery only.\<close>

lemma startup_settings:
  assumes "startup_limits O' fl fs (b, config) = Ok (b', config')"
  shows "export_as_bms config' = (bms_get_config O' b')\<lparr>cell_temperatures := pack_temperatures (bms_get_config O' b')\<rparr> \<and>
    dod config' = dod config"
proof -
  have "config' = import_from_bms (bms_get_config O' b') config"
    using assms by (auto simp: startup_limits_def bind_outcome_Ok_iff)
  then show ?thesis by (simp add: export_as_bms_def import_from_bms_def)
qed

section \<open>Clocks\<close>

text \<open>\<open>peripherals_config\<close>: frequencies in Hertz, dividers and multipliers as numbers.\<close>

record rcc_config =
  lse_freq :: nat
  hse_freq :: nat
  pll_prediv :: nat
  pll_mul :: nat
  pll_divp :: nat
  pll_divq :: nat
  ahb_pre :: nat
  apb1_pre :: nat
  apb2_pre :: nat

definition peripherals_config :: rcc_config where
  "peripherals_config = \<lparr>lse_freq = 32768, hse_freq = 25000000, pll_prediv = 25, pll_mul = 336, pll_divp = 2, pll_divq = 7,
     ahb_pre = 1, apb1_pre = 4, apb2_pre = 2\<rparr>"

text \<open>The clock tree of the device (its reference manual): the VCO runs at the divided input times the
  multiplier; the timers of a bus whose prescaler is not 1 run at twice its clock.\<close>

record clocks =
  vco :: nat
  sys :: nat
  hclk :: nat
  pclk1 :: nat
  pclk1_tim :: nat
  pclk2 :: nat
  pclk2_tim :: nat
  pll1_q :: nat

definition clock_tree :: "rcc_config \<Rightarrow> clocks" where
  "clock_tree c =
     (let v = hse_freq c div pll_prediv c * pll_mul c; s = v div pll_divp c; h = s div ahb_pre c;
          tim = (\<lambda>pre. if pre = 1 then h div pre else 2 * (h div pre)) in
      \<lparr>vco = v, sys = s, hclk = h, pclk1 = h div apb1_pre c, pclk1_tim = tim (apb1_pre c),
       pclk2 = h div apb2_pre c, pclk2_tim = tim (apb2_pre c), pll1_q = v div pll_divq c\<rparr>)"

text \<open>The configuration gives the clocks that the comment beside it lists, within the limits of the
  device (input of the PLL 1 to 2 MHz, VCO 100 to 432 MHz, 168, 42 and 84 MHz on the buses).\<close>

lemma clocks_as_listed:
  "clock_tree peripherals_config = \<lparr>vco = 336000000, sys = 168000000, hclk = 168000000, pclk1 = 42000000, pclk1_tim = 84000000,
     pclk2 = 84000000, pclk2_tim = 168000000, pll1_q = 48000000\<rparr> \<and>
   hse_freq peripherals_config div pll_prediv peripherals_config \<in> {1000000..2000000} \<and>
   vco (clock_tree peripherals_config) \<in> {100000000..432000000}"
  by (simp add: clock_tree_def peripherals_config_def Let_def)

section \<open>The serial port\<close>

text \<open>\<open>rs485\<close>: the rate from the environment; the driver's constructor, a parameter, may refuse it.\<close>

definition rs485 :: "(u32 \<Rightarrow> 's option) \<Rightarrow> bytes \<Rightarrow> (unit, 's) outcome" where
  "rs485 uart_new RS485BAUD =
     bind_outcome (unwrap_option (parse_unsigned (2 ^ 32 - 1) RS485BAUD)) (\<lambda>baudrate.
       unwrap_option (uart_new (of_nat baudrate)))"

lemma rs485_decimal:
  assumes "n < 2 ^ 32" "uart_new (of_nat n) = Some s"
  shows "rs485 uart_new (decimal n) = Ok s"
proof -
  have "parse_unsigned (2 ^ 32 - 1) (decimal n) = Some n" using assms(1) by (intro parse_unsigned_decimal) simp
  then show ?thesis using assms(2) by (simp add: rs485_def del: power_numeral)
qed

section \<open>Network and CAN set-up\<close>

definition MAC_ADDR :: bytes where "MAC_ADDR = [0x00, 0x01, 0xDE, 0xAD, 0xBE, 0xEF]"

text \<open>The seed and the configuration that \<open>get_eth\<close> hands to the network stack.\<close>

definition get_eth :: "(string \<Rightarrow> 'a option) \<Rightarrow> net_config \<Rightarrow> (stm_error, 'a stack_config \<times> u64) outcome" where
  "get_eth from_str nc =
     (let seed = replicate 8 (0 :: u8); seed = le_word seed in
      bind_outcome (net_get_config from_str nc) (\<lambda>netconfig. Ok (netconfig, seed)))"

text \<open>The seed is meant to be random (the comment says so); it is 0 on every device and at every start.\<close>

lemma get_eth_seed: "get_eth from_str nc = Ok (conf, seed) \<Longrightarrow> seed = 0"
  by (auto simp: get_eth_def Let_def bind_outcome_Ok_iff numeral_eq_Suc)

datatype can_filter = Frames_with_ext_id u32 u32 | Accept_all

text \<open>The filter of the peripheral: an extended frame whose identifier agrees with the filter's on
  every bit of the mask.\<close>

fun filter_accepts :: "can_filter \<Rightarrow> can_id \<Rightarrow> bool" where
  "filter_accepts Accept_all i = True"
| "filter_accepts (Frames_with_ext_id i m) (Extended j) = (j AND m = i AND m)"
| "filter_accepts (Frames_with_ext_id i m) (Standard j) = False"

text \<open>\<open>can1_init\<close>: the filters of the battery and of the inverter side.\<close>

definition can1_filters :: "feature set \<Rightarrow> can_filter \<times> can_filter" where
  "can1_filters fs =
     (if F_ze50 \<in> fs then Frames_with_ext_id 0x18DAF1DB 0x1ffffff else Accept_all, Accept_all)"

text \<open>The mask has 25 bits and not the 29 of an identifier, so sixteen identifiers pass the filter of
  the ZE50 build.\<close>

lemma ze50_filter_identifiers:
  assumes "F_ze50 \<in> fs"
  shows "filter_accepts (fst (can1_filters fs)) (Extended (0xDAF1DB OR push_bit 25 k))"
proof -
  have m: "(0x1ffffff :: u32) = mask 25" by (simp add: mask_eq_exp_minus_1)
  have "(0xDAF1DB OR push_bit 25 k) AND mask 25 = (0xDAF1DB AND mask 25 :: u32) OR take_bit 25 (push_bit 25 k)"
    by (simp add: bit.conj_disj_distrib2 take_bit_eq_mask)
  also have "\<dots> = 0xDAF1DB" by (simp add: take_bit_push_bit flip: m)
  finally show ?thesis using assms by (simp add: can1_filters_def m [symmetric])
qed

section \<open>The time zone of the build\<close>

definition tz_code :: "string option \<Rightarrow> string option" where
  "tz_code env =
     (let timezone = (case env of None \<Rightarrow> ''Europe/London'' | Some t \<Rightarrow> t) in
      if timezone = ''UTC'' then Some ''chrono_tz::UTC''
      else if timezone = ''GMT'' then Some ''chrono_tz::GMT''
      else if timezone = ''America/New_York'' then Some ''chrono_tz::America::New_York''
      else if timezone = ''America/Los_Angeles'' then Some ''chrono_tz::America::Los_Angeles''
      else if timezone = ''America/Chicago'' then Some ''chrono_tz::America::Chicago''
      else if timezone = ''America/Denver'' then Some ''chrono_tz::America::Denver''
      else if timezone = ''Europe/London'' then Some ''chrono_tz::Europe::London''
      else if timezone = ''Europe/Berlin'' then Some ''chrono_tz::Europe::Berlin''
      else if timezone = ''Europe/Paris'' then Some ''chrono_tz::Europe::Paris''
      else if timezone = ''Europe/Moscow'' then Some ''chrono_tz::Europe::Moscow''
      else if timezone = ''Europe/Rome'' then Some ''chrono_tz::Europe::Rome''
      else None)"

end
