(* ===== verification/Modbus.thy ===== *)
theory Modbus
  imports Board
begin

text \<open>
  The Modbus gateway (tasks/modbus: models.rs, conversions.rs, flow.rs, error.rs and
  modbus_tcp_gateway.rs) between a serial line that speaks Modbus RTU and a TCP peer, in both builds:
  \<open>modbus_client\<close> (serial master, TCP server) and \<open>modbus_bridge\<close> (TCP master, serial slave).

  One record holds the state of both sides and the transaction counter; an operation threads it and
  returns a value, a \<open>ModbusError\<close> or a panic. The serial port, the TCP socket and the CRC of the
  \<open>crc16\<close> crate are parameters. An await that never completes is ended by the timeout of
  \<open>modbus_task\<close>, which is an event of its own.
\<close>

text \<open>The errors of connecting are those of the network stack (\<open>embassy_net::tcp::ConnectError\<close>).\<close>

datatype connect_error = InvalidState | ConnectionReset | TimedOut | NoRoute

datatype modbus_error = RtuError | TcpError | SliceError | Push | RtuTimeout | RtuRxFail | CrcRx
  | ReadExactError | TcpRxFail nat | RtuIlligal | TcpConnect connect_error | TcpAccept | InvalidTransactionId
  | RtuPayloadTooShort | InvalidFilter | ConversionSlice

definition MODBUS_VEC_SIZE :: nat where "MODBUS_VEC_SIZE = 512"
definition MODBUS_TCP_REQ_VEC_SIZE :: nat where "MODBUS_TCP_REQ_VEC_SIZE = 12"
definition MODBUS_RTU_REQ_VEC_SIZE :: nat where "MODBUS_RTU_REQ_VEC_SIZE = 8"
definition MODBUS_PROTO :: bytes where "MODBUS_PROTO = [0, 0]"

section \<open>State and devices\<close>

record ('s, 't) gateway =
  counter :: u16
  serial :: 's
  tx_en :: bool
  rtu_request :: bytes
  rtu_response :: bytes
  socket :: 't
  tcp_request :: bytes
  tcp_response :: bytes
  led :: "led_command option"

text \<open>A failed operation gives None (or False). \<open>ser_read n\<close> fills \<open>n\<close> bytes; \<open>ser_read_until_idle\<close>
  and \<open>tcp_read\<close> give at most \<open>n\<close>, possibly none; \<open>tcp_read_exact\<close> gives \<open>n\<close>.\<close>

record ('s, 't) modbus_dev =
  ser_read :: "nat \<Rightarrow> 's \<Rightarrow> bytes option \<times> 's"
  ser_read_until_idle :: "nat \<Rightarrow> 's \<Rightarrow> bytes option \<times> 's"
  ser_write :: "bytes \<Rightarrow> 's \<Rightarrow> bool \<times> 's"
  ser_flush :: "'s \<Rightarrow> bool \<times> 's"
  tcp_read :: "nat \<Rightarrow> 't \<Rightarrow> bytes option \<times> 't"
  tcp_read_exact :: "nat \<Rightarrow> 't \<Rightarrow> bytes option \<times> 't"
  tcp_write :: "bytes \<Rightarrow> 't \<Rightarrow> bool \<times> 't"
  crc16 :: "bytes \<Rightarrow> u16"

type_synonym ('s, 't, 'a) mop = "(('s, 't) gateway, modbus_error, 'a) op"

definition modify :: "(('s, 't) gateway \<Rightarrow> ('s, 't) gateway) \<Rightarrow> ('s, 't, unit) mop" where
  "modify f = (\<lambda>g. (Ok (), f g))"

definition gets :: "(('s, 't) gateway \<Rightarrow> 'a) \<Rightarrow> ('s, 't, 'a) mop" where
  "gets f = (\<lambda>g. (Ok (f g), g))"

definition serial_unit :: "modbus_error \<Rightarrow> ('s \<Rightarrow> bool \<times> 's) \<Rightarrow> ('s, 't, unit) mop" where
  "serial_unit e f = (\<lambda>g. let (ok, s) = f (serial g) in (if ok then Ok () else Err e, g\<lparr>serial := s\<rparr>))"

definition serial_bytes :: "modbus_error \<Rightarrow> ('s \<Rightarrow> bytes option \<times> 's) \<Rightarrow> ('s, 't, bytes) mop" where
  "serial_bytes e f = (\<lambda>g. let (r, s) = f (serial g) in
     (case r of Some bs \<Rightarrow> Ok bs | None \<Rightarrow> Err e, g\<lparr>serial := s\<rparr>))"

definition socket_bytes :: "modbus_error \<Rightarrow> ('t \<Rightarrow> bytes option \<times> 't) \<Rightarrow> ('s, 't, bytes) mop" where
  "socket_bytes e f = (\<lambda>g. let (r, s) = f (socket g) in
     (case r of Some bs \<Rightarrow> Ok bs | None \<Rightarrow> Err e, g\<lparr>socket := s\<rparr>))"

lemma mop_simps [simp]:
  "modify f g = (Ok (), f g)" "gets h g = (Ok (h g), g)"
  by (simp_all add: modify_def gets_def)

section \<open>Transaction identifiers and checksums\<close>

text \<open>The compare-and-exchange loop succeeds at once: one task uses the counter.\<close>

definition increment_transaction_id :: "('s, 't, u16) mop" where
  "increment_transaction_id = (\<lambda>g.
     let current = counter g in
     if current = 0xffff then (Ok 0, g\<lparr>counter := 0\<rparr>)
     else (Ok (current + 1), g\<lparr>counter := current + 1\<rparr>))"

definition get_transaction_id :: "('s, 't, u16) mop" where
  "get_transaction_id = gets counter"

definition set_transaction_id :: "u16 \<Rightarrow> ('s, 't, unit) mop" where
  "set_transaction_id v = modify (\<lambda>g. g\<lparr>counter := v\<rparr>)"

definition create_crc :: "('s, 't) modbus_dev \<Rightarrow> bytes \<Rightarrow> bytes" where
  "create_crc D s = u16_to_le (crc16 D s)"

definition crc_check :: "('s, 't) modbus_dev \<Rightarrow> bytes \<Rightarrow> ('s, 't, unit) mop" where
  "crc_check D payload =
     (if length payload < 4 then throw RtuRxFail
      else
        let response = take (length payload - 2) payload; check = drop (length payload - 2) payload;
            calc_crc = u16_to_le (crc16 D response) in
        if check = calc_crc then ret () else throw CrcRx)"

text \<open>\<open>s.get(2)\<close>, then an addition of \<open>u8\<close> that wraps, then \<open>as usize\<close>.\<close>

definition payload_length :: "bytes \<Rightarrow> nat option" where
  "payload_length s = map_option (\<lambda>bytes_len. unat (bytes_len + 2)) (index s 2)"

definition MODBUS_ERROR_VAL :: u8 where "MODBUS_ERROR_VAL = 80"

definition is_rtu_error :: "bytes \<Rightarrow> bool" where
  "is_rtu_error s = (case index s 2 of Some v \<Rightarrow> MODBUS_ERROR_VAL \<le> v | None \<Rightarrow> False)"

section \<open>Conversions\<close>

text \<open>\<open>Vec::extend\<close> panics when the vector is full; \<open>extend_from_slice\<close> reports it.\<close>

definition vec_extend :: "nat \<Rightarrow> bytes \<Rightarrow> bytes \<Rightarrow> ('s, 't, bytes) mop" where
  "vec_extend cap xs ys = (if length xs + length ys \<le> cap then ret (xs @ ys) else panic)"

definition extend_or :: "modbus_error \<Rightarrow> nat \<Rightarrow> bytes \<Rightarrow> bytes \<Rightarrow> ('s, 't, bytes) mop" where
  "extend_or e cap xs ys = (case vec_extend_from_slice cap xs ys of Some zs \<Rightarrow> ret zs | None \<Rightarrow> throw e)"

text \<open>The header both TCP-bound conversions write: identifier, protocol, length, then the payload.\<close>

definition mbap_frame :: "nat \<Rightarrow> u16 \<Rightarrow> bytes \<Rightarrow> ('s, 't, bytes) mop" where
  "mbap_frame cap tid payload =
     andq (vec_extend cap [] (u16_to_be tid)) (\<lambda>o1.
     andq (vec_extend cap o1 MODBUS_PROTO) (\<lambda>o2.
     andq (vec_extend cap o2 (u16_to_be (of_nat (length payload)))) (\<lambda>o3.
     extend_or ConversionSlice cap o3 payload)))"

definition convert_rtu_request_payload_to_tcp_request_payload :: "bytes \<Rightarrow> ('s, 't, bytes) mop" where
  "convert_rtu_request_payload_to_tcp_request_payload input =
     (if length input < 4 then throw RtuPayloadTooShort
      else andq increment_transaction_id (\<lambda>new_transaction_id.
        mbap_frame MODBUS_TCP_REQ_VEC_SIZE new_transaction_id (take (length input - 2) input)))"

definition with_crc :: "('s, 't) modbus_dev \<Rightarrow> nat \<Rightarrow> bytes \<Rightarrow> ('s, 't, bytes) mop" where
  "with_crc D cap pdu =
     andq (extend_or ConversionSlice cap [] pdu) (\<lambda>out. extend_or ConversionSlice cap out (create_crc D pdu))"

definition convert_tcp_reponse_payload_to_rtu_response_payload :: "('s, 't) modbus_dev \<Rightarrow> bytes \<Rightarrow> ('s, 't, bytes) mop" where
  "convert_tcp_reponse_payload_to_rtu_response_payload D input =
     (if length input < 7 then throw (TcpRxFail (length input))
      else
        let mbap = take 6 input; pdu = drop 6 input in
        andq get_transaction_id (\<lambda>tid.
          if Some tid \<noteq> u16_from_be [mbap ! 0, mbap ! 1] then throw InvalidTransactionId
          else
            let len = unat (input ! 5) in
            case slice pdu 0 len of
              None \<Rightarrow> panic
            | Some pdu' \<Rightarrow> with_crc D MODBUS_VEC_SIZE pdu'))"

definition convert_tcp_request_payload_to_rtu_request_payload :: "('s, 't) modbus_dev \<Rightarrow> bytes \<Rightarrow> ('s, 't, bytes) mop" where
  "convert_tcp_request_payload_to_rtu_request_payload D input =
     (if length input < 7 then throw (TcpRxFail (length input))
      else
        let mbap = take 6 input; pdu = drop 6 input in
        case u16_from_be [mbap ! 0, mbap ! 1] of
          None \<Rightarrow> panic
        | Some v \<Rightarrow> thenq (set_transaction_id v) (with_crc D MODBUS_RTU_REQ_VEC_SIZE pdu))"

definition convert_rtu_reponse_payload_to_tcp_response_payload :: "bytes \<Rightarrow> ('s, 't, bytes) mop" where
  "convert_rtu_reponse_payload_to_tcp_response_payload input =
     andq get_transaction_id (\<lambda>tid.
       if length input < 2 then panic
       else mbap_frame MODBUS_VEC_SIZE tid (take (length input - 2) input))"

section \<open>The serial side\<close>

definition rtu_transmit :: "('s, 't) modbus_dev \<Rightarrow> bytes \<Rightarrow> ('s, 't, unit) mop" where
  "rtu_transmit D payload =
     thenq (serial_unit RtuError (ser_flush D))
     (thenq (modify (\<lambda>g. g\<lparr>tx_en := True\<rparr>))
     (thenq (serial_unit RtuError (ser_write D payload))
     (thenq (serial_unit RtuError (ser_flush D))
     (modify (\<lambda>g. g\<lparr>tx_en := False\<rparr>)))))"

definition rtu_listen :: "('s, 't) modbus_dev \<Rightarrow> ('s, 't, unit) mop" where
  "rtu_listen D =
     thenq (modify (\<lambda>g. g\<lparr>rtu_request := []\<rparr>))
     (andq (serial_bytes RtuError (ser_read D 8)) (\<lambda>buf.
      andq (vec_extend MODBUS_RTU_REQ_VEC_SIZE [] buf) (\<lambda>r.
      thenq (modify (\<lambda>g. g\<lparr>rtu_request := r\<rparr>)) (crc_check D r))))"

text \<open>The loop of \<open>receive\<close>: one byte at a time; \<open>.and(..)\<close> pushes also after a failed read, and
  a read of nothing pushes the byte left in the buffer.\<close>

fun rtu_receive_loop :: "('s, 't) modbus_dev \<Rightarrow> nat \<Rightarrow> u8 \<Rightarrow> ('s, 't, unit) mop" where
  "rtu_receive_loop D 0 b g = (Ok (), g)"
| "rtu_receive_loop D (Suc n) b g =
     (let (r, s) = ser_read_until_idle D 1 (serial g);
          b' = (case r of Some (x # _) \<Rightarrow> x | _ \<Rightarrow> b);
          full = (length (rtu_response g) \<ge> MODBUS_VEC_SIZE);
          g' = g\<lparr>serial := s, rtu_response := vec_push MODBUS_VEC_SIZE (rtu_response g) b'\<rparr> in
      if r = None then (Err RtuRxFail, g')
      else if full then (Err Push, g')
      else rtu_receive_loop D n b' g')"

definition rtu_receive :: "('s, 't) modbus_dev \<Rightarrow> ('s, 't, unit) mop" where
  "rtu_receive D =
     thenq (modify (\<lambda>g. g\<lparr>rtu_response := []\<rparr>))
     (andq (serial_bytes RtuError (ser_read D 3)) (\<lambda>buf.
      case payload_length buf of
        None \<Rightarrow> throw RtuPayloadTooShort
      | Some pll \<Rightarrow>
          andq (vec_extend MODBUS_VEC_SIZE [] buf) (\<lambda>r.
          thenq (modify (\<lambda>g. g\<lparr>rtu_response := r\<rparr>))
          (thenq (rtu_receive_loop D pll 0)
          (andq (gets rtu_response) (crc_check D))))))"

definition rtu_send_and_receive :: "('s, 't) modbus_dev \<Rightarrow> bytes \<Rightarrow> ('s, 't, unit) mop" where
  "rtu_send_and_receive D rtu_req =
     thenq (modify (\<lambda>g. g\<lparr>rtu_response := []\<rparr>)) (thenq (rtu_transmit D rtu_req) (rtu_receive D))"

section \<open>The TCP side\<close>

definition tcp_transmit :: "('s, 't) modbus_dev \<Rightarrow> bytes \<Rightarrow> ('s, 't, unit) mop" where
  "tcp_transmit D payload = (\<lambda>g. let (ok, s) = tcp_write D payload (socket g) in
     (if ok then Ok () else Err TcpError, g\<lparr>socket := s\<rparr>))"

definition tcp_listen :: "('s, 't) modbus_dev \<Rightarrow> ('s, 't, unit) mop" where
  "tcp_listen D =
     thenq (modify (\<lambda>g. g\<lparr>tcp_request := []\<rparr>))
     (andq (socket_bytes ReadExactError (tcp_read_exact D 12)) (\<lambda>buf.
      andq (vec_extend MODBUS_TCP_REQ_VEC_SIZE [] buf) (\<lambda>r.
      modify (\<lambda>g. g\<lparr>tcp_request := r\<rparr>))))"

text \<open>\<open>read\<close> into an array keeps the old contents after the bytes it got.\<close>

definition fill :: "bytes \<Rightarrow> bytes \<Rightarrow> bytes" where
  "fill buf chunk = chunk @ drop (length chunk) buf"

fun tcp_receive_loop :: "('s, 't) modbus_dev \<Rightarrow> nat \<Rightarrow> u8 \<Rightarrow> ('s, 't, unit) mop" where
  "tcp_receive_loop D 0 b g = (Ok (), g)"
| "tcp_receive_loop D (Suc n) b g =
     (case tcp_read D 1 (socket g) of
        (None, s) \<Rightarrow> (Err TcpError, g\<lparr>socket := s\<rparr>)
      | (Some chunk, s) \<Rightarrow>
          let b' = (case chunk of x # _ \<Rightarrow> x | [] \<Rightarrow> b); g' = g\<lparr>socket := s\<rparr> in
          if length (tcp_response g) \<ge> MODBUS_VEC_SIZE then (Err Push, g')
          else tcp_receive_loop D n b' (g'\<lparr>tcp_response := tcp_response g @ [b']\<rparr>))"

definition tcp_receive :: "('s, 't) modbus_dev \<Rightarrow> ('s, 't, nat) mop" where
  "tcp_receive D =
     thenq (modify (\<lambda>g. g\<lparr>tcp_response := []\<rparr>))
     (andq (socket_bytes TcpError (tcp_read D 6)) (\<lambda>chunk.
      let buf = fill (replicate 6 0) chunk in
      andq (vec_extend MODBUS_VEC_SIZE [] buf) (\<lambda>r.
      thenq (modify (\<lambda>g. g\<lparr>tcp_response := r\<rparr>))
      (case u16_from_be [buf ! 4, buf ! 5] of
         None \<Rightarrow> panic
       | Some bytes_len \<Rightarrow>
           thenq (tcp_receive_loop D (unat bytes_len) 0) (gets (\<lambda>g. length (tcp_response g)))))))"

definition tcp_send_and_receive :: "('s, 't) modbus_dev \<Rightarrow> bytes \<Rightarrow> ('s, 't, unit) mop" where
  "tcp_send_and_receive D payload =
     thenq (modify (\<lambda>g. g\<lparr>tcp_response := []\<rparr>))
     (thenq (tcp_transmit D payload) (andq (tcp_receive D) (\<lambda>_. ret ())))"

section \<open>The flow of one request\<close>

text \<open>\<open>LED_COMMAND\<close> holds one command: a new one replaces one that the LED task has not taken yet. As a flow ends without
  waiting and the next one begins with \<open>Off\<close>, the LED task never sees the \<open>On\<close> of a flow that is followed by
  another.\<close>

definition signal_led :: "led_command \<Rightarrow> ('s, 't, unit) mop" where
  "signal_led c = modify (\<lambda>g. g\<lparr>led := Some c\<rparr>)"

definition process_flow_client :: "('s, 't) modbus_dev \<Rightarrow> ('s, 't, unit) mop" where
  "process_flow_client D =
     thenq (signal_led (Off Led3))
     (thenq (rtu_listen D)
     (andq (andq (gets rtu_request) convert_rtu_request_payload_to_tcp_request_payload) (\<lambda>tcp_payload.
      thenq (tcp_send_and_receive D tcp_payload)
     (andq (andq (gets tcp_response) (convert_tcp_reponse_payload_to_rtu_response_payload D)) (\<lambda>rtu_send.
      thenq (rtu_transmit D rtu_send)
     (signal_led (On Led3)))))))"

definition process_flow_bridge :: "('s, 't) modbus_dev \<Rightarrow> ('s, 't, unit) mop" where
  "process_flow_bridge D =
     thenq (signal_led (Off Led3))
     (thenq (tcp_listen D)
     (andq (andq (gets tcp_request) (convert_tcp_request_payload_to_rtu_request_payload D)) (\<lambda>rtu_req.
      thenq (rtu_send_and_receive D rtu_req)
     (andq (andq (gets rtu_response) convert_rtu_reponse_payload_to_tcp_response_payload) (\<lambda>tcp_send.
      thenq (tcp_transmit D tcp_send)
     (signal_led (On Led3)))))))"

text \<open>The inner loop of \<open>modbus_task\<close>: whether the connection is kept after one flow.\<close>

datatype flow_event = Flow_done "(modbus_error, unit) outcome" | Flow_timeout

fun keep_connection :: "flow_event \<Rightarrow> bool" where
  "keep_connection (Flow_done (Ok _)) = True"
| "keep_connection (Flow_done (Err (TcpRxFail c))) = False"
| "keep_connection (Flow_done (Err ReadExactError)) = False"
| "keep_connection (Flow_done (Err e)) = True"
| "keep_connection (Flow_done Panic) = False"
| "keep_connection Flow_timeout = False"

section \<open>Round trip through two gateways\<close>

lemma u16_from_be_nth: "u16_from_be [u16_to_be t ! 0, u16_to_be t ! 1] = Some t"
  using u16_be_roundtrip [of t] by (simp add: u16_to_be_def)

lemma mbap_frame_fits:
  "6 + length payload \<le> cap \<Longrightarrow>
   mbap_frame cap tid payload g = (Ok (u16_to_be tid @ [0, 0] @ u16_to_be (of_nat (length payload)) @ payload), g)"
  by (simp add: mbap_frame_def vec_extend_def extend_or_def vec_extend_from_slice_def MODBUS_PROTO_def)

lemma with_crc_fits:
  "length pdu + 2 \<le> cap \<Longrightarrow> with_crc D cap pdu g = (Ok (pdu @ create_crc D pdu), g)"
  by (simp add: with_crc_def extend_or_def vec_extend_from_slice_def create_crc_def)

lemma increment_adds_one: "increment_transaction_id g = (Ok (counter g + 1), g\<lparr>counter := counter g + 1\<rparr>)"
  by (auto simp: increment_transaction_id_def Let_def)

lemma crc_check_Ok_iff:
  "crc_check D r g = (Ok (), g') \<longleftrightarrow>
     g' = g \<and> 4 \<le> length r \<and> r = take (length r - 2) r @ create_crc D (take (length r - 2) r)"
proof -
  have "r = take (length r - 2) r @ ys \<longleftrightarrow> drop (length r - 2) r = ys" for ys
    by (metis append_take_drop_id same_append_eq)
  then show ?thesis by (auto simp: crc_check_def create_crc_def Let_def)
qed

lemma request_conversions:
  fixes g h :: "('s, 't) gateway"
  assumes "crc_check D r g0 = (Ok (), g0)" "length r \<le> 8"
  defines "tcp \<equiv> u16_to_be (counter g + 1) @ [0, 0] @ u16_to_be (of_nat (length r - 2)) @ take (length r - 2) r"
  shows "convert_rtu_request_payload_to_tcp_request_payload r g = (Ok tcp, g\<lparr>counter := counter g + 1\<rparr>)"
    and "convert_tcp_request_payload_to_rtu_request_payload D tcp h = (Ok r, h\<lparr>counter := counter g + 1\<rparr>)"
proof -
  have c: "4 \<le> length r" "r = take (length r - 2) r @ create_crc D (take (length r - 2) r)"
    using assms(1) by (simp_all add: crc_check_Ok_iff)
  show "convert_rtu_request_payload_to_tcp_request_payload r g = (Ok tcp, g\<lparr>counter := counter g + 1\<rparr>)"
    using c(1) assms(2)
    by (simp add: convert_rtu_request_payload_to_tcp_request_payload_def andq_Ok [OF increment_adds_one]
        mbap_frame_fits MODBUS_TCP_REQ_VEC_SIZE_def tcp_def)
  have "u16_from_be [tcp ! 0, tcp ! 1] = Some (counter g + 1)" "drop 6 tcp = take (length r - 2) r" "7 \<le> length tcp"
    using c(1) u16_from_be_nth [of "counter g + 1"] by (simp_all add: tcp_def nth_append)
  then show "convert_tcp_request_payload_to_rtu_request_payload D tcp h = (Ok r, h\<lparr>counter := counter g + 1\<rparr>)"
    using c assms(2)
    by (simp add: convert_tcp_request_payload_to_rtu_request_payload_def set_transaction_id_def andq_def
        with_crc_fits MODBUS_RTU_REQ_VEC_SIZE_def)
qed

lemma response_to_tcp:
  "2 \<le> length x \<Longrightarrow> length x \<le> 508 \<Longrightarrow> convert_rtu_reponse_payload_to_tcp_response_payload x h =
     (Ok (u16_to_be (counter h) @ [0, 0] @ u16_to_be (of_nat (length x - 2)) @ take (length x - 2) x), h)"
  by (simp add: convert_rtu_reponse_payload_to_tcp_response_payload_def get_transaction_id_def andq_def
      mbap_frame_fits MODBUS_VEC_SIZE_def)

lemma response_conversions:
  assumes "crc_check D x g0 = (Ok (), g0)" "length x \<le> 257" "counter g = counter h"
  defines "tcp \<equiv> u16_to_be (counter h) @ [0, 0] @ u16_to_be (of_nat (length x - 2)) @ take (length x - 2) x"
  shows "convert_rtu_reponse_payload_to_tcp_response_payload x h = (Ok tcp, h)"
    and "convert_tcp_reponse_payload_to_rtu_response_payload D tcp g = (Ok x, g)"
proof -
  have c: "4 \<le> length x" "x = take (length x - 2) x @ create_crc D (take (length x - 2) x)"
    using assms(1) by (simp_all add: crc_check_Ok_iff)
  show "convert_rtu_reponse_payload_to_tcp_response_payload x h = (Ok tcp, h)"
    using c(1) assms(2) by (simp add: response_to_tcp tcp_def)
  have l: "unat (tcp ! 5) = length x - 2"
    using assms(2) by (simp add: tcp_def nth_append u16_to_be_def unsigned_ucast_eq unsigned_take_bit_eq
        unsigned_of_nat take_bit_nat_eq_self)
  have "u16_from_be [tcp ! 0, tcp ! 1] = Some (counter g)" "drop 6 tcp = take (length x - 2) x" "7 \<le> length tcp"
    using c(1) u16_from_be_nth [of "counter h"] assms(3) by (simp_all add: tcp_def nth_append)
  moreover have "slice (take (length x - 2) x) 0 (length x - 2) = Some (take (length x - 2) x)"
    by (simp add: slice_def)
  ultimately show "convert_tcp_reponse_payload_to_rtu_response_payload D tcp g = (Ok x, g)"
    using c assms(2) l
    by (simp add: convert_tcp_reponse_payload_to_rtu_response_payload_def get_transaction_id_def andq_def
        with_crc_fits MODBUS_VEC_SIZE_def Let_def)
qed

text \<open>
  C8. Two gateways back to back are transparent. A request of at most eight bytes with a correct
  checksum, converted to TCP by one gateway and back by the other, is the original frame, and
  both then hold the same fresh transaction identifier; the response converted by the second and
  taken back by the first is again the slave's frame, up to 257 bytes. The identifiers wrap
  around at 65535.
\<close>

theorem modbus_gateways_transparent:
  assumes "crc_check D r k = (Ok (), k)" "length r \<le> 8" "crc_check D x k = (Ok (), k)" "length x \<le> 257"
  shows "\<exists>tcp tcp'.
    convert_rtu_request_payload_to_tcp_request_payload r g = (Ok tcp, g\<lparr>counter := counter g + 1\<rparr>) \<and>
    convert_tcp_request_payload_to_rtu_request_payload D tcp h = (Ok r, h\<lparr>counter := counter g + 1\<rparr>) \<and>
    convert_rtu_reponse_payload_to_tcp_response_payload x (h\<lparr>counter := counter g + 1\<rparr>) =
      (Ok tcp', h\<lparr>counter := counter g + 1\<rparr>) \<and>
    convert_tcp_reponse_payload_to_rtu_response_payload D tcp' (g\<lparr>counter := counter g + 1\<rparr>) =
      (Ok x, g\<lparr>counter := counter g + 1\<rparr>)"
  using request_conversions(1) [where g = g, OF assms(1,2)]
    request_conversions(2) [where g = g and h = h, OF assms(1,2)]
    response_conversions [where g = "g\<lparr>counter := counter g + 1\<rparr>" and h = "h\<lparr>counter := counter g + 1\<rparr>",
      OF assms(3,4)]
  by auto

text \<open>Devices with byte lists, and the sum of the bytes for a checksum.\<close>

definition sample_dev :: "(bytes, bytes \<times> bytes) modbus_dev" where
  "sample_dev =
    \<lparr>ser_read = (\<lambda>n s. if n \<le> length s then (Some (take n s), drop n s) else (None, s)),
     ser_read_until_idle = (\<lambda>n s. (Some (take n s), drop n s)),
     ser_write = (\<lambda>p s. (True, let r = [1, 3, 2, 7, 8] in r @ u16_to_le (of_nat (sum_list (map unat r))))),
     ser_flush = (\<lambda>s. (True, s)),
     tcp_read = (\<lambda>n t. (Some (take n (fst t)), (drop n (fst t), snd t))),
     tcp_read_exact = (\<lambda>n t. if n \<le> length (fst t) then (Some (take n (fst t)), (drop n (fst t), snd t)) else (None, t)),
     tcp_write = (\<lambda>p t. (True, (fst t, snd t @ p))),
     crc16 = (\<lambda>bs. of_nat (sum_list (map unat bs)))\<rparr>"

definition sample_gateway :: "(bytes, bytes \<times> bytes) gateway" where
  "sample_gateway = \<lparr>counter = 0xffff, serial = [], tx_en = False, rtu_request = [], rtu_response = [],
     socket = ([0, 9, 0, 0, 0, 6, 1, 3, 0, 0, 0, 1], []), tcp_request = [], tcp_response = [], led = None\<rparr>"

theorem modbus_gateways_transparent_witness:
  "\<exists>tcp. convert_rtu_request_payload_to_tcp_request_payload [1, 3, 0, 0, 0, 1, 5, 0] sample_gateway =
     (Ok tcp, sample_gateway\<lparr>counter := 0\<rparr>)"
proof -
  have "crc_check sample_dev [1, 3, 0, 0, 0, 1, 5, 0] sample_gateway = (Ok (), sample_gateway)"
    "crc_check sample_dev [1, 3, 2, 7, 8, 21, 0] sample_gateway = (Ok (), sample_gateway)"
    by (simp_all add: crc_check_def sample_dev_def u16_to_le_def u16_to_be_def)
  from modbus_gateways_transparent [OF this(1) _ this(2), of sample_gateway sample_gateway]
  show ?thesis by (auto simp: sample_gateway_def)
qed

section \<open>The driver-enable pin\<close>

text \<open>
  A transmission that succeeds releases the line driver. One that fails does so only when it
  failed before the driver was enabled: a failing write or second flush leaves the RS485 driver
  enabled, and the error says nothing of it.
\<close>

theorem rtu_transmit_driver:
  "case rtu_transmit D p g of
     (Ok _, g') \<Rightarrow> \<not> tx_en g'
   | (Err e, g') \<Rightarrow> e = RtuError \<and> tx_en g' = (fst (ser_flush D (serial g)) \<or> tx_en g)
   | (Panic, g') \<Rightarrow> False"
  by (auto simp: rtu_transmit_def serial_unit_def andq_def Let_def split: prod.splits outcome.splits if_splits)

section \<open>A request through the bridge\<close>

text \<open>A slave that answers every frame written to it, and a TCP peer that delivers its request
  whole and takes what is written: \<open>content\<close> is what the serial port has still to deliver,
  \<open>pending\<close> and \<open>sent\<close> are the two directions of the socket.\<close>

definition serial_slave :: "('s, 't) modbus_dev \<Rightarrow> ('s \<Rightarrow> bytes) \<Rightarrow> (bytes \<Rightarrow> bytes) \<Rightarrow> bool" where
  "serial_slave D content reply \<longleftrightarrow>
     (\<forall>s n. n \<le> length (content s) \<longrightarrow>
        (\<exists>s'. ser_read D n s = (Some (take n (content s)), s') \<and> content s' = drop n (content s))) \<and>
     (\<forall>s x xs. content s = x # xs \<longrightarrow> (\<exists>s'. ser_read_until_idle D 1 s = (Some [x], s') \<and> content s' = xs)) \<and>
     (\<forall>s. \<exists>s'. ser_flush D s = (True, s') \<and> content s' = content s) \<and>
     (\<forall>s p. \<exists>s'. ser_write D p s = (True, s') \<and> content s' = reply p)"

definition tcp_master :: "('s, 't) modbus_dev \<Rightarrow> ('t \<Rightarrow> bytes) \<Rightarrow> ('t \<Rightarrow> bytes) \<Rightarrow> bool" where
  "tcp_master D pending sent \<longleftrightarrow>
     (\<forall>t n. n \<le> length (pending t) \<longrightarrow>
        (\<exists>t'. tcp_read_exact D n t = (Some (take n (pending t)), t') \<and> pending t' = drop n (pending t) \<and> sent t' = sent t)) \<and>
     (\<forall>t p. \<exists>t'. tcp_write D p t = (True, t') \<and> pending t' = pending t \<and> sent t' = sent t @ p)"

lemma transmit_to_slave:
  assumes "serial_slave D content reply"
  shows "\<exists>s'. rtu_transmit D p g = (Ok (), g\<lparr>serial := s', tx_en := False\<rparr>) \<and> content s' = reply p"
proof -
  obtain s1 where s1: "ser_flush D (serial g) = (True, s1)" using assms unfolding serial_slave_def by metis
  obtain s2 where s2: "ser_write D p s1 = (True, s2)" "content s2 = reply p"
    using assms unfolding serial_slave_def by metis
  obtain s3 where s3: "ser_flush D s2 = (True, s3)" "content s3 = content s2"
    using assms unfolding serial_slave_def by metis
  show ?thesis using s1 s2 s3 by (auto simp: rtu_transmit_def serial_unit_def andq_def)
qed

lemma receive_loop_stream:
  assumes "serial_slave D content reply"
  shows "n \<le> length (content (serial g)) \<Longrightarrow> length (rtu_response g) + n \<le> MODBUS_VEC_SIZE \<Longrightarrow>
    \<exists>s'. rtu_receive_loop D n b g =
      (Ok (), g\<lparr>serial := s', rtu_response := rtu_response g @ take n (content (serial g))\<rparr>) \<and>
      content s' = drop n (content (serial g))"
proof (induction n arbitrary: g b)
  case 0
  then show ?case by (intro exI [of _ "serial g"]) simp
next
  case (Suc n)
  obtain x xs where x: "content (serial g) = x # xs" using Suc.prems by (cases "content (serial g)") auto
  then obtain s' where s': "ser_read_until_idle D 1 (serial g) = (Some [x], s')" "content s' = xs"
    using assms unfolding serial_slave_def by metis
  let ?g = "g\<lparr>serial := s', rtu_response := rtu_response g @ [x]\<rparr>"
  obtain s'' where "rtu_receive_loop D n x ?g =
      (Ok (), ?g\<lparr>serial := s'', rtu_response := rtu_response ?g @ take n xs\<rparr>)" "content s'' = drop n xs"
    using Suc.IH [of ?g x] Suc.prems x s' by auto
  then show ?case using s' x Suc.prems by (auto simp: vec_push_def)
qed

declare rtu_receive_loop.simps(2) [simp del]

lemma receive_from_slave:
  assumes "serial_slave D content reply" "content (serial g) = [a, fc, n] @ data @ create_crc D ([a, fc, n] @ data)"
    and "length data = unat n" "unat n \<le> 253"
  shows "\<exists>s'. rtu_receive D g = (Ok (), g\<lparr>serial := s', rtu_response := [a, fc, n] @ data @ create_crc D ([a, fc, n] @ data)\<rparr>)"
proof -
  let ?fr = "[a, fc, n] @ data @ create_crc D ([a, fc, n] @ data)"
  have l: "length ?fr = unat n + 5" by (simp add: create_crc_def assms(3))
  have "3 \<le> length (content (serial g))" using assms(2) by simp
  then obtain s1 where "ser_read D 3 (serial g) = (Some (take 3 (content (serial g))), s1)"
      "content s1 = drop 3 (content (serial g))"
    using assms(1) unfolding serial_slave_def by blast
  then have s1: "ser_read D 3 (serial g) = (Some [a, fc, n], s1)" "content s1 = drop 3 ?fr"
    using assms(2) by simp_all
  have pll: "payload_length [a, fc, n] = Some (unat n + 2)"
    using assms(4) by (simp add: payload_length_def index_def unat_word_ariths)
  let ?g = "g\<lparr>serial := s1, rtu_response := [a, fc, n]\<rparr>"
  obtain s2 where s2: "rtu_receive_loop D (unat n + 2) 0 ?g =
      (Ok (), ?g\<lparr>serial := s2, rtu_response := [a, fc, n] @ take (unat n + 2) (drop 3 ?fr)\<rparr>)"
    using receive_loop_stream [OF assms(1), of "unat n + 2" ?g 0] s1(2) l assms(4)
    by (auto simp: MODBUS_VEC_SIZE_def)
  have "take (unat n + 2) (drop 3 ?fr) = data @ create_crc D ([a, fc, n] @ data)"
    using assms(3) by (simp add: create_crc_def)
  moreover have "crc_check D ?fr k = (Ok (), k)" for k
    using assms(3) by (simp add: crc_check_Ok_iff create_crc_def)
  ultimately show ?thesis
    using s1 s2 pll by (auto simp: rtu_receive_def serial_bytes_def andq_def vec_extend_def MODBUS_VEC_SIZE_def)
qed

lemma listen_to_master:
  assumes "tcp_master D pending sent" "pending (socket g) = q @ rest" "length q = 12"
  shows "\<exists>t'. tcp_listen D g = (Ok (), g\<lparr>socket := t', tcp_request := q\<rparr>) \<and> sent t' = sent (socket g) \<and> pending t' = rest"
proof -
  have "12 \<le> length (pending (socket g))" using assms(2,3) by simp
  then obtain t' where t': "tcp_read_exact D 12 (socket g) = (Some (take 12 (pending (socket g))), t')"
      "sent t' = sent (socket g)" "pending t' = drop 12 (pending (socket g))"
    using assms(1) unfolding tcp_master_def by blast
  then show ?thesis using assms(2,3)
    by (auto simp: tcp_listen_def socket_bytes_def andq_def vec_extend_def MODBUS_TCP_REQ_VEC_SIZE_def)
qed

lemma convert_request_bytes:
  assumes "length pdu = 6"
  shows "convert_tcp_request_payload_to_rtu_request_payload D (u16_to_be t @ [0, 0, 0, 6] @ pdu) g =
    (Ok (pdu @ create_crc D pdu), g\<lparr>counter := t\<rparr>)"
  using assms u16_from_be_nth [of t]
  by (simp add: convert_tcp_request_payload_to_rtu_request_payload_def set_transaction_id_def andq_def
      with_crc_fits MODBUS_RTU_REQ_VEC_SIZE_def nth_append)

text \<open>
  One request through the bridge: when the TCP master sends a twelve-byte read request with
  identifier \<open>t\<close> and the slave answers the frame (request and checksum) with a well-formed
  response of at most 253 data bytes, the flow succeeds, the slave's data is sent back under the same
  identifier with the right length field, and the line driver is released.
\<close>

lemma bridge_serves_request:
  assumes "serial_slave D content reply" "tcp_master D pending sent"
    and "pending (socket g) = u16_to_be t @ [0, 0, 0, 6] @ pdu @ rest" "length pdu = 6"
    and "reply (pdu @ create_crc D pdu) = [a, fc, n] @ data @ create_crc D ([a, fc, n] @ data)"
    and "length data = unat n" "unat n \<le> 253"
  shows "\<exists>g'. process_flow_bridge D g = (Ok (), g') \<and> \<not> tx_en g' \<and> counter g' = t \<and> pending (socket g') = rest \<and>
    sent (socket g') = sent (socket g) @ u16_to_be t @ [0, 0] @ u16_to_be (of_nat (unat n + 3)) @ [a, fc, n] @ data"
proof -
  let ?q = "u16_to_be t @ [0, 0, 0, 6] @ pdu" and ?x = "[a, fc, n] @ data @ create_crc D ([a, fc, n] @ data)"
  let ?g0 = "g\<lparr>led := Some (Off Led3)\<rparr>"
  obtain t1 where t1: "tcp_listen D ?g0 = (Ok (), ?g0\<lparr>socket := t1, tcp_request := ?q\<rparr>)" "sent t1 = sent (socket g)" "pending t1 = rest"
    using listen_to_master [OF assms(2), of ?g0 ?q rest] assms(3,4) by auto
  let ?g1 = "?g0\<lparr>socket := t1, tcp_request := ?q\<rparr>" let ?g2 = "?g1\<lparr>counter := t\<rparr>"
  have c1: "convert_tcp_request_payload_to_rtu_request_payload D ?q ?g1 = (Ok (pdu @ create_crc D pdu), ?g2)"
    using convert_request_bytes [OF assms(4)] by blast
  let ?g3 = "?g2\<lparr>rtu_response := []\<rparr>"
  obtain s1 where s1: "rtu_transmit D (pdu @ create_crc D pdu) ?g3 = (Ok (), ?g3\<lparr>serial := s1, tx_en := False\<rparr>)"
      "content s1 = ?x"
    using transmit_to_slave [OF assms(1)] assms(5) by metis
  let ?g4 = "?g3\<lparr>serial := s1, tx_en := False\<rparr>"
  obtain s2 where s2: "rtu_receive D ?g4 = (Ok (), ?g4\<lparr>serial := s2, rtu_response := ?x\<rparr>)"
    using receive_from_slave [OF assms(1) _ assms(6,7), of ?g4 a fc] s1(2) by auto
  let ?g5 = "?g4\<lparr>serial := s2, rtu_response := ?x\<rparr>"
  have sr: "rtu_send_and_receive D (pdu @ create_crc D pdu) ?g2 = (Ok (), ?g5)"
    unfolding rtu_send_and_receive_def using s1(1) s2 by (simp add: andq_def)
  have "length ?x - 2 = unat n + 3" "take (length ?x - 2) ?x = [a, fc, n] @ data" "length ?x \<le> 508"
    using assms(6,7) by (simp_all add: create_crc_def)
  then have c2: "convert_rtu_reponse_payload_to_tcp_response_payload ?x ?g5 =
      (Ok (u16_to_be t @ [0, 0] @ u16_to_be (of_nat (unat n + 3)) @ [a, fc, n] @ data), ?g5)"
    using response_to_tcp [of ?x ?g5] by (simp add: add.commute)
  obtain t2 where t2: "tcp_write D (u16_to_be t @ [0, 0] @ u16_to_be (of_nat (unat n + 3)) @ [a, fc, n] @ data) t1 = (True, t2)"
      "pending t2 = pending t1" "sent t2 = sent t1 @ u16_to_be t @ [0, 0] @ u16_to_be (of_nat (unat n + 3)) @ [a, fc, n] @ data"
    using assms(2) unfolding tcp_master_def by metis
  have "process_flow_bridge D g = (Ok (), ?g5\<lparr>socket := t2, led := Some (On Led3)\<rparr>)"
    unfolding process_flow_bridge_def using t1(1) c1 sr c2 t2(1)
    by (simp add: andq_def signal_led_def tcp_transmit_def)
  then show ?thesis using t1(2,3) t2(2,3) by auto
qed

section \<open>Modes\<close>

datatype socket_addr = V4 bytes u16 | V6 bytes u16

fun addr_port :: "socket_addr \<Rightarrow> u16" where
  "addr_port (V4 ip p) = p"
| "addr_port (V6 ip p) = p"

datatype modbus_tcp_mode = TcpClient socket_addr | TcpServer socket_addr

datatype modbus_rtu_mode = RtuClient | RtuServer

fun mode_builder :: "modbus_tcp_mode \<Rightarrow> modbus_rtu_mode \<times> modbus_tcp_mode" where
  "mode_builder (TcpClient sa) = (RtuClient, TcpClient sa)"
| "mode_builder (TcpServer p) = (RtuServer, TcpServer p)"

fun get_port :: "modbus_tcp_mode \<Rightarrow> u16" where
  "get_port (TcpClient sa) = addr_port sa"
| "get_port (TcpServer p) = addr_port p"

fun get_ip :: "modbus_tcp_mode \<Rightarrow> socket_addr option" where
  "get_ip (TcpClient sa) = Some sa"
| "get_ip (TcpServer _) = None"

text \<open>The endpoint to connect to; an IPv6 remote is a \<open>todo!()\<close>.\<close>

fun ip_endpoint_from :: "modbus_tcp_mode \<Rightarrow> (unit, bytes \<times> u16) outcome" where
  "ip_endpoint_from (TcpClient (V4 ip p)) = Ok (ip, p)"
| "ip_endpoint_from (TcpClient (V6 ip p)) = Panic"
| "ip_endpoint_from (TcpServer sa) = Ok ([0, 0, 0, 0], addr_port sa)"

text \<open>The length byte of a response with 254 or 255 data bytes wraps around, and an exception
  response (two bytes of checksum after its code) is expected to be longer than it is.\<close>

lemma payload_length_wraps: "254 \<le> n \<Longrightarrow> payload_length [a, fc, n] = Some (unat n - 254)"
proof -
  assume "254 \<le> n"
  then have "254 \<le> unat n" by (simp add: word_le_nat_alt)
  moreover have "unat n < 256" using unsigned_less [where 'a = nat and w = n] by simp
  ultimately have "(unat n + 2) mod 256 = unat n - 254" by (auto simp: mod_if)
  then show ?thesis by (simp add: payload_length_def index_def unat_word_ariths)
qed

end
