(* ===== verification/Modbus_Gateway.thy ===== *)
theory Modbus_Gateway
  imports Modbus
begin

text \<open>
  The Modbus task (modbus_tcp_gateway.rs) around the flows of theory Modbus: the two sides as they are
  created, connecting, accepting and resetting the socket, the inner loop of a connection and the
  outer loop over connections; the texts of the errors (error.rs); and the flow of the build with
  the OB737 meter filter (flow.rs).

  The select of the inner loop ends either with the flow or with the timer. An abandoned flow may
  have stopped at any await, so the event \<open>Timeout\<close> carries the state it leaves. The connect, accept,
  close and abort of the network stack are parameters.
\<close>

section \<open>Errors\<close>

definition from_usart_error :: "'e \<Rightarrow> modbus_error" where "from_usart_error e = RtuError"
definition from_tcp_error :: "'e \<Rightarrow> modbus_error" where "from_tcp_error e = TcpError"
definition from_connect_error :: "connect_error \<Rightarrow> modbus_error" where "from_connect_error e = TcpConnect e"
definition from_read_exact_error :: "'e \<Rightarrow> modbus_error" where "from_read_exact_error e = ReadExactError"
definition from_accept_error :: "'e \<Rightarrow> modbus_error" where "from_accept_error e = TcpAccept"

fun modbus_error_text :: "(connect_error \<Rightarrow> bytes) \<Rightarrow> modbus_error \<Rightarrow> bytes" where
  "modbus_error_text dbg RtuError = lit ''RTU error''"
| "modbus_error_text dbg TcpError = lit ''TCP error''"
| "modbus_error_text dbg SliceError = lit ''Slice error''"
| "modbus_error_text dbg Push = lit ''Push error''"
| "modbus_error_text dbg RtuTimeout = lit ''RtuTimeout error''"
| "modbus_error_text dbg RtuRxFail = lit ''RtuRxFail error''"
| "modbus_error_text dbg CrcRx = lit ''CrcRxFail error''"
| "modbus_error_text dbg ReadExactError = lit ''ReadExactError error''"
| "modbus_error_text dbg (TcpRxFail v) = lit ''TcpRxFail error '' @ decimal v"
| "modbus_error_text dbg RtuIlligal = lit ''RtuIlligal error''"
| "modbus_error_text dbg (TcpConnect e) = lit ''Tcp Connect error '' @ dbg e"
| "modbus_error_text dbg TcpAccept = lit ''Tcp Accept error''"
| "modbus_error_text dbg InvalidTransactionId = lit ''Tcp Transaction Counter mismatch''"
| "modbus_error_text dbg RtuPayloadTooShort = lit ''Rtu payload is too short''"
| "modbus_error_text dbg InvalidFilter = lit ''Invalid Modbus filter match''"
| "modbus_error_text dbg ConversionSlice = lit ''Conversion slice error''"

section \<open>The two sides and the socket\<close>

definition modbus_rtu_new :: "'s \<Rightarrow> 't \<Rightarrow> ('s, 't) gateway" where
  "modbus_rtu_new ser sock = \<lparr>counter = 0, serial = ser, tx_en = False, rtu_request = [], rtu_response = [],
     socket = sock, tcp_request = [], tcp_response = [], led = None\<rparr>"

text \<open>\<open>ModbusTcp::new\<close>: a new socket and empty vectors beside the serial side that stays.\<close>

definition modbus_tcp_new :: "'t \<Rightarrow> ('s, 't) gateway \<Rightarrow> ('s, 't) gateway" where
  "modbus_tcp_new sock g = g\<lparr>socket := sock, tcp_request := [], tcp_response := []\<rparr>"

record 't tcp_ops =
  sock_connect :: "bytes \<times> u16 \<Rightarrow> 't \<Rightarrow> connect_error option \<times> 't"
  sock_accept :: "u16 \<Rightarrow> 't \<Rightarrow> bool \<times> 't"
  sock_closed :: "'t \<Rightarrow> bool"
  sock_close :: "'t \<Rightarrow> 't"
  sock_abort :: "'t \<Rightarrow> 't"

definition tcp_connect :: "'t tcp_ops \<Rightarrow> modbus_tcp_mode \<Rightarrow> ('s, 't, unit) mop" where
  "tcp_connect N tcpmode = (\<lambda>g. case ip_endpoint_from tcpmode of
       Ok ip \<Rightarrow> (case sock_connect N ip (socket g) of
           (None, t) \<Rightarrow> (Ok (), g\<lparr>socket := t\<rparr>)
         | (Some e, t) \<Rightarrow> (Err (from_connect_error e), g\<lparr>socket := t\<rparr>))
     | _ \<Rightarrow> (Panic, g))"

definition wait_connection :: "'t tcp_ops \<Rightarrow> modbus_tcp_mode \<Rightarrow> ('s, 't, unit) mop" where
  "wait_connection N tcpmode = (\<lambda>g. let (ok, t) = sock_accept N (get_port tcpmode) (socket g) in
     (if ok then Ok () else Err (from_accept_error ()), g\<lparr>socket := t\<rparr>))"

text \<open>\<open>reset\<close>, with the milliseconds it waits.\<close>

definition tcp_reset :: "'t tcp_ops \<Rightarrow> nat \<Rightarrow> ('s, 't) gateway \<Rightarrow> nat \<times> ('s, 't) gateway" where
  "tcp_reset N timeout g =
     (if sock_closed N (socket g) then (0, g)
      else (timeout + 100, g\<lparr>socket := sock_abort N (sock_close N (socket g))\<rparr>))"

section \<open>The loops of the task\<close>

datatype 'g select = Flow | Timeout 'g

datatype loop_end = Running | Left | Panicked

text \<open>The inner loop on the given results of the select; \<open>Running\<close> when it goes on after them.\<close>

fun inner_loop :: "('g \<Rightarrow> (modbus_error, unit) outcome \<times> 'g) \<Rightarrow> 'g select list \<Rightarrow> 'g \<Rightarrow> loop_end \<times> 'g" where
  "inner_loop flow [] g = (Running, g)"
| "inner_loop flow (Timeout g' # es) g = (if keep_connection Flow_timeout then inner_loop flow es g' else (Left, g'))"
| "inner_loop flow (Flow # es) g =
     (case flow g of
        (Panic, g') \<Rightarrow> (Panicked, g')
      | (r, g') \<Rightarrow> if keep_connection (Flow_done r) then inner_loop flow es g' else (Left, g'))"

text \<open>A round of the outer loop in each build: a new socket, the connection, the inner loop, the
  reset. The time the task pauses before the next round is returned in milliseconds.\<close>

definition TCP_RESET_TIMEOUT :: nat where "TCP_RESET_TIMEOUT = 1000"

definition connection_round ::
    "'t tcp_ops \<Rightarrow> ('s, 't, unit) mop \<Rightarrow> nat \<Rightarrow> ('s, 't, unit) mop \<Rightarrow> 't \<Rightarrow> ('s, 't) gateway select list \<Rightarrow>
     ('s, 't) gateway \<Rightarrow> loop_end \<times> nat \<times> ('s, 't) gateway" where
  "connection_round N open pause flow sock es g =
     (case open (modbus_tcp_new sock g) of
        (Panic, g1) \<Rightarrow> (Panicked, 0, g1)
      | (Err e, g1) \<Rightarrow> (let (ms, g2) = tcp_reset N TCP_RESET_TIMEOUT g1 in (Left, ms + pause, g2))
      | (Ok _, g1) \<Rightarrow>
          (case inner_loop flow es g1 of
             (Left, g2) \<Rightarrow> (let (ms, g3) = tcp_reset N TCP_RESET_TIMEOUT g2 in (Left, ms, g3))
           | (r, g2) \<Rightarrow> (r, 0, g2)))"

definition client_round ::
    "'t tcp_ops \<Rightarrow> ('s, 't) modbus_dev \<Rightarrow> modbus_tcp_mode \<Rightarrow> 't \<Rightarrow> ('s, 't) gateway select list \<Rightarrow> ('s, 't) gateway \<Rightarrow>
     loop_end \<times> nat \<times> ('s, 't) gateway" where
  "client_round N D tcpmode = connection_round N (tcp_connect N tcpmode) 2000 (process_flow_client D)"

definition bridge_round ::
    "'t tcp_ops \<Rightarrow> ('s, 't) modbus_dev \<Rightarrow> modbus_tcp_mode \<Rightarrow> 't \<Rightarrow> ('s, 't) gateway select list \<Rightarrow> ('s, 't) gateway \<Rightarrow>
     loop_end \<times> nat \<times> ('s, 't) gateway" where
  "bridge_round N D tcpmode = connection_round N (wait_connection N tcpmode) 0 (process_flow_bridge D)"

text \<open>The outer loop: each round has its socket and its events; it goes on while rounds end.\<close>

fun connection_loop :: "('k \<Rightarrow> 'g \<Rightarrow> loop_end \<times> nat \<times> 'g) \<Rightarrow> 'k list \<Rightarrow> 'g \<Rightarrow> loop_end \<times> nat \<times> 'g" where
  "connection_loop round [] g = (Left, 0, g)"
| "connection_loop round (k # ks) g =
     (case round k g of
        (Left, ms, g') \<Rightarrow> (let (r, ms', g'') = connection_loop round ks g' in (r, ms + ms', g''))
      | other \<Rightarrow> other)"

text \<open>The address of the build: the remote from the environment, which has to parse, or any
  address on port 502; both as the mode \<open>Client\<close>.\<close>

definition task_tcpmode :: "bool \<Rightarrow> (bytes \<Rightarrow> socket_addr option) \<Rightarrow> bytes \<Rightarrow> (modbus_error, modbus_tcp_mode) outcome" where
  "task_tcpmode modbus_client parse remote =
     (let sock = (if modbus_client then remote else lit ''0.0.0.0:502'') in
      bind_outcome (unwrap_option (parse sock)) (\<lambda>sa. Ok (TcpClient sa)))"

definition modbus_task :: "bool \<Rightarrow> 't tcp_ops \<Rightarrow> ('s, 't) modbus_dev \<Rightarrow> (bytes \<Rightarrow> socket_addr option) \<Rightarrow> bytes \<Rightarrow> 's \<Rightarrow> 't \<Rightarrow>
    ('t \<times> ('s, 't) gateway select list) list \<Rightarrow> loop_end \<times> nat \<times> ('s, 't) gateway" where
  "modbus_task modbus_client N D parse remote ser sock rounds =
     (let g = modbus_rtu_new ser sock in
      case task_tcpmode modbus_client parse remote of
        Ok tcpmode \<Rightarrow>
          connection_loop (\<lambda>(t, es). (if modbus_client then client_round N D tcpmode t es else bridge_round N D tcpmode t es))
            rounds g
      | _ \<Rightarrow> (Panicked, 0, g))"

section \<open>Serving request after request\<close>

text \<open>The contract of a flow towards the side that asks: when the next request is waiting, the flow
  serves it and leaves the rest. It holds of both builds, and the inner loop then serves every
  waiting request in order.\<close>

locale request_server =
  fixes flow :: "'g \<Rightarrow> (modbus_error, unit) outcome \<times> 'g"
    and ready :: "'g \<Rightarrow> bool" and inbox :: "'g \<Rightarrow> bytes" and outbox :: "'g \<Rightarrow> bytes"
    and good :: "'r \<Rightarrow> bool" and frame :: "'r \<Rightarrow> bytes" and answer :: "'r \<Rightarrow> bytes"
  assumes serves: "ready g \<Longrightarrow> good r \<Longrightarrow> inbox g = frame r @ rest \<Longrightarrow>
    \<exists>g'. flow g = (Ok (), g') \<and> ready g' \<and> inbox g' = rest \<and> outbox g' = outbox g @ answer r"
begin

lemma serves_all:
  assumes "ready g" "list_all good rs" "inbox g = concat (map frame rs) @ rest"
  shows "\<exists>g'. inner_loop flow (replicate (length rs) Flow @ es) g = inner_loop flow es g' \<and>
    ready g' \<and> inbox g' = rest \<and> outbox g' = outbox g @ concat (map answer rs)"
  using assms
proof (induction rs arbitrary: g)
  case Nil
  then show ?case by (intro exI [of _ g]) simp
next
  case (Cons r rs)
  obtain g1 where g1: "flow g = (Ok (), g1)" "ready g1" "inbox g1 = concat (map frame rs) @ rest"
      "outbox g1 = outbox g @ answer r"
    using serves [OF Cons.prems(1), of r "concat (map frame rs) @ rest"] Cons.prems(2,3) by auto
  then show ?case using Cons.IH [OF g1(2) _ g1(3)] Cons.prems(2) by auto
qed

end

text \<open>Entries of requests under consecutive 16-bit numbers, and the contract of a flow that numbers what it
  passes on: the log of a connection then carries the numbers after the counter, which wrap around.\<close>

fun numbered :: "(u16 \<Rightarrow> 'r \<Rightarrow> 'l) \<Rightarrow> u16 \<Rightarrow> 'r list \<Rightarrow> 'l list" where
  "numbered entry c [] = []"
| "numbered entry c (r # rs) = entry (c + 1) r # numbered entry (c + 1) rs"

locale numbering_server = request_server flow ready inbox outbox good frame answer
  for flow :: "'g \<Rightarrow> (modbus_error, unit) outcome \<times> 'g" and ready inbox outbox
    and good :: "'r \<Rightarrow> bool" and frame answer +
  fixes num :: "'g \<Rightarrow> u16" and log :: "'g \<Rightarrow> 'l list" and entry :: "u16 \<Rightarrow> 'r \<Rightarrow> 'l"
  assumes numbers: "ready g \<Longrightarrow> good r \<Longrightarrow> inbox g = frame r @ rest \<Longrightarrow> flow g = (Ok (), g') \<Longrightarrow>
    num g' = num g + 1 \<and> log g' = log g @ [entry (num g + 1) r]"
begin

lemma numbers_all:
  assumes "ready g" "list_all good rs" "inbox g = concat (map frame rs) @ rest"
    and "inner_loop flow (replicate (length rs) Flow) g = (Running, g')"
  shows "num g' = num g + of_nat (length rs) \<and> log g' = log g @ numbered entry (num g) rs"
  using assms
proof (induction rs arbitrary: g)
  case (Cons r rs)
  obtain g1 where g1: "flow g = (Ok (), g1)" "ready g1" "inbox g1 = concat (map frame rs) @ rest"
    using serves [OF Cons.prems(1), of r "concat (map frame rs) @ rest"] Cons.prems(2,3) by auto
  moreover have "num g1 = num g + 1 \<and> log g1 = log g @ [entry (num g + 1) r]"
    using numbers [OF Cons.prems(1) _ _ g1(1), of r "concat (map frame rs) @ rest"] Cons.prems(2,3) by simp
  ultimately show ?case using Cons.IH [OF g1(2) _ g1(3)] Cons.prems(2,4) by (simp add: ac_simps)
qed simp

end

text \<open>A slave's response as the bridge accepts it, and what the two sides of the bridge see of a
  request: the frame of the TCP master, and the answer it gets.\<close>

definition slave_response :: "('s, 't) modbus_dev \<Rightarrow> bytes \<Rightarrow> bool" where
  "slave_response D x \<longleftrightarrow>
     (\<exists>a fc n data. x = [a, fc, n] @ data @ create_crc D ([a, fc, n] @ data) \<and> length data = unat n \<and> unat n \<le> 253)"

definition bridge_request :: "u16 \<times> bytes \<Rightarrow> bytes" where
  "bridge_request r = u16_to_be (fst r) @ [0, 0, 0, 6] @ snd r"

definition bridge_answer :: "('s, 't) modbus_dev \<Rightarrow> (bytes \<Rightarrow> bytes) \<Rightarrow> u16 \<times> bytes \<Rightarrow> bytes" where
  "bridge_answer D reply r =
     (let x = reply (snd r @ create_crc D (snd r)); pdu = take (length x - 2) x in
      u16_to_be (fst r) @ [0, 0] @ u16_to_be (of_nat (length pdu)) @ pdu)"

definition bridge_good :: "('s, 't) modbus_dev \<Rightarrow> (bytes \<Rightarrow> bytes) \<Rightarrow> u16 \<times> bytes \<Rightarrow> bool" where
  "bridge_good D reply r \<longleftrightarrow> length (snd r) = 6 \<and> slave_response D (reply (snd r @ create_crc D (snd r)))"

interpretation bridge: request_server "process_flow_bridge D"
  "\<lambda>g. serial_slave D content reply \<and> tcp_master D pending sent" "\<lambda>g. pending (socket g)" "\<lambda>g. sent (socket g)"
  "bridge_good D reply" bridge_request "bridge_answer D reply"
  for D content reply pending sent
proof
  fix g :: "('a, 'b) gateway" and r rest
  assume dev: "serial_slave D content reply \<and> tcp_master D pending sent"
    and r: "bridge_good D reply r" and q: "pending (socket g) = bridge_request r @ rest"
  obtain a fc n data where x: "reply (snd r @ create_crc D (snd r)) = [a, fc, n] @ data @ create_crc D ([a, fc, n] @ data)"
      "length data = unat n" "unat n \<le> 253"
    using r by (auto simp: bridge_good_def slave_response_def)
  let ?x = "[a, fc, n] @ data @ create_crc D ([a, fc, n] @ data)"
  have t: "take (length ?x - 2) ?x = [a, fc, n] @ data" by (simp add: create_crc_def)
  have "bridge_answer D reply r = u16_to_be (fst r) @ [0, 0] @ u16_to_be (of_nat (unat n + 3)) @ [a, fc, n] @ data"
    unfolding bridge_answer_def x(1) Let_def t using x(2) by (simp add: add.commute)
  then show "\<exists>g'. process_flow_bridge D g = (Ok (), g') \<and> (serial_slave D content reply \<and> tcp_master D pending sent) \<and>
      pending (socket g') = rest \<and> sent (socket g') = sent (socket g) @ bridge_answer D reply r"
    using bridge_serves_request [of D content reply pending sent g "fst r" "snd r" rest a fc n data] dev q r x
    by (auto simp: bridge_request_def bridge_good_def)
qed

text \<open>
  C9. A connection of the bridge from its first request to its end: the requests that the TCP master
  has sent are served one after another, each answered under its own identifier with the
  response of the slave, in order; when the master is gone and fewer than twelve bytes are left,
  the inner loop ends, the socket is closed and aborted, and the task goes on to accept the next master.
\<close>

theorem bridge_serves_connection:
  assumes "serial_slave D content reply" "tcp_master D pending sent"
    and "\<And>t. length (pending t) < 12 \<Longrightarrow> \<exists>t'. tcp_read_exact D 12 t = (None, t') \<and> sent t' = sent t"
    and "sock_accept N (get_port mode) t0 = (True, t1)" "pending t1 = concat (map bridge_request rs) @ rest" "length rest < 12"
    and "list_all (bridge_good D reply) rs"
    and "\<And>t. sent (sock_abort N (sock_close N t)) = sent t" "\<And>t. \<not> sock_closed N t"
  shows "\<exists>g'. bridge_round N D mode t0 (replicate (Suc (length rs)) Flow) g = (Left, 1100, g') \<and>
    sent (socket g') = sent t1 @ concat (map (bridge_answer D reply) rs)"
proof -
  let ?g = "(modbus_tcp_new t0 g)\<lparr>socket := t1\<rparr>"
  have o: "wait_connection N mode (modbus_tcp_new t0 g) = (Ok (), ?g)"
    by (simp add: wait_connection_def modbus_tcp_new_def assms(4))
  obtain g1 where g1: "inner_loop (process_flow_bridge D) (replicate (length rs) Flow @ [Flow]) ?g =
        inner_loop (process_flow_bridge D) [Flow] g1"
      "pending (socket g1) = rest" "sent (socket g1) = sent t1 @ concat (map (bridge_answer D reply) rs)"
    using bridge.serves_all [of D content reply pending sent rs ?g rest "[Flow]"] assms(1,2,5,7)
    by (auto simp: modbus_tcp_new_def)
  obtain t2 where t2: "tcp_read_exact D 12 (socket g1) = (None, t2)" "sent t2 = sent (socket g1)"
    using assms(3) [of "socket g1"] assms(6) g1(2) by auto
  let ?g2 = "g1\<lparr>led := Some (Off Led3), tcp_request := [], socket := t2\<rparr>"
  have "process_flow_bridge D g1 = (Err ReadExactError, ?g2)"
    using t2(1) by (simp add: process_flow_bridge_def signal_led_def tcp_listen_def socket_bytes_def andq_def)
  then have "inner_loop (process_flow_bridge D) (replicate (Suc (length rs)) Flow) ?g = (Left, ?g2)"
    using g1(1) by (simp flip: replicate_append_same)
  then show ?thesis
    using o t2(2) g1(3) assms(8,9)
    by (simp add: bridge_round_def connection_round_def tcp_reset_def TCP_RESET_TIMEOUT_def)
qed

text \<open>Serial side and socket of byte lists; nothing of the socket is lost by closing it.\<close>

definition sample_ops :: "(bytes \<times> bytes) tcp_ops" where
  "sample_ops = \<lparr>sock_connect = (\<lambda>_ t. (None, t)), sock_accept = (\<lambda>_ t. (True, t)), sock_closed = (\<lambda>_. False),
     sock_close = (\<lambda>t. t), sock_abort = (\<lambda>t. t)\<rparr>"

definition sample_reply :: "bytes \<Rightarrow> bytes" where
  "sample_reply p = [1, 3, 2, 7, 8] @ u16_to_le (of_nat (sum_list (map unat [1, 3, 2, 7, 8 :: u8])))"

lemma sample_dev_peers: "serial_slave sample_dev (\<lambda>s. s) sample_reply" "tcp_master sample_dev fst snd"
  by (auto simp: serial_slave_def tcp_master_def sample_dev_def sample_reply_def)

lemma sample_reply_response: "slave_response sample_dev (sample_reply p)"
  unfolding slave_response_def
  by (intro exI [of _ "1"] exI [of _ "3"] exI [of _ "2"] exI [of _ "[7, 8]"])
    (simp add: sample_reply_def create_crc_def sample_dev_def)

theorem bridge_serves_connection_witness:
  "\<exists>g'. bridge_round sample_ops sample_dev (TcpClient (V4 [0, 0, 0, 0] 502))
      ([0, 9, 0, 0, 0, 6, 1, 3, 0, 0, 0, 1, 0, 10, 0, 0, 0, 6, 1, 3, 0, 0, 0, 1, 0], []) (replicate 3 Flow) sample_gateway =
      (Left, 1100, g') \<and>
    snd (socket g') = [0, 9, 0, 0, 0, 5, 1, 3, 2, 7, 8, 0, 10, 0, 0, 0, 5, 1, 3, 2, 7, 8]"
proof -
  have good: "list_all (bridge_good sample_dev sample_reply) [(9, [1, 3, 0, 0, 0, 1]), (10, [1, 3, 0, 0, 0, 1])]"
    by (simp add: bridge_good_def sample_reply_response)
  have three: "(3::nat) = Suc (length [(9::u16, [1, 3, 0, 0, 0, 1 :: u8]), (10, [1, 3, 0, 0, 0, 1])])" by simp
  show ?thesis unfolding three
    using bridge_serves_connection [OF sample_dev_peers, where N = sample_ops and mode = "TcpClient (V4 [0, 0, 0, 0] 502)" and
        rs = "[(9, [1, 3, 0, 0, 0, 1]), (10, [1, 3, 0, 0, 0, 1])]" and rest = "[0]" and g = sample_gateway and
        ?t0.0 = "([0, 9, 0, 0, 0, 6, 1, 3, 0, 0, 0, 1, 0, 10, 0, 0, 0, 6, 1, 3, 0, 0, 0, 1, 0], [])", OF _ _ _ _ good]
    by (simp add: sample_ops_def sample_dev_def bridge_request_def bridge_answer_def sample_reply_def u16_to_be_def)
qed

section \<open>The client build\<close>

text \<open>A serial master whose requests wait in \<open>content\<close> and who receives \<open>out\<close>, and a TCP server that
  notes each request it gets in \<open>requests\<close> and puts its reply into \<open>pending\<close>.\<close>

definition serial_master :: "('s, 't) modbus_dev \<Rightarrow> ('s \<Rightarrow> bytes) \<Rightarrow> ('s \<Rightarrow> bytes) \<Rightarrow> bool" where
  "serial_master D content out \<longleftrightarrow>
     (\<forall>s n. n \<le> length (content s) \<longrightarrow>
        (\<exists>s'. ser_read D n s = (Some (take n (content s)), s') \<and> content s' = drop n (content s) \<and> out s' = out s)) \<and>
     (\<forall>s. \<exists>s'. ser_flush D s = (True, s') \<and> content s' = content s \<and> out s' = out s) \<and>
     (\<forall>s p. \<exists>s'. ser_write D p s = (True, s') \<and> content s' = content s \<and> out s' = out s @ p)"

definition tcp_server :: "('s, 't) modbus_dev \<Rightarrow> ('t \<Rightarrow> bytes) \<Rightarrow> ('t \<Rightarrow> bytes list) \<Rightarrow> (bytes \<Rightarrow> bytes) \<Rightarrow> bool" where
  "tcp_server D pending requests reply \<longleftrightarrow>
     (\<forall>t n. n \<le> length (pending t) \<longrightarrow>
        (\<exists>t'. tcp_read D n t = (Some (take n (pending t)), t') \<and> pending t' = drop n (pending t) \<and> requests t' = requests t)) \<and>
     (\<forall>t p. \<exists>t'. tcp_write D p t = (True, t') \<and> pending t' = pending t @ reply p \<and> requests t' = requests t @ [p])"

lemma listen_to_serial:
  assumes "serial_master D content out" "content (serial g) = pdu @ create_crc D pdu @ rest" "length pdu = 6"
  shows "\<exists>s'. rtu_listen D g = (Ok (), g\<lparr>serial := s', rtu_request := pdu @ create_crc D pdu\<rparr>) \<and>
    content s' = rest \<and> out s' = out (serial g)"
proof -
  have l: "length (pdu @ create_crc D pdu) = 8" by (simp add: assms(3) create_crc_def)
  then have "8 \<le> length (content (serial g))" using assms(2) by simp
  then obtain s' where "ser_read D 8 (serial g) = (Some (take 8 (content (serial g))), s')"
      "content s' = drop 8 (content (serial g))" "out s' = out (serial g)"
    using assms(1) unfolding serial_master_def by blast
  then have s': "ser_read D 8 (serial g) = (Some (pdu @ create_crc D pdu), s')" "content s' = rest" "out s' = out (serial g)"
    using l assms(2) by (simp_all flip: append_assoc)
  have "crc_check D (pdu @ create_crc D pdu) k = (Ok (), k)" for k
    using assms(3) by (simp add: crc_check_Ok_iff create_crc_def)
  then show ?thesis using s' l
    by (auto simp: rtu_listen_def serial_bytes_def andq_def vec_extend_def MODBUS_RTU_REQ_VEC_SIZE_def)
qed

lemma transmit_to_master:
  assumes "serial_master D content out"
  shows "\<exists>s'. rtu_transmit D p g = (Ok (), g\<lparr>serial := s', tx_en := False\<rparr>) \<and>
    content s' = content (serial g) \<and> out s' = out (serial g) @ p"
proof -
  obtain s1 where s1: "ser_flush D (serial g) = (True, s1)" "content s1 = content (serial g)" "out s1 = out (serial g)"
    using assms unfolding serial_master_def by metis
  obtain s2 where s2: "ser_write D p s1 = (True, s2)" "content s2 = content s1" "out s2 = out s1 @ p"
    using assms unfolding serial_master_def by metis
  obtain s3 where s3: "ser_flush D s2 = (True, s3)" "content s3 = content s2" "out s3 = out s2"
    using assms unfolding serial_master_def by metis
  show ?thesis using s1 s2 s3 by (auto simp: rtu_transmit_def serial_unit_def andq_def)
qed

lemma tcp_receive_loop_stream:
  assumes "tcp_server D pending requests reply"
  shows "n \<le> length (pending (socket g)) \<Longrightarrow> length (tcp_response g) + n \<le> MODBUS_VEC_SIZE \<Longrightarrow>
    \<exists>t'. tcp_receive_loop D n b g =
      (Ok (), g\<lparr>socket := t', tcp_response := tcp_response g @ take n (pending (socket g))\<rparr>) \<and>
      pending t' = drop n (pending (socket g)) \<and> requests t' = requests (socket g)"
proof (induction n arbitrary: g b)
  case 0
  then show ?case by (intro exI [of _ "socket g"]) simp
next
  case (Suc n)
  obtain x xs where x: "pending (socket g) = x # xs" using Suc.prems by (cases "pending (socket g)") auto
  then have "1 \<le> length (pending (socket g))" by simp
  then obtain t' where "tcp_read D 1 (socket g) = (Some (take 1 (pending (socket g))), t')"
      "pending t' = drop 1 (pending (socket g))" "requests t' = requests (socket g)"
    using assms unfolding tcp_server_def by blast
  then have t': "tcp_read D 1 (socket g) = (Some [x], t')" "pending t' = xs" "requests t' = requests (socket g)" using x by simp_all
  let ?g = "g\<lparr>socket := t', tcp_response := tcp_response g @ [x]\<rparr>"
  obtain t'' where "tcp_receive_loop D n x ?g =
      (Ok (), ?g\<lparr>socket := t'', tcp_response := tcp_response ?g @ take n xs\<rparr>)" "pending t'' = drop n xs" "requests t'' = requests t'"
    using Suc.IH [of ?g x] Suc.prems x t' by auto
  then show ?case using t' x Suc.prems by auto
qed

lemma tcp_receive_stream:
  assumes "tcp_server D pending requests reply" "pending (socket g) = u16_to_be t @ [0, 0] @ u16_to_be (of_nat (length x)) @ x"
    and "length x \<le> 255"
  shows "\<exists>t'. tcp_receive D g = (Ok (6 + length x), g\<lparr>socket := t', tcp_response := pending (socket g)\<rparr>) \<and> pending t' = [] \<and>
    requests t' = requests (socket g)"
proof -
  let ?q = "pending (socket g)" and ?h = "u16_to_be t @ [0, 0] @ u16_to_be (of_nat (length x)) :: bytes"
  have "6 \<le> length ?q" using assms(2) by simp
  then obtain t1 where "tcp_read D 6 (socket g) = (Some (take 6 ?q), t1)" "pending t1 = drop 6 ?q" "requests t1 = requests (socket g)"
    using assms(1) unfolding tcp_server_def by blast
  then have t1: "tcp_read D 6 (socket g) = (Some ?h, t1)" "pending t1 = x" "requests t1 = requests (socket g)" using assms(2) by simp_all
  have len: "u16_from_be [?h ! 4, ?h ! 5] = Some (of_nat (length x))" "unat (of_nat (length x) :: u16) = length x"
    using assms(3) u16_from_be_nth [of "of_nat (length x)"] by (simp_all add: nth_append unat_of_nat)
  let ?g = "g\<lparr>socket := t1, tcp_response := ?h\<rparr>"
  obtain t2 where t2: "tcp_receive_loop D (length x) 0 ?g = (Ok (), ?g\<lparr>socket := t2, tcp_response := ?h @ x\<rparr>)" "pending t2 = []"
      "requests t2 = requests t1"
    using tcp_receive_loop_stream [OF assms(1), of "length x" ?g 0] t1(2) assms(3) by (auto simp: MODBUS_VEC_SIZE_def)
  have v: "vec_extend MODBUS_VEC_SIZE [] ?h k = (Ok ?h, k)" for k :: "('a, 'b) gateway"
    by (simp add: vec_extend_def MODBUS_VEC_SIZE_def)
  have f: "fill (replicate 6 0) ?h = ?h" by (simp add: fill_def)
  have "tcp_receive D g = (Ok (6 + length x), ?g\<lparr>socket := t2, tcp_response := ?h @ x\<rparr>)"
    unfolding tcp_receive_def socket_bytes_def andq_def Let_def modify_def
    using t1(1) t2(1) len v f by (simp del: append.simps append_assoc u16_from_be.simps)
  then show ?thesis using t2(2,3) t1(3) assms(2) by auto
qed

text \<open>The request on the serial line, the frame the server gets, what the server must answer whatever the transaction
  identifier, and what the serial master gets.\<close>

definition client_request :: "('s, 't) modbus_dev \<Rightarrow> bytes \<Rightarrow> bytes" where
  "client_request D pdu = pdu @ create_crc D pdu"

definition client_frame :: "u16 \<Rightarrow> bytes \<Rightarrow> bytes" where
  "client_frame t pdu = u16_to_be t @ [0, 0, 0, 6] @ pdu"

definition client_good :: "(bytes \<Rightarrow> bytes) \<Rightarrow> (bytes \<Rightarrow> bytes) \<Rightarrow> bytes \<Rightarrow> bool" where
  "client_good reply resp pdu \<longleftrightarrow> length pdu = 6 \<and> 2 \<le> length (resp pdu) \<and> length (resp pdu) \<le> 255 \<and>
     (\<forall>t. reply (client_frame t pdu) = u16_to_be t @ [0, 0] @ u16_to_be (of_nat (length (resp pdu))) @ resp pdu)"

definition client_answer :: "('s, 't) modbus_dev \<Rightarrow> (bytes \<Rightarrow> bytes) \<Rightarrow> bytes \<Rightarrow> bytes" where
  "client_answer D resp pdu = resp pdu @ create_crc D (resp pdu)"

lemma convert_response_bytes:
  assumes "2 \<le> length x" "length x \<le> 255" "counter g = t"
  shows "convert_tcp_reponse_payload_to_rtu_response_payload D (u16_to_be t @ [0, 0] @ u16_to_be (of_nat (length x)) @ x) g =
    (Ok (x @ create_crc D x), g)"
proof -
  have "crc_check D (x @ create_crc D x) g = (Ok (), g)" using assms(1) by (simp add: crc_check_Ok_iff create_crc_def)
  from response_conversions(2) [OF this _ refl] show ?thesis
    using assms(2) unfolding assms(3) [symmetric] by (simp add: create_crc_def)
qed

lemma client_serves_request:
  assumes "serial_master D content out" "tcp_server D pending requests reply"
    and "content (serial g) = client_request D pdu @ rest" "client_good reply resp pdu" "pending (socket g) = []"
  shows "\<exists>g'. process_flow_client D g = (Ok (), g') \<and> pending (socket g') = [] \<and> \<not> tx_en g' \<and>
    counter g' = counter g + 1 \<and> requests (socket g') = requests (socket g) @ [client_frame (counter g + 1) pdu] \<and>
    content (serial g') = rest \<and> out (serial g') = out (serial g) @ client_answer D resp pdu"
proof -
  let ?x = "resp pdu" and ?t = "counter g + 1" and ?r = "pdu @ create_crc D pdu"
  have pdu: "length pdu = 6" "2 \<le> length ?x" "length ?x \<le> 255"
      "reply (u16_to_be ?t @ [0, 0, 0, 6] @ pdu) = u16_to_be ?t @ [0, 0] @ u16_to_be (of_nat (length ?x)) @ ?x"
    using assms(4) by (auto simp: client_good_def client_frame_def)
  let ?g0 = "g\<lparr>led := Some (Off Led3)\<rparr>"
  obtain s1 where s1: "rtu_listen D ?g0 = (Ok (), ?g0\<lparr>serial := s1, rtu_request := ?r\<rparr>)" "content s1 = rest" "out s1 = out (serial g)"
    using listen_to_serial [OF assms(1), of ?g0 pdu rest] assms(3) pdu(1) by (auto simp: client_request_def)
  let ?g1 = "?g0\<lparr>serial := s1, rtu_request := ?r\<rparr>" and ?q = "u16_to_be ?t @ [0, 0, 0, 6] @ pdu"
  let ?g2 = "?g1\<lparr>counter := ?t\<rparr>"
  have crc: "crc_check D ?r ?g1 = (Ok (), ?g1)" using pdu(1) by (simp add: crc_check_Ok_iff create_crc_def)
  have c1: "convert_rtu_request_payload_to_tcp_request_payload ?r ?g1 = (Ok ?q, ?g2)"
    using request_conversions(1) [OF crc, of ?g1] pdu(1) by (simp add: create_crc_def u16_to_be_def)
  obtain t1 where t1: "tcp_write D ?q (socket g) = (True, t1)" "pending t1 = reply ?q" "requests t1 = requests (socket g) @ [?q]"
    using assms(2,5) unfolding tcp_server_def by (metis append_Nil)
  let ?g3 = "?g2\<lparr>tcp_response := [], socket := t1\<rparr>"
  obtain t2 where t2: "tcp_receive D ?g3 = (Ok (6 + length ?x), ?g3\<lparr>socket := t2, tcp_response := reply ?q\<rparr>)" "pending t2 = []"
      "requests t2 = requests t1"
    using tcp_receive_stream [OF assms(2), of ?g3 ?t ?x] t1(2) pdu(3,4) by auto
  let ?g4 = "?g3\<lparr>socket := t2, tcp_response := reply ?q\<rparr>"
  have sr: "tcp_send_and_receive D ?q ?g2 = (Ok (), ?g4)"
    using t1(1) t2(1) by (simp add: tcp_send_and_receive_def tcp_transmit_def andq_def)
  have c2: "convert_tcp_reponse_payload_to_rtu_response_payload D (reply ?q) ?g4 = (Ok (?x @ create_crc D ?x), ?g4)"
    unfolding pdu(4) by (rule convert_response_bytes [OF pdu(2,3)]) simp
  obtain s2 where s2: "rtu_transmit D (?x @ create_crc D ?x) ?g4 = (Ok (), ?g4\<lparr>serial := s2, tx_en := False\<rparr>)"
      "content s2 = rest" "out s2 = out (serial g) @ ?x @ create_crc D ?x"
    using transmit_to_master [OF assms(1), of "?x @ create_crc D ?x" ?g4] s1(2,3) by auto
  have "process_flow_client D g = (Ok (), ?g4\<lparr>serial := s2, tx_en := False, led := Some (On Led3)\<rparr>)"
    unfolding process_flow_client_def using s1(1) c1 sr c2 s2(1) by (simp add: andq_def signal_led_def)
  then show ?thesis using t1(3) t2(2,3) s2(2,3) by (simp add: client_answer_def client_frame_def)
qed

interpretation client: numbering_server "process_flow_client D"
  "\<lambda>g. serial_master D content out \<and> tcp_server D pending requests reply \<and> pending (socket g) = []"
  "\<lambda>g. content (serial g)" "\<lambda>g. out (serial g)" "client_good reply resp" "client_request D" "client_answer D resp"
  counter "\<lambda>g. requests (socket g)" client_frame
  for D content out pending requests reply resp
  by unfold_locales (use client_serves_request in \<open>blast, fastforce\<close>)

text \<open>
  C23. A connection of the client build: requests on the serial line are served one after another
  for as long as the remote answers. The server gets one frame for each, in order, under the consecutive
  transaction identifiers that follow the counter of the gateway (which wraps around and keeps its value
  over connections); the serial master gets the remote's answers with a checksum, in order; and the
  connection stays open.
\<close>

theorem client_serves_connection:
  assumes "serial_master D content out" "tcp_server D pending requests reply"
    and "ip_endpoint_from mode = Ok ip" "sock_connect N ip t0 = (None, t1)" "pending t1 = []"
    and "content (serial g) = concat (map (client_request D) pdus) @ rest" "list_all (client_good reply resp) pdus"
  shows "\<exists>g'. client_round N D mode t0 (replicate (length pdus) Flow) g = (Running, 0, g') \<and> pending (socket g') = [] \<and>
    requests (socket g') = requests t1 @ numbered client_frame (counter g) pdus \<and>
    counter g' = counter g + of_nat (length pdus) \<and>
    content (serial g') = rest \<and> out (serial g') = out (serial g) @ concat (map (client_answer D resp) pdus)"
proof -
  let ?g = "(modbus_tcp_new t0 g)\<lparr>socket := t1\<rparr>"
  have o: "tcp_connect N mode (modbus_tcp_new t0 g) = (Ok (), ?g)"
    by (simp add: tcp_connect_def modbus_tcp_new_def assms(3,4))
  have ready: "serial_master D content out \<and> tcp_server D pending requests reply \<and> pending (socket ?g) = []"
      and inbox: "content (serial ?g) = concat (map (client_request D) pdus) @ rest"
    using assms(1,2,5,6) by (simp_all add: modbus_tcp_new_def)
  obtain g1 where g1: "inner_loop (process_flow_client D) (replicate (length pdus) Flow @ []) ?g =
        inner_loop (process_flow_client D) [] g1"
      "pending (socket g1) = []" "content (serial g1) = rest"
      "out (serial g1) = out (serial ?g) @ concat (map (client_answer D resp) pdus)"
    using client.serves_all [OF ready assms(7) inbox, of "[]"] by blast
  then have r: "inner_loop (process_flow_client D) (replicate (length pdus) Flow) ?g = (Running, g1)" by simp
  from client.numbers_all [OF ready assms(7) inbox r] g1(2-4) r o show ?thesis
    by (simp add: client_round_def connection_round_def modbus_tcp_new_def)
qed

text \<open>A serial line (input, output) and a server (pending bytes, requests) that answers every request with
  the same three bytes. The counter is about to wrap around.\<close>

definition sample_client_dev :: "(bytes \<times> bytes, bytes \<times> bytes list) modbus_dev" where
  "sample_client_dev =
    \<lparr>ser_read = (\<lambda>n s. if n \<le> length (fst s) then (Some (take n (fst s)), (drop n (fst s), snd s)) else (None, s)),
     ser_read_until_idle = (\<lambda>n s. (Some [], s)),
     ser_write = (\<lambda>p s. (True, (fst s, snd s @ p))),
     ser_flush = (\<lambda>s. (True, s)),
     tcp_read = (\<lambda>n t. (Some (take n (fst t)), (drop n (fst t), snd t))),
     tcp_read_exact = (\<lambda>n t. if n \<le> length (fst t) then (Some (take n (fst t)), (drop n (fst t), snd t)) else (None, t)),
     tcp_write = (\<lambda>p t. (True, (fst t @ take 2 p @ [0, 0, 0, 3, 1, 131, 2], snd t @ [p]))),
     crc16 = (\<lambda>bs. of_nat (sum_list (map unat bs)))\<rparr>"

definition sample_client_ops :: "(bytes \<times> bytes list) tcp_ops" where
  "sample_client_ops = \<lparr>sock_connect = (\<lambda>_ t. (None, t)), sock_accept = (\<lambda>_ t. (True, t)), sock_closed = (\<lambda>_. False),
     sock_close = (\<lambda>t. t), sock_abort = (\<lambda>t. t)\<rparr>"

theorem client_serves_connection_witness:
  "\<exists>g'. client_round sample_client_ops sample_client_dev (TcpClient (V4 [10, 0, 0, 2] 502)) ([], [])
      (replicate 2 Flow) ((modbus_rtu_new ([1, 3, 0, 0, 0, 1, 5, 0, 1, 3, 0, 0, 0, 2, 6, 0], []) ([], []))\<lparr>counter := 0xfffe\<rparr>) = (Running, 0, g') \<and>
    snd (serial g') = [1, 131, 2, 134, 0, 1, 131, 2, 134, 0] \<and>
    snd (socket g') = [[255, 255, 0, 0, 0, 6, 1, 3, 0, 0, 0, 1], [0, 0, 0, 0, 0, 6, 1, 3, 0, 0, 0, 2]]"
proof -
  let ?reply = "\<lambda>p :: bytes. take 2 p @ [0, 0, 0, 3, 1, 131, 2]"
  let ?g = "(modbus_rtu_new ([1, 3, 0, 0, 0, 1, 5, 0, 1, 3, 0, 0, 0, 2, 6, 0], []) ([], []))\<lparr>counter := 0xfffe\<rparr>"
  have peers: "serial_master sample_client_dev fst snd" "tcp_server sample_client_dev fst snd ?reply"
    by (auto simp: serial_master_def tcp_server_def sample_client_dev_def)
  have good: "list_all (client_good ?reply (\<lambda>_. [1, 131, 2])) [[1, 3, 0, 0, 0, 1], [1, 3, 0, 0, 0, 2]]"
    by (simp add: client_good_def client_frame_def u16_to_be_def)
  have two: "(2::nat) = length [[1, 3, 0, 0, 0, 1 :: u8], [1, 3, 0, 0, 0, 2]]" by simp
  show ?thesis unfolding two
    using client_serves_connection [OF peers _ _ _ _ good, where mode = "TcpClient (V4 [10, 0, 0, 2] 502)" and rest = "[]" and
        ?t0.0 = "([], [])" and g = ?g and N = sample_client_ops]
    by (fastforce simp: sample_client_dev_def sample_client_ops_def modbus_rtu_new_def client_request_def client_answer_def create_crc_def
        client_frame_def u16_to_le_def u16_to_be_def)
qed

section \<open>A remote that is gone\<close>

lemma unwritable_flow:
  assumes "\<And>p t. \<not> fst (tcp_write D p t)" "\<And>n s bs s'. ser_read D n s = (Some bs, s') \<Longrightarrow> length bs = n"
  shows "fst (process_flow_client D g) \<in> {Err RtuError, Err CrcRx, Err TcpError}"
proof (cases "rtu_listen D (g\<lparr>led := Some (Off Led3)\<rparr>)")
  case (Pair r g1)
  have l: "r \<in> {Ok (), Err RtuError, Err CrcRx} \<and> (r = Ok () \<longrightarrow> length (rtu_request g1) = 8)"
    using Pair assms(2) [of 8 "serial g"]
    by (auto simp: rtu_listen_def serial_bytes_def andq_def vec_extend_def crc_check_def MODBUS_RTU_REQ_VEC_SIZE_def Let_def
        split: prod.splits option.splits if_splits outcome.splits)
  have "fst (andq (andq (gets rtu_request) convert_rtu_request_payload_to_tcp_request_payload)
      (\<lambda>tcp_payload. thenq (tcp_send_and_receive D tcp_payload) m) g1) = Err TcpError"
    if "length (rtu_request g1) = 8" for m :: "('b, 'a, unit) mop"
    using that assms(1)
    by (simp add: convert_rtu_request_payload_to_tcp_request_payload_def increment_adds_one mbap_frame_fits andq_def
        MODBUS_TCP_REQ_VEC_SIZE_def tcp_send_and_receive_def tcp_transmit_def case_prod_unfold)
  then show ?thesis
    using l Pair by (auto simp: process_flow_client_def signal_led_def andq_def split: outcome.splits prod.splits)
qed

text \<open>
  C24. When the TCP connection of the client build is broken so that every write fails, the task
  does not connect again: each request of the serial master ends in an error that is only logged, and
  however many there are the inner loop goes on. Only a serial line that is silent until the timer
  fires ends the connection.
\<close>

theorem client_keeps_broken_connection:
  assumes "\<And>p t. \<not> fst (tcp_write D p t)" "\<And>n s bs s'. ser_read D n s = (Some bs, s') \<Longrightarrow> length bs = n"
  shows "(\<exists>g'. inner_loop (process_flow_client D) (replicate n Flow) g = (Running, g')) \<and>
    fst (process_flow_client D g) \<in> {Err RtuError, Err CrcRx, Err TcpError} \<and>
    fst (inner_loop (process_flow_client D) (replicate n Flow @ [Timeout g0]) g) = Left"
proof -
  have f: "fst (process_flow_client D g) \<in> {Err RtuError, Err CrcRx, Err TcpError}" for g
    by (rule unwritable_flow) (use assms in auto)
  have "(\<exists>g'. inner_loop (process_flow_client D) (replicate n Flow) g = (Running, g')) \<and>
      fst (inner_loop (process_flow_client D) (replicate n Flow @ [Timeout g0]) g) = Left"
  proof (induction n arbitrary: g)
    case 0
    then show ?case by simp
  next
    case (Suc n)
    obtain r g1 where r: "process_flow_client D g = (r, g1)" by (cases "process_flow_client D g")
    then have "r \<in> {Err RtuError, Err CrcRx, Err TcpError}" using f [of g] by simp
    then show ?case using r Suc.IH [of g1] by auto
  qed
  then show ?thesis using f [of g] by blast
qed

theorem client_keeps_broken_connection_witness:
  "fst (inner_loop (process_flow_client (sample_client_dev\<lparr>tcp_write := \<lambda>p t. (False, t)\<rparr>)) (replicate 7 Flow)
     (modbus_rtu_new ([1, 3, 0, 0, 0, 1, 5, 0], []) ([], []))) = Running"
proof -
  let ?D = "sample_client_dev\<lparr>tcp_write := \<lambda>p t. (False, t)\<rparr>"
  have "\<not> fst (tcp_write ?D p t)" "ser_read ?D n s = (Some bs, s') \<Longrightarrow> length bs = n" for p t n s bs s'
    by (auto simp: sample_client_dev_def split: if_splits)
  then show ?thesis
    using client_keeps_broken_connection [of ?D 7 "modbus_rtu_new ([1, 3, 0, 0, 0, 1, 5, 0], []) ([], [])"] by fastforce
qed

text \<open>The header of a response is read with one call of \<open>read\<close>, which may give fewer bytes: with at most
  four the length is taken from the zeros left in the array, and the exchange fails with the rest of the
  response still unread.\<close>

lemma short_header_misread:
  assumes "tcp_read D 6 (socket g) = (Some chunk, t')" "length chunk \<le> 4"
  shows "tcp_receive D g = (Ok 6, g\<lparr>socket := t', tcp_response := chunk @ replicate (6 - length chunk) 0\<rparr>)"
proof -
  have f: "fill (replicate 6 0) chunk = chunk @ replicate (6 - length chunk) 0" by (simp add: fill_def)
  have "u16_from_be [fill (replicate 6 0) chunk ! 4, fill (replicate 6 0) chunk ! 5] = Some 0"
    using assms(2) by (simp add: f nth_append)
  then show ?thesis using assms
    by (simp add: tcp_receive_def socket_bytes_def andq_def Let_def vec_extend_def MODBUS_VEC_SIZE_def f del: u16_from_be.simps)
qed

section \<open>The OB737 meter filter\<close>

text \<open>The floating-point operations are parameters: the value of four bytes, the product with 10000, the
  conversion to \<open>u16\<close>, the bytes of a value and zero.\<close>

record 'f float_ops =
  f32_from_be :: "bytes \<Rightarrow> 'f"
  f32_times_10000 :: "'f \<Rightarrow> 'f"
  f32_as_u16 :: "'f \<Rightarrow> u16"
  f32_to_be :: "'f \<Rightarrow> bytes"
  f32_zero :: 'f

record 'f fox_ob737 =
  ob_request :: bytes
  meters :: "'f list"
  reactive :: u16
  read_first :: bool

definition fox_ob737_default :: "'f float_ops \<Rightarrow> 'f fox_ob737" where
  "fox_ob737_default F = \<lparr>ob_request = [], meters = replicate 3 (f32_zero F), reactive = 0, read_first = False\<rparr>"

definition FOX_REQ :: bytes where "FOX_REQ = [1, 3]"

definition fox_to_om737_tcp_request_filter :: "bytes \<Rightarrow> ('f fox_ob737, modbus_error, bytes) op" where
  "fox_to_om737_tcp_request_filter input ob =
     (let ob1 = ob\<lparr>ob_request := input\<rparr>; mbap = take 6 input; pdu = drop 6 input in
      if length input < 8 then (Panic, ob1)
      else if FOX_REQ \<noteq> take 2 pdu then (Err InvalidFilter, ob1)
      else
        let pl_request = (if read_first ob1 then [0, 0, 0, 6, 1, 4, 0, 144, 0, 6] else [0, 0, 0, 6, 1, 4, 1, 16, 0, 8]) in
        (Ok (take 2 mbap @ pl_request), ob1\<lparr>read_first := \<not> read_first ob1\<rparr>))"

text \<open>\<open>chunks(4)\<close> of the data; a chunk that is read needs its four bytes, or indexing it panics.\<close>

fun chunks4 :: "bytes \<Rightarrow> bytes list" where
  "chunks4 [] = []"
| "chunks4 (b # bs) = take 4 (b # bs) # chunks4 (drop 3 bs)"

fun store_meters :: "'f float_ops \<Rightarrow> nat \<Rightarrow> bytes list \<Rightarrow> 'f list \<Rightarrow> 'f list option" where
  "store_meters F u [] ms = Some ms"
| "store_meters F u (v # vs) ms =
     (if length v < 4 then None else store_meters F (u + 1) vs (ms[u := f32_times_10000 F (f32_from_be F v)]))"

definition om737_to_fox_rtu_request_filter ::
    "('s, 't) modbus_dev \<Rightarrow> 'f float_ops \<Rightarrow> bytes \<Rightarrow> ('f fox_ob737, modbus_error, bytes) op" where
  "om737_to_fox_rtu_request_filter D F input ob =
     (case index input 2 of
        None \<Rightarrow> (Panic, ob)
      | Some bytes_len \<Rightarrow>
          let data = chunks4 (drop 3 input);
              answer = (\<lambda>ob.
                if length (ob_request ob) < 6 then (Panic, ob)
                else
                  let payload = take 2 (ob_request ob) @ [ob_request ob ! 5] @
                        concat (map (f32_to_be F) (take 3 (meters ob))) @ u16_to_be (reactive ob) in
                  if length payload < 17 then (Panic, ob)
                  else (Ok (payload @ create_crc D (take 17 payload)), ob)) in
          if bytes_len = 12 then
            (case store_meters F 0 (take 3 data) (meters ob) of
               None \<Rightarrow> (Panic, ob)
             | Some ms \<Rightarrow> answer (ob\<lparr>meters := ms\<rparr>))
          else if bytes_len = 16 then
            (case take 1 (drop 3 data) of
               v # _ \<Rightarrow> if length v < 4 then (Panic, ob) else answer (ob\<lparr>reactive := f32_as_u16 F (f32_from_be F v)\<rparr>)
             | [] \<Rightarrow> answer ob)
          else (Ok input, ob))"

text \<open>The flow of this build: the filter is a local value of the flow.\<close>

definition process_flow_ob737 :: "('s, 't) modbus_dev \<Rightarrow> 'f float_ops \<Rightarrow> ('s, 't, unit) mop" where
  "process_flow_ob737 D F =
     thenq (signal_led (Off Led3))
     (let ob0 = fox_ob737_default F in
      thenq (rtu_listen D)
     (andq (andq (gets rtu_request) convert_rtu_request_payload_to_tcp_request_payload) (\<lambda>f.
      let (r, ob1) = fox_to_om737_tcp_request_filter f ob0 in
      andq (lift_outcome r) (\<lambda>tcp_payload.
      thenq (tcp_send_and_receive D tcp_payload)
     (andq (andq (gets tcp_response) (convert_tcp_reponse_payload_to_rtu_response_payload D)) (\<lambda>f.
      let (r, ob2) = om737_to_fox_rtu_request_filter D F f ob1 in
      andq (lift_outcome r) (\<lambda>rtu_send.
      thenq (rtu_transmit D rtu_send)
     (signal_led (On Led3)))))))))"

text \<open>A new filter asks for the second block of registers, whatever was asked before, so the toggle never
  matters: the energy meters are never read. The answer to that block has zero for the three meters,
  and begins with the transaction identifier in place of the unit and the function code.\<close>

lemma fresh_filter_request:
  assumes "8 \<le> length input" "take 2 (drop 6 input) = FOX_REQ"
  shows "fox_to_om737_tcp_request_filter input (fox_ob737_default F) =
    (Ok (take 2 input @ [0, 0, 0, 6, 1, 4, 1, 16, 0, 8]), (fox_ob737_default F)\<lparr>ob_request := input, read_first := True\<rparr>)"
  using assms by (simp add: fox_to_om737_tcp_request_filter_def fox_ob737_default_def Let_def)

lemma replicate_three: "replicate 3 z = [z, z, z]"
  by (simp add: numeral_3_eq_3)

lemma fresh_filter_answer:
  assumes "length input = 21" "input ! 2 = 16" "6 \<le> length req" "length (f32_to_be F (f32_zero F)) = 4"
  shows "\<exists>r ob. om737_to_fox_rtu_request_filter D F input ((fox_ob737_default F)\<lparr>ob_request := req, read_first := True\<rparr>) = (Ok r, ob) \<and>
    take 15 r = take 2 req @ [req ! 5] @ concat (replicate 3 (f32_to_be F (f32_zero F)))"
proof -
  have step: "chunks4 xs = take 4 xs # chunks4 (drop 4 xs)" if "4 \<le> length xs" for xs
    using that by (cases xs) (simp_all add: numeral_eq_Suc)
  have data: "drop 3 (chunks4 (drop 3 input)) = take 4 (drop 15 input) # chunks4 (drop 19 input)"
    using assms(1) by (simp add: step)
  have bytes_len: "index input 2 = Some 16" using assms(1,2) by (simp add: index_def)
  have v: "length (take 4 (drop 15 input)) = 4" using assms(1) by simp
  show ?thesis unfolding om737_to_fox_rtu_request_filter_def bytes_len Let_def data
    using assms(3,4) v by (simp add: fox_ob737_default_def replicate_three)
qed

end
