(* ===== verification/Byte_Writer.thy ===== *)
theory Byte_Writer
  imports Rust_Prelude
begin

text \<open>
  The text writers over fixed buffers: \<open>ByteMutWriter\<close> and \<open>ByteMutWriterCap\<close> of
  stm32f407_controller/src/bin/utils/bytes_writer.rs (the second one again in syslog-emb/src/lib.rs),
  which differ only in who owns the array, and \<open>SliceWriter\<close> of tasks/mqtt.rs. A formatted write
  calls \<open>write_str\<close> once per piece; the interface below says what any sequence of pieces leaves in
  the buffer, and the web server and the syslog client rest on it.
\<close>

section \<open>The writer\<close>

record byte_writer =
  bw_buf :: bytes
  bw_cursor :: nat

definition byte_mut_writer_new :: "bytes \<Rightarrow> byte_writer" where
  "byte_mut_writer_new buf = \<lparr>bw_buf = buf, bw_cursor = 0\<rparr>"

definition byte_mut_writer_cap_new :: "nat \<Rightarrow> byte_writer" where
  "byte_mut_writer_cap_new n = \<lparr>bw_buf = replicate n 0, bw_cursor = 0\<rparr>"

definition bw_capacity :: "byte_writer \<Rightarrow> nat" where
  "bw_capacity w = length (bw_buf w)"

definition bw_clear :: "byte_writer \<Rightarrow> byte_writer" where
  "bw_clear w = w\<lparr>bw_buf := replicate (length (bw_buf w)) 0, bw_cursor := 0\<rparr>"

text \<open>\<open>as_str\<close> unwraps the UTF-8 check of the bytes before the cursor.\<close>

definition bw_as_str :: "byte_writer \<Rightarrow> (unit, bytes) outcome" where
  "bw_as_str w =
     (case slice (bw_buf w) 0 (bw_cursor w) of
        None \<Rightarrow> Panic
      | Some bs \<Rightarrow> if utf8_valid bs then Ok bs else Panic)"

text \<open>\<open>borrow\<close>, and \<open>to_string\<close> into a string of the same capacity, which therefore always fits.\<close>

definition bw_borrow :: "byte_writer \<Rightarrow> (unit, bytes) outcome" where
  "bw_borrow w = (case slice (bw_buf w) 0 (bw_cursor w) of None \<Rightarrow> Panic | Some bs \<Rightarrow> Ok bs)"

definition bw_to_string :: "byte_writer \<Rightarrow> (unit, bytes) outcome" where
  "bw_to_string w =
     bind_outcome (bw_as_str w) (\<lambda>s. unwrap_option (if length s \<le> bw_capacity w then Some s else None))"

definition bw_empty :: "byte_writer \<Rightarrow> bool" where
  "bw_empty w \<longleftrightarrow> bw_cursor w = 0"

definition bw_full :: "byte_writer \<Rightarrow> bool" where
  "bw_full w \<longleftrightarrow> bw_capacity w = bw_cursor w"

text \<open>The loop zips the rest of the buffer with the bytes of the string, so that what does not fit
  is dropped without an error; the slice before it panics if the cursor were past the end.\<close>

definition bw_write_str :: "byte_writer \<Rightarrow> bytes \<Rightarrow> byte_writer" where
  "bw_write_str w s =
     (let cap = bw_capacity w; n = min (cap - bw_cursor w) (length s) in
      w\<lparr>bw_buf := splice (bw_buf w) (bw_cursor w) (take n s), bw_cursor := min cap (bw_cursor w + length s)\<rparr>)"

definition bw_inv :: "byte_writer \<Rightarrow> bool" where
  "bw_inv w \<longleftrightarrow> bw_cursor w \<le> length (bw_buf w)"

definition bw_contents :: "byte_writer \<Rightarrow> bytes" where
  "bw_contents w = take (bw_cursor w) (bw_buf w)"

text \<open>\<open>SliceWriter\<close> shortens its slice and refuses what does not fit. The pair is what was
  written and the rest of the slice; None is \<open>fmt::Error\<close>.\<close>

definition slice_write_str :: "bytes \<times> bytes \<Rightarrow> bytes \<Rightarrow> (bytes \<times> bytes) option" where
  "slice_write_str w s =
     (if length (snd w) < length s then None else Some (fst w @ s, drop (length s) (snd w)))"

section \<open>The interface of a writer\<close>

text \<open>A writer that keeps the longest prefix of everything written that fits.\<close>

locale prefix_writer =
  fixes inv_w :: "'w \<Rightarrow> bool" and cap :: "'w \<Rightarrow> nat" and contents :: "'w \<Rightarrow> bytes"
    and put :: "'w \<Rightarrow> bytes \<Rightarrow> 'w"
  assumes write_inv: "inv_w w \<Longrightarrow> inv_w (put w s)"
    and write_cap: "inv_w w \<Longrightarrow> cap (put w s) = cap w"
    and write_contents: "inv_w w \<Longrightarrow> contents (put w s) = take (cap w) (contents w @ s)"
    and contents_fit: "inv_w w \<Longrightarrow> length (contents w) \<le> cap w"
begin

lemma pieces_inv: "inv_w w \<Longrightarrow> inv_w (fold (\<lambda>s w. put w s) ss w)"
  by (induction ss arbitrary: w) (simp_all add: write_inv)

lemma pieces_cap: "inv_w w \<Longrightarrow> cap (fold (\<lambda>s w. put w s) ss w) = cap w"
  by (induction ss arbitrary: w) (simp_all add: write_inv write_cap)

lemma pieces_contents: "inv_w w \<Longrightarrow> contents (fold (\<lambda>s w. put w s) ss w) = take (cap w) (contents w @ concat ss)"
proof (induction ss arbitrary: w)
  case Nil
  then show ?case using contents_fit by simp
next
  case (Cons s ss)
  have "contents (fold (\<lambda>s w. put w s) ss (put w s)) = take (cap w) (take (cap w) (contents w @ s) @ concat ss)"
    using Cons.IH [OF write_inv [OF Cons.prems, of s]] Cons.prems by (simp add: write_cap write_contents)
  also have "take (cap w) (take (cap w) xs @ ys) = take (cap w) (xs @ ys)" for xs ys :: bytes
    by (simp add: take_append min_def)
  then have "take (cap w) (take (cap w) (contents w @ s) @ concat ss) = take (cap w) ((contents w @ s) @ concat ss)" .
  finally show ?case by simp
qed

text \<open>How the text is cut into pieces does not matter.\<close>

lemma pieces_one: "inv_w w \<Longrightarrow> contents (fold (\<lambda>s w. put w s) ss w) = contents (put w (concat ss))"
  by (simp add: pieces_contents write_contents)

end

lemma bw_write_contents:
  assumes "bw_inv w"
  shows "bw_contents (bw_write_str w s) = take (bw_capacity w) (bw_contents w @ s)"
proof -
  let ?c = "bw_cursor w" and ?b = "bw_buf w"
  let ?n = "min (length ?b - ?c) (length s)"
  have c: "?c \<le> length ?b" using assms by (simp add: bw_inv_def)
  have "min (length ?b) (?c + length s) = ?c + ?n" using c by auto
  then have "bw_contents (bw_write_str w s) = take (?c + length (take ?n s)) (splice ?b ?c (take ?n s))"
    by (simp add: bw_contents_def bw_write_str_def bw_capacity_def Let_def)
  also have "\<dots> = take ?c ?b @ take ?n s" using c by (intro take_splice) auto
  also have "\<dots> = take (length ?b) (take ?c ?b @ s)"
  proof -
    have "take ?n s = take (length ?b - ?c) s" by (simp add: min_def)
    then show ?thesis using c by (simp add: take_append)
  qed
  finally show ?thesis by (simp add: bw_contents_def bw_capacity_def)
qed

interpretation bw: prefix_writer bw_inv bw_capacity bw_contents bw_write_str
proof
  fix w s assume i: "bw_inv w"
  have l: "length (splice (bw_buf w) (bw_cursor w) (take (min (length (bw_buf w) - bw_cursor w) (length s)) s)) = length (bw_buf w)"
    using i by (intro length_splice) (auto simp: bw_inv_def)
  then show "bw_inv (bw_write_str w s)" by (simp add: bw_inv_def bw_write_str_def bw_capacity_def Let_def)
  show "bw_capacity (bw_write_str w s) = bw_capacity w"
    using l by (simp add: bw_capacity_def bw_write_str_def Let_def)
  show "bw_contents (bw_write_str w s) = take (bw_capacity w) (bw_contents w @ s)" by (rule bw_write_contents [OF i])
  show "length (bw_contents w) \<le> bw_capacity w" by (simp add: bw_contents_def bw_capacity_def)
qed

definition bw_write_fmt :: "byte_writer \<Rightarrow> bytes list \<Rightarrow> byte_writer" where
  "bw_write_fmt w pieces = fold (\<lambda>s w. bw_write_str w s) pieces w"

lemma bw_new_inv [simp]: "bw_inv (byte_mut_writer_new buf)" "bw_inv (byte_mut_writer_cap_new n)"
  by (simp_all add: bw_inv_def byte_mut_writer_new_def byte_mut_writer_cap_new_def)

lemma bw_write_fmt_simps:
  assumes "bw_inv w"
  shows "bw_contents (bw_write_fmt w ss) = take (bw_capacity w) (bw_contents w @ concat ss)"
    and "bw_inv (bw_write_fmt w ss)" and "bw_capacity (bw_write_fmt w ss) = bw_capacity w"
  unfolding bw_write_fmt_def
  by (rule bw.pieces_contents [OF assms], rule bw.pieces_inv [OF assms], rule bw.pieces_cap [OF assms])

lemma bw_cursor_contents: "bw_inv w \<Longrightarrow> bw_cursor w = length (bw_contents w)"
  by (simp add: bw_inv_def bw_contents_def)

lemma bw_new_fmt:
  "bw_contents (bw_write_fmt (byte_mut_writer_new buf) ss) = take (length buf) (concat ss)"
  by (simp add: bw_write_fmt_simps) (simp add: bw_contents_def bw_capacity_def byte_mut_writer_new_def)

lemma bw_slice_contents: "bw_inv w \<Longrightarrow> n \<le> bw_cursor w \<Longrightarrow> slice (bw_buf w) 0 n = Some (take n (bw_contents w))"
  by (simp add: slice_def bw_inv_def bw_contents_def min_def)

lemma bw_slice_all: "bw_inv w \<Longrightarrow> slice (bw_buf w) 0 (bw_cursor w) = Some (bw_contents w)"
  by (simp add: slice_def bw_inv_def bw_contents_def)

text \<open>
  C34. A formatted write to a new writer refines the abstract writer that keeps the longest prefix
  that fits: the buffer then starts with the first \<open>cap\<close> bytes of the text, whatever pieces it came
  in, the cursor is their number, and nothing is reported when the text was cut off.
\<close>

theorem byte_writer_keeps_prefix:
  "let w = bw_write_fmt (byte_mut_writer_new buf) pieces in
   take (bw_cursor w) (bw_buf w) = take (length buf) (concat pieces) \<and>
   bw_cursor w = min (length buf) (length (concat pieces)) \<and> length (bw_buf w) = length buf"
proof -
  let ?w = "bw_write_fmt (byte_mut_writer_new buf) pieces"
  have c: "bw_contents ?w = take (length buf) (concat pieces)" by (rule bw_new_fmt)
  have "bw_cursor ?w = length (bw_contents ?w)" by (intro bw_cursor_contents bw_write_fmt_simps(2)) simp
  then have "bw_cursor ?w = min (length buf) (length (concat pieces))" unfolding c by (simp add: min.commute)
  moreover have "bw_capacity ?w = length buf"
    using bw_write_fmt_simps(3) [OF bw_new_inv(1), of buf pieces] by (simp add: bw_capacity_def byte_mut_writer_new_def)
  ultimately show ?thesis
    using c unfolding Let_def by (simp add: bw_contents_def bw_capacity_def)
qed

end
