(* ===== verification/Http_Server.thy ===== *)
theory Http_Server
  imports Byte_Writer Controller_Config Network_Wait
begin

text \<open>
  The web server (stm32f407_controller/src/bin/web/http.rs): the request methods, the responses, the
  cell statistics, the routes, the read loop of one connection and the loop of a worker over
  connections (\<open>spawned_http\<close>), and how the workers start (\<open>http_net_task\<close>). The request
  parser and the URL parser, the JSON texts and the HTML pages are parameters; a page is the bytes
  that \<open>include_bytes!\<close> embeds.
\<close>

section \<open>Methods and content types\<close>

datatype http_request_type = Get | Post | Invalid

fun http_request_type_from_str :: "string \<Rightarrow> http_request_type" where
  "http_request_type_from_str s = (if s = ''GET'' then Get else if s = ''POST'' then Post else Invalid)"

fun http_request_type_decode :: "string option \<Rightarrow> (stm_error, http_request_type) outcome" where
  "http_request_type_decode None = Err InvalidHttpRequest"
| "http_request_type_decode (Some m) = Ok (http_request_type_from_str m)"

datatype http_type = Json | Html | Plain

fun http_type_as_str :: "http_type \<Rightarrow> bytes" where
  "http_type_as_str Json = lit ''application/json''"
| "http_type_as_str Html = lit ''text/html''"
| "http_type_as_str Plain = lit ''text/plain''"

section \<open>Responses\<close>

definition CRLF :: bytes where "CRLF = [13, 10]"

text \<open>The pieces that \<open>write!\<close> hands to the writer.\<close>

definition response_pieces :: "bytes \<Rightarrow> http_type \<Rightarrow> bytes list" where
  "response_pieces body h =
     [lit ''HTTP/1.1 200 OK'' @ CRLF @ lit ''Content-Type: '', http_type_as_str h,
      CRLF @ lit ''Content-Length: '', decimal (length body), CRLF @ CRLF, body]"

text \<open>The body must be UTF-8: \<open>from_utf8(body).unwrap()\<close>. The writer never fails.\<close>

definition construct_response :: "bytes \<Rightarrow> http_type \<Rightarrow> byte_writer \<Rightarrow> (unit, byte_writer) outcome" where
  "construct_response body h response =
     (if utf8_valid body then Ok (bw_write_fmt response (response_pieces body h)) else Panic)"

definition cell_text :: "u16 \<times> bool \<Rightarrow> bytes list" where
  "cell_text c = [decimal (unat (fst c)), lit '','', decimal (if snd c then 1 else 0), lit '','']"

text \<open>\<open>&buf[..cursor - 1]\<close> panics when nothing was written: the subtraction wraps around.\<close>

definition cell_stats :: "bytes \<Rightarrow> (u16 \<times> bool) list \<Rightarrow> (unit, bytes) outcome" where
  "cell_stats buf cells =
     (let w = bw_write_fmt (byte_mut_writer_new buf) (concat (map cell_text cells)) in
      if bw_cursor w = 0 then Panic
      else case slice (bw_buf w) 0 (bw_cursor w - 1) of None \<Rightarrow> Panic | Some bs \<Rightarrow> Ok bs)"

section \<open>Routes\<close>

definition RESPONSE_SIZE :: nat where "RESPONSE_SIZE = 1024 * 12"

record web_pages =
  index_html :: bytes
  settings_html :: bytes
  cells_html :: bytes

record web_data =
  config_json :: bytes
  bms_json :: bytes
  cell_values :: "(u16 \<times> bool) list"

text \<open>What is answered to a path: None closes the connection without an answer.\<close>

definition route :: "web_pages \<Rightarrow> web_data \<Rightarrow> string option \<Rightarrow> (unit, (bytes \<times> http_type) option) outcome" where
  "route W D path =
     (case path of
        None \<Rightarrow> Ok (Some (settings_html W, Html))
      | Some p \<Rightarrow>
          if p = ''/favicon.ico'' then Ok None
          else if p = ''/api/config'' then Ok (Some (config_json D, Json))
          else if p = ''/api/cells'' then
            bind_outcome (cell_stats (replicate 672 0) (cell_values D)) (\<lambda>s. Ok (Some (s, Plain)))
          else if p = ''/api/bms'' then Ok (Some (bms_json D, Json))
          else if p = ''/settings'' then Ok (Some (settings_html W, Html))
          else if p = ''/cells'' then Ok (Some (cells_html W, Html))
          else Ok (Some (index_html W, Html)))"

definition respond :: "web_pages \<Rightarrow> web_data \<Rightarrow> string option \<Rightarrow> (unit, bytes option) outcome" where
  "respond W D path =
     bind_outcome (route W D path) (\<lambda>r. case r of
        None \<Rightarrow> Ok None
      | Some (body, h) \<Rightarrow>
          bind_outcome (construct_response body h (byte_mut_writer_new (replicate RESPONSE_SIZE 0)))
            (\<lambda>w. case slice (bw_buf w) 0 (bw_cursor w) of None \<Rightarrow> Panic | Some bs \<Rightarrow> Ok (Some bs)))"

section \<open>The read loop\<close>

text \<open>What the request parser makes of the bytes: an error, an incomplete request, or a request with
  the result of the URL parser on its path (None when the request has no path, \<open>Some None\<close> when the
  URL does not parse).\<close>

datatype parsed = Parse_error | Partial | Complete "string option option option"

text \<open>What a worker does with its socket; \<open>Sock_write\<close> has the bytes that the socket takes. A call of \<open>write\<close> takes what
  fits into the transmit buffer and returns their number. The buffer is empty at the only write of a connection. The
  worker looks at neither the number nor, but for a message, at the error of a connection that is already
  gone (nothing is sent then).\<close>

definition TXBUF :: nat where "TXBUF = 512 * 8"

definition tcp_socket_write :: "bytes \<Rightarrow> bytes" where
  "tcp_socket_write bs = take TXBUF bs"

datatype socket_action = Sock_write bytes | Delay_ms nat | Sock_close | Sock_abort

definition close_and_abort :: "socket_action list" where
  "close_and_abort = [Delay_ms 100, Sock_close, Delay_ms 100, Sock_abort]"

definition serve_path :: "web_pages \<Rightarrow> web_data \<Rightarrow> string option \<Rightarrow> (unit, socket_action list) outcome" where
  "serve_path W D path =
     bind_outcome (respond W D path) (\<lambda>r. case r of
        None \<Rightarrow> Ok []
      | Some bs \<Rightarrow> Ok (Sock_write (tcp_socket_write bs) # close_and_abort))"

text \<open>A read puts its bytes at the start of the buffer; the slice handed to the parser starts at
  \<open>pos\<close>. A read that fails is \<open>None\<close>; at the end of the list the timeout of the socket ends the read. The
  socket is closed only after an answer to a path.\<close>

fun http_loop :: "(bytes \<Rightarrow> parsed) \<Rightarrow> web_pages \<Rightarrow> web_data \<Rightarrow> bytes \<Rightarrow> nat \<Rightarrow> bytes option list \<Rightarrow>
    (unit, socket_action list) outcome" where
  "http_loop parse W D buffer pos [] = Ok []"
| "http_loop parse W D buffer pos (None # reads) = Ok []"
| "http_loop parse W D buffer pos (Some chunk # reads) =
     (let len = length chunk; buffer' = splice buffer 0 chunk in
      if len = 0 then Ok []
      else case slice buffer' pos (pos + len) of
          None \<Rightarrow> Panic
        | Some buf \<Rightarrow>
            (case parse buf of
               Parse_error \<Rightarrow> Ok []
             | Partial \<Rightarrow> http_loop parse W D buffer' (pos + len) reads
             | Complete None \<Rightarrow> Ok [Sock_write (tcp_socket_write (lit ''FOO''))]
             | Complete (Some None) \<Rightarrow> Ok []
             | Complete (Some (Some path)) \<Rightarrow> serve_path W D path))"

definition http_connection :: "(bytes \<Rightarrow> parsed) \<Rightarrow> web_pages \<Rightarrow> web_data \<Rightarrow> bytes option list \<Rightarrow>
    (unit, socket_action list) outcome" where
  "http_connection parse W D reads = http_loop parse W D (replicate 1024 0) 0 reads"

section \<open>What is sent\<close>

definition response_head :: "nat \<Rightarrow> http_type \<Rightarrow> bytes" where
  "response_head n h = lit ''HTTP/1.1 200 OK'' @ CRLF @ lit ''Content-Type: '' @ http_type_as_str h @
     CRLF @ lit ''Content-Length: '' @ decimal n @ CRLF @ CRLF"

lemma concat_response_pieces: "concat (response_pieces body h) = response_head (length body) h @ body"
  by (simp add: response_pieces_def response_head_def)

lemma length_response_head: "length (response_head n h) = 53 + length (http_type_as_str h) + length (decimal n)"
  by (simp add: response_head_def CRLF_def)

lemma length_http_type: "length (http_type_as_str h) \<le> 16"
  by (cases h) simp_all

lemma construct_response_slice:
  assumes "utf8_valid body"
  shows "\<exists>w. construct_response body h (byte_mut_writer_new (replicate RESPONSE_SIZE 0)) = Ok w \<and>
    slice (bw_buf w) 0 (bw_cursor w) = Some (take RESPONSE_SIZE (response_head (length body) h @ body))"
proof -
  let ?w = "bw_write_fmt (byte_mut_writer_new (replicate RESPONSE_SIZE 0)) (response_pieces body h)"
  have i: "bw_inv ?w" by (intro bw_write_fmt_simps(2)) simp
  show ?thesis using assms bw_slice_all [OF i]
    by (simp add: construct_response_def bw_new_fmt concat_response_pieces)
qed

text \<open>
  C35. What a connection sends when its first read is a whole request for a path that has a page: one write of the
  header, which announces the length of the body, and the body, of which the network stack takes no more
  than the 4096 bytes of the transmit buffer; the rest is never written, and the socket is closed 100 ms
  later. So a client gets the whole page only if header and body fit into 4096 bytes. The index of 3096
  bytes and the cells page of 3656 do; of the settings page of 12523 bytes two thirds are missing
  although the header promises them. The 12288 bytes of the response buffer never matter.
\<close>

theorem http_page_sent:
  assumes "parse request = Complete (Some (Some path))" "request \<noteq> []" "length request \<le> 1024"
    and "route W D path = Ok (Some (body, h))" "utf8_valid body"
  shows "\<exists>sent. http_connection parse W D (Some request # reads) = Ok (Sock_write sent # close_and_abort) \<and>
    sent = take 4096 (response_head (length body) h @ body) \<and>
    (sent = response_head (length body) h @ body \<longleftrightarrow> length (response_head (length body) h) + length body \<le> 4096)"
proof -
  let ?r = "response_head (length body) h @ body"
  have "respond W D path = Ok (Some (take RESPONSE_SIZE ?r))"
    using construct_response_slice [OF assms(5), of h] assms(4) by (auto simp: respond_def)
  moreover have "take TXBUF (take RESPONSE_SIZE ?r) = take 4096 ?r"
    by (simp only: take_take TXBUF_def RESPONSE_SIZE_def) simp
  ultimately have "serve_path W D path = Ok (Sock_write (take 4096 ?r) # close_and_abort)"
    by (simp add: serve_path_def tcp_socket_write_def)
  moreover have "slice (splice (replicate 1024 0) 0 request) 0 (length request) = Some request"
    using assms(3) by (simp add: slice_def splice_def)
  ultimately have "http_connection parse W D (Some request # reads) = Ok (Sock_write (take 4096 ?r) # close_and_abort)"
    using assms(1,2) by (simp add: http_connection_def)
  moreover have "take 4096 ?r = ?r \<longleftrightarrow> length ?r \<le> 4096" by (metis take_all_iff)
  ultimately show ?thesis by simp
qed

text \<open>A page of the size of the settings: 4029 of its bytes are sent.\<close>

theorem http_page_sent_witness:
  "let W = \<lparr>index_html = [], settings_html = replicate 12523 65, cells_html = []\<rparr>;
       D = \<lparr>config_json = [], bms_json = [], cell_values = []\<rparr> in
   http_connection (\<lambda>bs. Complete (Some (Some (Some ''/settings'')))) W D [Some [71]] =
     Ok (Sock_write (response_head 12523 Html @ replicate 4029 65) # close_and_abort)"
proof -
  define page :: bytes where "page = replicate 12523 65"
  let ?W = "\<lparr>index_html = [], settings_html = page, cells_html = []\<rparr>"
    and ?D = "\<lparr>config_json = [], bms_json = [], cell_values = []\<rparr>"
    and ?parse = "\<lambda>bs. Complete (Some (Some (Some ''/settings'')))"
  have "utf8_valid (replicate n 65)" for n by (induction n) simp_all
  then have u: "utf8_valid page" by (simp only: page_def)
  have n: "length page = 12523" by (simp only: page_def length_replicate)
  have r: "route ?W ?D (Some ''/settings'') = Ok (Some (page, Html))" by (simp add: route_def)
  have "length (decimal 12523) = 5" by (simp add: decimal.simps)
  then have d: "length (response_head 12523 Html) = 67" by (simp add: length_response_head)
  have "take 4029 page = replicate 4029 65" by (simp only: page_def take_replicate) simp
  then have t: "take 4096 (response_head 12523 Html @ page) = response_head 12523 Html @ replicate 4029 65" by (simp add: d)
  obtain sent where "http_connection ?parse ?W ?D [Some [71]] = Ok (Sock_write sent # close_and_abort)"
      "sent = take 4096 (response_head 12523 Html @ page)"
    using http_page_sent [where parse = ?parse and request = "[71]" and reads = "[]", OF refl _ _ r u] unfolding n by auto
  then have "http_connection ?parse ?W ?D [Some [71]] = Ok (Sock_write (response_head 12523 Html @ replicate 4029 65) # close_and_abort)"
    by (simp only: t)
  then show ?thesis unfolding page_def Let_def .
qed

section \<open>Cell statistics\<close>

lemma length_cell_text: "unat (fst c) < 10000 \<Longrightarrow> length (concat (cell_text c)) \<le> 7"
  using length_decimal_le [of "unat (fst c)" 3] length_decimal_le [of "if snd c then 1 else 0" 0]
  by (auto simp: cell_text_def)

lemma length_cell_texts:
  "\<forall>c \<in> set cells. unat (fst c) < 10000 \<Longrightarrow> length (concat (concat (map cell_text cells))) \<le> 7 * length cells"
proof (induction cells)
  case (Cons c cells)
  then show ?case using length_cell_text [of c] by simp
qed simp

text \<open>
  The statistics of at most 96 cells, each below 10 V, fit into the 672 bytes of the buffer: the
  text is complete, without its last comma. Without cells the handler panics.
\<close>

theorem cell_stats_fit:
  assumes "cells \<noteq> []" "length cells \<le> 96" "\<forall>c \<in> set cells. unat (fst c) < 10000"
  shows "cell_stats (replicate 672 0) cells = Ok (butlast (concat (concat (map cell_text cells)))) \<and>
    cell_stats (replicate 672 0) [] = Panic"
proof -
  define t where "t = concat (concat (map cell_text cells))"
  let ?w = "bw_write_fmt (byte_mut_writer_new (replicate 672 0)) (concat (map cell_text cells))"
  have i: "bw_inv ?w" by (intro bw_write_fmt_simps(2)) simp
  have l: "length t \<le> 672" using length_cell_texts [OF assms(3)] assms(2) by (simp add: t_def)
  then have c: "bw_contents ?w = t" by (simp add: bw_new_fmt t_def)
  have n: "bw_cursor ?w = length t" using bw_cursor_contents [OF i] c by simp
  have "t \<noteq> []" using assms(1) by (cases cells) (simp_all add: cell_text_def t_def)
  then have "cell_stats (replicate 672 0) cells = Ok (butlast t)"
    using bw_slice_contents [OF i, of "length t - 1"] c n by (simp add: cell_stats_def butlast_conv_take Let_def)
  moreover have "cell_stats (replicate 672 0) [] = Panic"
    by (simp add: cell_stats_def bw_write_fmt_def byte_mut_writer_new_def)
  ultimately show ?thesis by (simp add: t_def)
qed

theorem cell_stats_fit_witness:
  "cell_stats (replicate 672 0) [(4100, True), (3999, False)] =
     Ok (butlast (concat (concat (map cell_text [(4100, True), (3999, False)]))))"
  using cell_stats_fit [of "[(4100, True), (3999, False)]"] by simp

section \<open>Split requests\<close>

text \<open>
  C39. A request that arrives in two reads is lost. The second read overwrites the start of the buffer
  while the parser is given the bytes from the end of the first read on: as many bytes of the second as the
  first read had are never seen. The answer does not depend on them, and on nothing of the second read when
  it is not longer than the first; if both together exceed the buffer, the worker panics.
\<close>

theorem split_request_lost:
  assumes "parse c1 = Partial" "c1 \<noteq> []" "length c1 \<le> 1024"
    and "c2 \<noteq> []" "length c2 \<le> 1024" "length c2' = length c2" "drop (length c1) c2' = drop (length c1) c2"
  shows "http_connection parse W D [Some c1, Some c2] = http_connection parse W D [Some c1, Some c2'] \<and>
    (1024 < length c1 + length c2 \<longrightarrow> http_connection parse W D [Some c1, Some c2] = Panic)"
proof -
  let ?b = "splice (replicate 1024 0) 0 c1"
  define seen where "seen = take (length c2) (drop (length c1) c2 @ drop (length c1 - length c2) (drop (length c2) ?b))"
  have s1: "slice ?b 0 (length c1) = Some c1" using assms(3) by (simp add: slice_def splice_def)
  have s2: "slice (splice ?b 0 c) (length c1) (length c1 + length c2) =
      (if length c1 + length c2 \<le> 1024 then Some seen else None)" if "length c = length c2" "drop (length c1) c = drop (length c1) c2" for c
    using that assms(3,5) by (auto simp: slice_def splice_def seen_def drop_take)
  have "http_connection parse W D [Some c1, Some c] =
      (case slice (splice ?b 0 c) (length c1) (length c1 + length c2) of
          None \<Rightarrow> Panic
        | Some buf \<Rightarrow>
            (case parse buf of
               Parse_error \<Rightarrow> Ok []
             | Partial \<Rightarrow> Ok []
             | Complete None \<Rightarrow> Ok [Sock_write (tcp_socket_write (lit ''FOO''))]
             | Complete (Some None) \<Rightarrow> Ok []
             | Complete (Some (Some path)) \<Rightarrow> serve_path W D path))" if "length c = length c2" for c
    using that assms s1 unfolding http_connection_def
    by (simp add: Let_def split: option.split parsed.split)
  then show ?thesis using assms(6,7) s2 by simp
qed

theorem split_request_lost_witness:
  "let parse = (\<lambda>bs. if 10 \<in> set bs then Complete (Some (Some None)) else Partial);
       W = \<lparr>index_html = [], settings_html = lit ''<p>'', cells_html = []\<rparr>;
       D = \<lparr>config_json = [], bms_json = [], cell_values = []\<rparr> in
   http_connection parse W D [Some (lit ''GET /''), Some [32, 10]] =
   http_connection parse W D [Some (lit ''GET /''), Some [32, 32]]"
  unfolding Let_def
  using split_request_lost [of "\<lambda>bs. if 10 \<in> set bs then Complete (Some (Some None)) else Partial" "lit ''GET /''"
      "[32, 10]" "[32, 32]" "\<lparr>index_html = [], settings_html = lit ''<p>'', cells_html = []\<rparr>"
      "\<lparr>config_json = [], bms_json = [], cell_values = []\<rparr>"]
  by (simp add: lit_def byte_of_char_def)

section \<open>The worker\<close>

text \<open>One connection as the worker sees it: accepting fails, or it gives a socket with the data to show,
  the reads, and whether the socket is still open when the worker leaves it without closing it
  (it is, unless the peer has reset the connection).\<close>

datatype http_visit = Visit_fails | Visit web_data "bytes option list" bool

definition left_open :: "bool \<Rightarrow> socket_action list \<Rightarrow> bool" where
  "left_open still acts \<longleftrightarrow> Sock_abort \<notin> set acts \<and> still"

text \<open>The endless loop of \<open>spawned_http\<close>. On a socket that is still open, \<open>accept\<close> returns an error at once
  (\<open>InvalidState\<close>, as the network stack documents) and no visit is consumed; the worker then closes
  and aborts the socket.\<close>

function http_worker :: "(bytes \<Rightarrow> parsed) \<Rightarrow> web_pages \<Rightarrow> bool \<Rightarrow> http_visit list \<Rightarrow> (unit, socket_action list list) outcome" where
  "http_worker parse W is_open [] = Ok []"
| "http_worker parse W True (v # vs) = bind_outcome (http_worker parse W False (v # vs)) (\<lambda>ts. Ok (close_and_abort # ts))"
| "http_worker parse W False (Visit_fails # vs) = bind_outcome (http_worker parse W False vs) (\<lambda>ts. Ok (close_and_abort # ts))"
| "http_worker parse W False (Visit D reads still # vs) =
     bind_outcome (http_connection parse W D reads) (\<lambda>acts.
     bind_outcome (http_worker parse W (left_open still acts) vs) (\<lambda>ts. Ok (acts # ts)))"
  by pat_completeness auto
termination by (relation "measure (\<lambda>(parse, W, is_open, vs). 2 * length vs + (if is_open then 1 else 0))") auto

text \<open>What each connection gets on its own, from a worker that has just started.\<close>

fun served :: "(bytes \<Rightarrow> parsed) \<Rightarrow> web_pages \<Rightarrow> http_visit list \<Rightarrow> (unit, socket_action list) outcome list" where
  "served parse W [] = []"
| "served parse W (Visit_fails # vs) = served parse W vs"
| "served parse W (Visit D reads still # vs) = http_connection parse W D reads # served parse W vs"

lemma cell_stats_no_error: "cell_stats buf cells \<noteq> Err e"
  by (simp add: cell_stats_def Let_def split: option.split)

lemma respond_no_error: "respond W D path \<noteq> Err e"
proof -
  have "route W D path \<noteq> Err e"
    using cell_stats_no_error [of "replicate 672 0" "cell_values D" e]
    by (cases "cell_stats (replicate 672 0) (cell_values D)") (auto simp: route_def split: option.split)
  then show ?thesis
    by (cases "route W D path") (auto simp: respond_def construct_response_def split: option.split)
qed

lemma serve_path_cases:
  "serve_path W D path = Panic \<or> serve_path W D path = Ok [] \<or> (\<exists>bs. serve_path W D path = Ok (Sock_write bs # close_and_abort))"
  using respond_no_error [of W D path] by (cases "respond W D path") (auto simp: serve_path_def split: option.splits)

lemma http_loop_cases:
  "http_loop parse W D buffer pos reads = Panic \<or> http_loop parse W D buffer pos reads = Ok [] \<or>
   (\<exists>bs acts. http_loop parse W D buffer pos reads = Ok (Sock_write bs # acts))"
proof (induction parse W D buffer pos reads rule: http_loop.induct)
  case (3 parse W D buffer pos chunk reads)
  show ?case
  proof (cases "chunk = [] \<or> slice (splice buffer 0 chunk) pos (pos + length chunk) = None")
    case True
    then show ?thesis by (auto simp: Let_def)
  next
    case False
    then obtain buf where b: "chunk \<noteq> []" "slice (splice buffer 0 chunk) pos (pos + length chunk) = Some buf" by auto
    show ?thesis
    proof (cases "parse buf")
      case (Complete x)
      then show ?thesis using b serve_path_cases [of W D "the (the x)"] by (cases x; cases "the x"; auto simp: Let_def)
    qed (use 3 b in \<open>auto simp: Let_def\<close>)
  qed
qed auto

lemma http_connection_cases:
  "http_connection parse W D reads = Panic \<or> (\<exists>acts. http_connection parse W D reads = Ok acts \<and> acts \<noteq> close_and_abort)"
  using http_loop_cases [of parse W D "replicate 1024 0" 0 reads]
  by (auto simp: http_connection_def close_and_abort_def)

text \<open>A worker survives every connection that does not make it panic; its failed calls of \<open>accept\<close>, after each of which
  the socket is closed and aborted, are no more than the visits and the failing ones among them.\<close>

lemma http_worker_run:
  "Panic \<notin> set (served parse W vs) \<Longrightarrow>
   \<exists>ts. http_worker parse W is_open vs = Ok ts \<and> map Ok [t \<leftarrow> ts. t \<noteq> close_and_abort] = served parse W vs \<and>
    length [t \<leftarrow> ts. t = close_and_abort] \<le> length vs + length [v \<leftarrow> vs. v = Visit_fails] - (if is_open then 0 else 1)"
proof (induction parse W is_open vs rule: http_worker.induct)
  case (4 parse W D reads still vs)
  obtain acts where a: "http_connection parse W D reads = Ok acts" "acts \<noteq> close_and_abort"
    using http_connection_cases [of parse W D reads] 4(2) by auto
  obtain ts where "http_worker parse W (left_open still acts) vs = Ok ts"
      "map Ok [t \<leftarrow> ts. t \<noteq> close_and_abort] = served parse W vs"
      "length [t \<leftarrow> ts. t = close_and_abort] \<le> length vs + length [v \<leftarrow> vs. v = Visit_fails] - (if left_open still acts then 0 else 1)"
    using 4 by auto
  then show ?case using a by (auto split: if_splits)
qed (auto; linarith)+

section \<open>Starting the workers\<close>

text \<open>\<open>http_net_task\<close>: when it has waited, it spawns three workers.\<close>

definition http_net_task :: "bool list \<Rightarrow> bool list \<Rightarrow> (nat \<times> nat list) option" where
  "http_net_task link config = map_option (\<lambda>t. (t, [1, 2, 3])) (wait_network 500 500 link config)"

section \<open>File names\<close>

datatype file_name = Index | Settings

fun file_name_as_bytes :: "file_name \<Rightarrow> bytes" where
  "file_name_as_bytes Index = lit ''index.html''"
| "file_name_as_bytes Settings = lit ''settings.html''"

definition file_name_from_bytes :: "bytes \<Rightarrow> (stm_error, file_name) outcome" where
  "file_name_from_bytes filename =
     (if filename = lit ''index.html'' then Ok Index
      else if filename = lit ''settings.html'' then Ok Settings
      else Err InvalidFileName)"

lemma file_name_roundtrip: "file_name_from_bytes bs = Ok f \<longleftrightarrow> bs = file_name_as_bytes f"
  by (cases f) (auto simp: file_name_from_bytes_def lit_def byte_of_char_def)

end
