(* ===== verification/Syslog.thy ===== *)
theory Syslog
  imports Byte_Writer
begin

text \<open>
  The syslog client (syslog-emb/src/lib.rs): the text of a message and its transmission over UDP or
  TCP. The calendar time comes from the real-time clock; \<open>send\<close> formats into a buffer of the caller
  and transmits everything the buffer then holds.
\<close>

datatype syslog_error = ConnectionReset | NoRoute | SocketNotBound

fun syslog_error_text :: "syslog_error \<Rightarrow> string" where
  "syslog_error_text ConnectionReset = ''ConnectionReset''"
| "syslog_error_text NoRoute = ''NoRoute''"
| "syslog_error_text SocketNotBound = ''SocketNotBound''"

datatype tcp_error = Tcp_ConnectionReset

datatype udp_send_error = Udp_NoRoute | Udp_SocketNotBound

fun syslog_from_tcp_error :: "tcp_error \<Rightarrow> syslog_error" where
  "syslog_from_tcp_error Tcp_ConnectionReset = ConnectionReset"

fun syslog_from_udp_error :: "udp_send_error \<Rightarrow> syslog_error" where
  "syslog_from_udp_error Udp_NoRoute = NoRoute"
| "syslog_from_udp_error Udp_SocketNotBound = SocketNotBound"

record date_time =
  year :: u16
  month :: u8
  day :: u8
  hour :: u8
  minute :: u8
  second :: u8

record syslog_message =
  priority :: u8
  hostname :: bytes
  source :: bytes
  proc_id :: bytes
  message :: bytes
  message_data :: bytes
  datetime :: date_time

definition time_pieces :: "date_time \<Rightarrow> bytes list" where
  "time_pieces dt =
     [decimal (unat (year dt)), lit ''-'', decimal (unat (month dt)), lit ''-'', decimal (unat (day dt)), lit ''T'',
      decimal (unat (hour dt)), lit '':'', decimal (unat (minute dt)), lit '':'', decimal (unat (second dt)), lit ''.0Z'']"

definition message_pieces :: "syslog_message \<Rightarrow> bytes \<Rightarrow> u32 \<Rightarrow> bytes list" where
  "message_pieces m time count =
     [lit ''<'', decimal (unat (priority m)), lit ''>1 '', time, lit '' '', hostname m, lit '' '', proc_id m,
      lit '' ID'', decimal (unat count), lit '' ['', message_data m, lit ''] '', message m, [10]]"

text \<open>The socket: what it does with the data, UDP datagrams and TCP writes alike.\<close>

definition syslog_send :: "('s \<Rightarrow> bytes \<Rightarrow> syslog_error option \<times> 's) \<Rightarrow> syslog_message \<Rightarrow> u32 \<times> byte_writer \<times> 's \<Rightarrow>
    (syslog_error, unit) outcome \<times> (u32 \<times> byte_writer \<times> 's)" where
  "syslog_send transmit m st =
     (let (msg_counter, buf, s) = st; msg_counter' = msg_counter + 1;
          time = bw_write_fmt (byte_mut_writer_cap_new 50) (time_pieces (datetime m)) in
      case bw_as_str time of
        Err _ \<Rightarrow> (Panic, (msg_counter', buf, s))
      | Panic \<Rightarrow> (Panic, (msg_counter', buf, s))
      | Ok t \<Rightarrow>
          let buf' = bw_write_fmt buf (message_pieces m t msg_counter) in
          (case slice (bw_buf buf') 0 (bw_cursor buf') of
             None \<Rightarrow> (Panic, (msg_counter', buf', s))
           | Some data \<Rightarrow>
               let (e, s') = transmit s data in
               (case e of None \<Rightarrow> Ok () | Some x \<Rightarrow> Err x, (msg_counter', buf', s'))))"

lemma decimal_ascii: "\<forall>b \<in> set (decimal n). b < 128"
proof (induction n rule: less_induct)
  case (less n)
  have d: "(of_nat (48 + k) :: u8) < 128" if "k < 10" for k
    using that by (simp add: word_less_nat_alt unsigned_of_nat take_bit_nat_eq_self del: of_nat_add)
  show ?case
  proof (cases "n < 10")
    case True
    then show ?thesis using d by (simp add: decimal.simps [of n] del: of_nat_add)
  next
    case False
    then have "\<forall>b \<in> set (decimal (n div 10)). b < 128" using less.IH [of "n div 10"] by simp
    then show ?thesis using False d [of "n mod 10"] by (simp add: decimal.simps [of n] del: of_nat_add)
  qed
qed

lemma time_text:
  "length (concat (time_pieces dt)) \<le> 28" "utf8_valid (concat (time_pieces dt))"
proof -
  have d8: "length (decimal (unat x)) \<le> 3" for x :: u8
    using length_decimal_le [of "unat x" 2] unsigned_less [where 'a = nat and w = x] by simp
  have d16: "length (decimal (unat x)) \<le> 5" for x :: u16
    using length_decimal_le [of "unat x" 4] unsigned_less [where 'a = nat and w = x] by simp
  show "length (concat (time_pieces dt)) \<le> 28"
    using d16 [of "year dt"] d8 [of "month dt"] d8 [of "day dt"] d8 [of "hour dt"] d8 [of "minute dt"] d8 [of "second dt"]
    by (simp add: time_pieces_def)
  show "utf8_valid (concat (time_pieces dt))"
    using decimal_ascii by (intro utf8_valid_ascii) (auto simp: time_pieces_def lit_def byte_of_char_def)
qed

text \<open>The timestamp always fits its buffer of 50 bytes, so sending never panics; the datagram is what
  the buffer held before and the message, cut off at the buffer's capacity. The identifiers count
  the messages and wrap around.\<close>

theorem syslog_datagram:
  fixes m :: syslog_message and count :: u32
  assumes "bw_inv buf"
  defines "text \<equiv> concat (message_pieces m (concat (time_pieces (datetime m))) count)"
  shows "\<exists>buf'. syslog_send transmit m (count, buf, s) =
    (let (e, s') = transmit s (take (bw_capacity buf) (bw_contents buf @ text)) in
     (case e of None \<Rightarrow> Ok () | Some x \<Rightarrow> Err x, (count + 1, buf', s')))"
proof -
  let ?w = "bw_write_fmt (byte_mut_writer_cap_new 50) (time_pieces (datetime m))"
  have i: "bw_inv ?w" by (intro bw_write_fmt_simps(2)) simp
  have "bw_contents ?w = concat (time_pieces (datetime m))"
    using time_text(1) [of "datetime m"]
    by (simp add: bw_write_fmt_simps) (simp add: bw_contents_def bw_capacity_def byte_mut_writer_cap_new_def)
  then have t: "bw_as_str ?w = Ok (concat (time_pieces (datetime m)))"
    using bw_slice_all [OF i] time_text(2) by (simp add: bw_as_str_def)
  let ?b = "bw_write_fmt buf (message_pieces m (concat (time_pieces (datetime m))) count)"
  have j: "bw_inv ?b" by (rule bw_write_fmt_simps(2) [OF assms(1)])
  have "slice (bw_buf ?b) 0 (bw_cursor ?b) = Some (take (bw_capacity buf) (bw_contents buf @ text))"
    unfolding bw_slice_all [OF j] bw_write_fmt_simps(1) [OF assms(1)] text_def ..
  then show ?thesis
    by (intro exI [of _ ?b]) (simp add: syslog_send_def t Let_def)
qed

section \<open>The sockets\<close>

text \<open>A TCP write takes some of the bytes and says how many; a datagram goes out whole. The two calls
  of the network stack are parameters.\<close>

datatype ('t, 'u, 'e) syslog_socket = Syslog_Tcp 't | Syslog_Udp 'u 'e

definition syslog_transmit :: "('t \<Rightarrow> bytes \<Rightarrow> (nat + tcp_error) \<times> 't) \<Rightarrow> ('u \<Rightarrow> bytes \<Rightarrow> 'e \<Rightarrow> udp_send_error option \<times> 'u) \<Rightarrow>
    ('t, 'u, 'e) syslog_socket \<Rightarrow> bytes \<Rightarrow> syslog_error option \<times> ('t, 'u, 'e) syslog_socket" where
  "syslog_transmit tcp_write udp_send_to socket data =
     (case socket of
        Syslog_Tcp t \<Rightarrow>
          (case tcp_write t data of
             (Inl n, t') \<Rightarrow> (None, Syslog_Tcp t')
           | (Inr e, t') \<Rightarrow> (Some (syslog_from_tcp_error e), Syslog_Tcp t'))
      | Syslog_Udp u ip \<Rightarrow>
          (case udp_send_to u data ip of
             (None, u') \<Rightarrow> (None, Syslog_Udp u' ip)
           | (Some e, u') \<Rightarrow> (Some (syslog_from_udp_error e), Syslog_Udp u' ip)))"

text \<open>Over UDP the datagram is the whole text, and the errors are those of the stack; over TCP a short
  write is reported as success, and the rest of the message is lost.\<close>

lemma syslog_transmit_errors:
  "fst (syslog_transmit w u (Syslog_Udp x ip) d) = map_option syslog_from_udp_error (fst (u x d ip))"
  "fst (syslog_transmit w u (Syslog_Tcp t) d) = None \<longleftrightarrow> (\<exists>n. fst (w t d) = Inl n)"
  by (auto simp: syslog_transmit_def split: prod.splits option.splits sum.splits)

text \<open>The numbers of the time stamp are not padded to two digits, as the format of the header
  (version 1, RFC 5424) asks.\<close>

lemma timestamp_unpadded:
  "concat (time_pieces \<lparr>year = 2024, month = 1, day = 5, hour = 3, minute = 4, second = 9\<rparr>) = lit ''2024-1-5T3:4:9.0Z''"
  by code_simp

section \<open>Text of a writer\<close>

text \<open>A text that does not fit is cut at a byte, not at a character: \<open>as_str\<close> and \<open>to_string\<close> then panic.
  On a buffer whose contents are a text they give it.\<close>

lemma bw_to_string_iff:
  assumes "bw_inv w"
  shows "bw_to_string w = (if utf8_valid (bw_contents w) then Ok (bw_contents w) else Panic)"
proof -
  have "length (bw_contents w) \<le> bw_capacity w" by (simp add: bw_contents_def bw_capacity_def)
  then show ?thesis using bw_slice_all [OF assms] by (simp add: bw_to_string_def bw_as_str_def)
qed

lemma cut_text_panics:
  "utf8_valid [0x61, 0xC3, 0xA9] \<and> bw_to_string (bw_write_str (byte_mut_writer_cap_new 2) [0x61, 0xC3, 0xA9]) = Panic"
  by code_simp

end
