(* ===== verification/Tcp_Debug.thy ===== *)
theory Tcp_Debug
  imports Board Byte_Writer Network_Wait
begin

text \<open>
  The debug console (tasks/tcp_debug.rs): a client of port 23 gets a line per CAN frame of the
  battery side. The task is a second receiver of the two channels between the CAN interface and the
  battery processor, so each frame it prints is one that the processor, or the bus, does not get.
  The texts of an identifier and of frame data (their \<open>Debug\<close> formats) are a parameter.
\<close>

definition DEBUG_BUF_SIZE :: nat where "DEBUG_BUF_SIZE = 256"

datatype debug_source = Debug_rx | Debug_tx

fun debug_label :: "debug_source \<Rightarrow> bytes" where
  "debug_label Debug_rx = lit ''BMS Rx''"
| "debug_label Debug_tx = lit ''BMS Tx''"

text \<open>The pieces of one line; 10 is the line feed.\<close>

definition debug_pieces :: "('f \<Rightarrow> bytes list) \<Rightarrow> debug_source \<Rightarrow> nat \<Rightarrow> 'f \<Rightarrow> bytes list" where
  "debug_pieces describe src ms frame =
     [debug_label src, lit '' '', decimal ms, lit ''ms ''] @ describe frame @ [[10]]"

text \<open>The frame that \<open>select\<close> receives from one of the channels; None while that channel is empty.\<close>

fun debug_receive :: "debug_source \<Rightarrow> ('b, 'f) board \<Rightarrow> ('f \<times> ('b, 'f) board) option" where
  "debug_receive Debug_rx B =
     (case channel_try_receive (bms_channel_rx B) of
        (None, _) \<Rightarrow> None
      | (Some f, q) \<Rightarrow> Some (f, B\<lparr>bms_channel_rx := q\<rparr>))"
| "debug_receive Debug_tx B =
     (case channel_try_receive (bms_channel_tx B) of
        (None, _) \<Rightarrow> None
      | (Some f, q) \<Rightarrow> Some (f, B\<lparr>bms_channel_tx := q\<rparr>))"

text \<open>One round of the inner loop: the bytes handed to the socket are the whole buffer, the line and
  the zeros after it. \<open>sent\<close> says whether the socket took them; if not, the loop ends (no writer) and
  the console waits for another client.\<close>

definition debug_round :: "('f \<Rightarrow> bytes list) \<Rightarrow> debug_source \<Rightarrow> nat \<Rightarrow> bool \<Rightarrow> byte_writer \<Rightarrow> ('b, 'f) board \<Rightarrow>
    (bytes \<times> byte_writer option \<times> ('b, 'f) board) option" where
  "debug_round describe src ms sent buf B =
     (case debug_receive src B of
        None \<Rightarrow> None
      | Some (f, B') \<Rightarrow>
          let w = bw_write_fmt buf (debug_pieces describe src ms f) in
          Some (bw_buf w, if sent then Some (bw_clear w) else None, B'))"

text \<open>The head of the outer loop: the LED goes off before the next client is awaited.\<close>

definition debug_idle :: "('b, 'f) board \<Rightarrow> ('b, 'f) board" where
  "debug_idle B = B\<lparr>led_signal := Some (Off Led3)\<rparr>"

section \<open>What a client sees and what the others lose\<close>

lemma bw_clear_new: "bw_clear w = byte_mut_writer_new (replicate (length (bw_buf w)) 0)"
  by (cases w) (simp add: bw_clear_def byte_mut_writer_new_def)

text \<open>A line on a new buffer: the client gets as many bytes as the buffer has, starting with the line
  cut to that length, the buffer is cleared for the next line, and the frame is gone from its
  channel; nothing else of the board changes, also when the socket fails.\<close>

theorem debug_round_line:
  assumes "debug_round describe src ms sent (byte_mut_writer_new (replicate DEBUG_BUF_SIZE 0)) B = Some (out, w, B')"
  shows "\<exists>f. length out = DEBUG_BUF_SIZE \<and> w = (if sent then Some (byte_mut_writer_new (replicate DEBUG_BUF_SIZE 0)) else None) \<and>
    (let line = take DEBUG_BUF_SIZE (concat (debug_pieces describe src ms f)) in take (length line) out = line) \<and>
    (case src of Debug_rx \<Rightarrow> B = B'\<lparr>bms_channel_rx := f # bms_channel_rx B'\<rparr>
     | Debug_tx \<Rightarrow> B = B'\<lparr>bms_channel_tx := f # bms_channel_tx B'\<rparr>)"
proof -
  obtain f where f: "debug_receive src B = Some (f, B')"
    using assms by (auto simp: debug_round_def Let_def split: option.splits)
  let ?new = "byte_mut_writer_new (replicate DEBUG_BUF_SIZE 0)"
  let ?w = "bw_write_fmt ?new (debug_pieces describe src ms f)"
  have o: "out = bw_buf ?w" "w = (if sent then Some (bw_clear ?w) else None)" using assms f by (simp_all add: debug_round_def Let_def)
  have len: "length (bw_buf ?w) = DEBUG_BUF_SIZE"
    using bw_write_fmt_simps(3) [OF bw_new_inv(1), of "replicate DEBUG_BUF_SIZE 0"]
    by (simp add: bw_capacity_def byte_mut_writer_new_def)
  have "bw_contents ?w = take DEBUG_BUF_SIZE (concat (debug_pieces describe src ms f))" by (simp add: bw_new_fmt)
  moreover have "bw_cursor ?w = length (bw_contents ?w)" by (intro bw_cursor_contents bw_write_fmt_simps(2)) simp
  ultimately have "take (length (take DEBUG_BUF_SIZE (concat (debug_pieces describe src ms f)))) out =
      take DEBUG_BUF_SIZE (concat (debug_pieces describe src ms f))"
    unfolding o by (metis bw_contents_def)
  moreover have "case src of Debug_rx \<Rightarrow> B = B'\<lparr>bms_channel_rx := f # bms_channel_rx B'\<rparr>
     | Debug_tx \<Rightarrow> B = B'\<lparr>bms_channel_tx := f # bms_channel_tx B'\<rparr>"
    using f by (cases src) (auto split: prod.splits option.splits elim!: channel_try_receive.elims)
  ultimately show ?thesis using o len by (auto simp: bw_clear_new Let_def)
qed

text \<open>The console and the battery processor in any order: True lets the console take the next received
  frame, False the processor. \<open>receivers\<close> gives the frames each of them got and the board.\<close>

fun receivers :: "bool list \<Rightarrow> ('b, 'f) board \<Rightarrow> 'f list \<times> 'f list \<times> ('b, 'f) board" where
  "receivers [] B = ([], [], B)"
| "receivers (console # turns) B =
     (case debug_receive Debug_rx B of
        None \<Rightarrow> receivers turns B
      | Some (f, B') \<Rightarrow>
          let (ds, ps, B'') = receivers turns B' in
          if console then (f # ds, ps, B'') else (ds, f # ps, B''))"

text \<open>Every frame goes to exactly one of the two, in order: what the console shows is missing from
  what the processor decodes.\<close>

theorem console_takes_frames:
  "receivers turns B = (shown, decoded, B') \<Longrightarrow>
   \<exists>handled \<in> shuffles shown decoded. bms_channel_rx B = handled @ bms_channel_rx B'"
proof (induction turns arbitrary: B shown decoded B')
  case Nil
  then show ?case by simp
next
  case (Cons console turns)
  show ?case
  proof (cases "bms_channel_rx B")
    case Nil
    then have "receivers turns B = (shown, decoded, B')" using Cons.prems by simp
    then show ?thesis by (rule Cons.IH)
  next
    case head: (Cons f q)
    obtain ds ps where r: "receivers turns (B\<lparr>bms_channel_rx := q\<rparr>) = (ds, ps, B')"
        "(shown, decoded) = (if console then (f # ds, ps) else (ds, f # ps))"
      using Cons.prems head by (auto simp: Let_def split: prod.splits if_splits)
    obtain h where h: "h \<in> shuffles ds ps" "q = h @ bms_channel_rx B'"
      using Cons.IH [OF r(1)] by auto
    have "f # h \<in> shuffles shown decoded"
      using h(1) r(2) by (cases console) (auto intro: Cons_in_shuffles_leftI Cons_in_shuffles_rightI)
    then show ?thesis using head h(2) by force
  qed
qed

section \<open>The task\<close>

text \<open>The inner loop on a client: each event is a channel with a frame, the time and whether the socket
  takes the line; an event of an empty channel does not happen. It yields what was written and whether
  the client is gone.\<close>

fun debug_session :: "('f \<Rightarrow> bytes list) \<Rightarrow> (debug_source \<times> nat \<times> bool) list \<Rightarrow> byte_writer \<Rightarrow> ('b, 'f) board \<Rightarrow>
    bytes list \<times> bool \<times> ('b, 'f) board" where
  "debug_session describe [] buf B = ([], False, B)"
| "debug_session describe ((src, ms, sent) # evs) buf B =
     (case debug_round describe src ms sent buf B of
        None \<Rightarrow> debug_session describe evs buf B
      | Some (out, None, B') \<Rightarrow> ([out], True, B')
      | Some (out, Some buf', B') \<Rightarrow>
          let (outs, gone, B'') = debug_session describe evs buf' B' in (out # outs, gone, B''))"

datatype debug_visit = Debug_fails bool | Debug_client "(debug_source \<times> nat \<times> bool) list" bool

text \<open>The outer loop: a socket that is not closed is closed and aborted, with 200 ms of pauses; then a
  client is accepted. The flag of a visit says whether the socket is still open after it (after
  a failed write it is closed at once only if the peer has reset the connection). The result is the
  list of what each client got, the pauses, and the board.\<close>

fun debug_loop :: "('f \<Rightarrow> bytes list) \<Rightarrow> bool \<Rightarrow> debug_visit list \<Rightarrow> ('b, 'f) board \<Rightarrow> bytes list list \<times> nat \<times> ('b, 'f) board" where
  "debug_loop describe is_open [] B = ([], if is_open then 200 else 0, debug_idle B)"
| "debug_loop describe is_open (v # vs) B =
     (let pause = (if is_open then 200 else 0); B0 = debug_idle B in
      case v of
        Debug_fails still \<Rightarrow> (let (cs, t, B') = debug_loop describe still vs B0 in (cs, pause + t, B'))
      | Debug_client evs still \<Rightarrow>
          (case debug_session describe evs (byte_mut_writer_new (replicate DEBUG_BUF_SIZE 0)) B0 of
             (outs, True, B1) \<Rightarrow> (let (cs, t, B') = debug_loop describe still vs B1 in (outs # cs, pause + t, B'))
           | (outs, False, B1) \<Rightarrow> ([outs], pause, B1)))"

definition debug_task :: "('f \<Rightarrow> bytes list) \<Rightarrow> bool list \<Rightarrow> bool list \<Rightarrow> debug_visit list \<Rightarrow> ('b, 'f) board \<Rightarrow>
    (nat \<times> bytes list list \<times> ('b, 'f) board) option" where
  "debug_task describe link address visits B =
     (case wait_network 500 500 link address of
        None \<Rightarrow> None
      | Some w \<Rightarrow> (let (cs, t, B') = debug_loop describe False visits B in Some (w + t, cs, B')))"

text \<open>Every line that any client got has taken one frame from the channels, for good, and is 256 bytes
  long.\<close>

definition waiting_frames :: "('b, 'f) board \<Rightarrow> nat" where
  "waiting_frames B = length (bms_channel_rx B) + length (bms_channel_tx B)"

lemma debug_round_waiting:
  assumes "debug_round describe src ms sent (byte_mut_writer_new (replicate DEBUG_BUF_SIZE 0)) B = Some (out, w, B')"
  shows "waiting_frames B = Suc (waiting_frames B') \<and> length out = DEBUG_BUF_SIZE \<and>
    w = (if sent then Some (byte_mut_writer_new (replicate DEBUG_BUF_SIZE 0)) else None)"
  using debug_round_line [OF assms] by (cases src) (auto simp: waiting_frames_def)

lemma debug_session_lines:
  "debug_session describe evs (byte_mut_writer_new (replicate DEBUG_BUF_SIZE 0)) B = (outs, gone, B') \<Longrightarrow>
   waiting_frames B = length outs + waiting_frames B' \<and> (\<forall>out \<in> set outs. length out = DEBUG_BUF_SIZE)"
proof (induction evs arbitrary: B outs)
  case (Cons ev evs)
  obtain src ms sent where ev: "ev = (src, ms, sent)" by (cases ev)
  let ?r = "debug_round describe src ms sent (byte_mut_writer_new (replicate DEBUG_BUF_SIZE 0)) B"
  show ?case
  proof (cases ?r)
    case None
    then show ?thesis using Cons ev by simp
  next
    case (Some x)
    obtain out w B1 where x: "x = (out, w, B1)" by (cases x)
    note d = debug_round_waiting [OF Some [unfolded x]]
    then show ?thesis using Cons ev Some x by (cases sent) (fastforce split: prod.splits)+
  qed
qed simp

lemma waiting_idle [simp]: "waiting_frames (debug_idle B) = waiting_frames B"
  by (simp add: waiting_frames_def debug_idle_def)

lemma debug_loop_lines:
  "debug_loop describe is_open visits B = (cs, t, B') \<Longrightarrow>
   waiting_frames B = length (concat cs) + waiting_frames B' \<and> (\<forall>out \<in> set (concat cs). length out = DEBUG_BUF_SIZE)"
proof (induction visits arbitrary: is_open B cs t)
  case (Cons v vs)
  show ?case
  proof (cases v)
    case (Debug_fails still)
    then show ?thesis using Cons.prems by (auto simp: Let_def split: prod.splits dest!: Cons.IH)
  next
    case (Debug_client evs still)
    obtain outs gone B1 where s: "debug_session describe evs (byte_mut_writer_new (replicate DEBUG_BUF_SIZE 0)) (debug_idle B) = (outs, gone, B1)"
      by (cases "debug_session describe evs (byte_mut_writer_new (replicate DEBUG_BUF_SIZE 0)) (debug_idle B)")
    then show ?thesis using Cons.prems Debug_client debug_session_lines [OF s]
      by (cases gone) (auto simp: Let_def split: prod.splits dest!: Cons.IH)
  qed
qed auto

lemma debug_task_lines:
  "debug_task describe link address visits B = Some (t, cs, B') \<Longrightarrow>
   waiting_frames B = length (concat cs) + waiting_frames B' \<and> (\<forall>out \<in> set (concat cs). length out = DEBUG_BUF_SIZE)"
  using debug_loop_lines [of describe False visits B] by (auto simp: debug_task_def split: option.splits prod.splits)

end
