(* ===== verification/Display.thy ===== *)
theory Display
  imports Mqtt_Task
begin

text \<open>
  The display task (tasks/display/mod.rs) up to the drawing: the values it takes from the battery data,
  the lines, and the texts with their places. Drawing on the panel belongs to the graphics crates;
  the text of a number with one decimal (\<open>{:.1}\<close>) and the conversion of an integer to a float are
  parameters.
\<close>

record 'v display_format =
  df_soc :: 'v
  df_volts :: 'v
  df_cell_mv_high :: u16
  df_cell_mv_low :: u16
  df_cell_temp_high :: 'v
  df_cell_temp_low :: 'v
  df_amps :: 'v
  df_kwh :: 'v
  df_charge :: 'v
  df_discharge :: 'v
  df_bal :: u8
  df_valid :: bool

definition display_format_from :: "'v bms_view \<Rightarrow> 'v display_format" where
  "display_format_from b =
     \<lparr>df_soc = bv_soc b, df_volts = bv_pack_volts b, df_cell_mv_high = snd (bv_cell_range_mv b),
      df_cell_mv_low = fst (bv_cell_range_mv b), df_cell_temp_high = snd (bv_temps b), df_cell_temp_low = fst (bv_temps b),
      df_amps = bv_current b, df_kwh = bv_kwh_remaining b, df_charge = bv_charge_max b,
      df_discharge = bv_discharge_max b, df_bal = bv_balancing_cells b, df_valid = bv_valid b\<rparr>"

record 'v line =
  line_key :: bytes
  line_value :: 'v
  line_unit :: bytes

definition line_new :: "bytes \<Rightarrow> 'v \<Rightarrow> bytes \<Rightarrow> 'v line" where
  "line_new k v u = \<lparr>line_key = k, line_value = v, line_unit = u\<rparr>"

definition display_lines :: "(nat \<Rightarrow> 'v) \<Rightarrow> 'v display_format \<Rightarrow> 'v line list" where
  "display_lines to_float data =
     [line_new (lit ''---- BMS ----'') (to_float 0) [],
      line_new (lit ''SoC'') (df_soc data) (lit ''%''),
      line_new (lit ''Remaining '') (df_kwh data) (lit ''kWh''),
      line_new (lit ''Voltage'') (df_volts data) (lit ''V''),
      line_new (lit ''Cell Temp'') (df_cell_temp_high data) (lit ''oC''),
      line_new (lit ''Cell V High'') (to_float (unat (df_cell_mv_high data))) (lit ''mV''),
      line_new (lit ''Cell V Low'') (to_float (unat (df_cell_mv_low data))) (lit ''mV''),
      line_new (lit ''Current '') (df_amps data) (lit ''A''),
      line_new (lit ''Balancing '') (to_float (unat (df_bal data))) (lit ''#'')]"

datatype alignment = Left | Center | Right

text \<open>A text at a place: the x coordinate of its alignment and 14 pixels per line.\<close>

fun align_x :: "alignment \<Rightarrow> int" where
  "align_x Left = 1"
| "align_x Center = 80"
| "align_x Right = 160"

definition format_line :: "bytes \<Rightarrow> nat \<Rightarrow> alignment \<Rightarrow> bytes \<times> int \<times> int" where
  "format_line s l j = (s, align_x j, int l * 14)"

text \<open>The value and its unit go into a string of capacity 20; \<open>write!(..).unwrap()\<close> panics when they do
  not fit.\<close>

definition STRING_SIZE :: nat where "STRING_SIZE = 20"

definition value_text :: "('v \<Rightarrow> bytes) \<Rightarrow> 'v line \<Rightarrow> (unit, bytes) outcome" where
  "value_text fmt1 l =
     (if length (fmt1 (line_value l)) + length (line_unit l) \<le> STRING_SIZE
      then Ok (fmt1 (line_value l) @ line_unit l) else Panic)"

fun draw_lines :: "('v \<Rightarrow> bytes) \<Rightarrow> nat \<Rightarrow> 'v line list \<Rightarrow> (unit, (bytes \<times> int \<times> int) list) outcome" where
  "draw_lines fmt1 i [] = Ok []"
| "draw_lines fmt1 i (l # ls) =
     bind_outcome (value_text fmt1 l) (\<lambda>s.
     bind_outcome (draw_lines fmt1 (i + 1) ls) (\<lambda>ts.
       Ok (format_line (line_key l) i Left # format_line s i Right # ts)))"

definition display_round :: "(nat \<Rightarrow> 'v) \<Rightarrow> ('v \<Rightarrow> bytes) \<Rightarrow> 'v bms_view \<Rightarrow> (unit, (bytes \<times> int \<times> int) list) outcome" where
  "display_round to_float fmt1 b =
     (case display_lines to_float (display_format_from b) of
        [] \<Rightarrow> Panic
      | l # ls \<Rightarrow>
          bind_outcome (draw_lines fmt1 1 ls) (\<lambda>ts. Ok (format_line (line_key l) 0 Center # ts)))"

text \<open>The task draws its seventeen texts when every number has at most 17 characters (the longest unit
  has three); then all texts are on the panel, which has room for nine lines of 14 pixels.\<close>

lemma draw_lines_fit:
  assumes "\<forall>l \<in> set ls. length (fmt1 (line_value l)) + length (line_unit l) \<le> STRING_SIZE"
  shows "\<exists>ts. draw_lines fmt1 i ls = Ok ts \<and> length ts = 2 * length ls \<and>
    (\<forall>(s, x, y) \<in> set ts. x \<in> {1, 160} \<and> int i * 14 \<le> y \<and> y < int (i + length ls) * 14)"
  using assms
proof (induction ls arbitrary: i)
  case (Cons l ls)
  then obtain ts where ts: "draw_lines fmt1 (i + 1) ls = Ok ts" "length ts = 2 * length ls"
      "\<forall>(s, x, y) \<in> set ts. x \<in> {1, 160} \<and> int (i + 1) * 14 \<le> y \<and> y < int (i + 1 + length ls) * 14"
    using Cons.IH [of "i + 1"] by auto
  let ?v = "fmt1 (line_value l) @ line_unit l"
  have d: "draw_lines fmt1 i (l # ls) = Ok (format_line (line_key l) i Left # format_line ?v i Right # ts)"
    using Cons.prems ts(1) by (simp add: value_text_def)
  have "\<forall>(s, x, y) \<in> set ts. x \<in> {1, 160} \<and> int i * 14 \<le> y \<and> y < int (i + length (l # ls)) * 14"
    using ts(3) by fastforce
  then show ?case unfolding d using ts(2) by (simp add: format_line_def)
qed simp

theorem display_round_total:
  assumes "\<forall>v. length (fmt1 v) \<le> 17"
  shows "\<exists>ts. display_round to_float fmt1 b = Ok ts \<and> length ts = 17 \<and>
    (\<forall>(s, x, y) \<in> set ts. 0 \<le> x \<and> x \<le> 160 \<and> 0 \<le> y \<and> y < 126)"
proof -
  obtain l ls where ls: "display_lines to_float (display_format_from b) = l # ls" "length ls = 8"
      "\<forall>l \<in> set ls. length (line_unit l) \<le> 3"
    by (simp add: display_lines_def line_new_def)
  have "\<forall>l \<in> set ls. length (fmt1 (line_value l)) + length (line_unit l) \<le> STRING_SIZE"
    using ls(3) assms by (force simp: STRING_SIZE_def intro: order_trans [OF add_mono])
  from draw_lines_fit [OF this, of 1] obtain ts where ts: "draw_lines fmt1 1 ls = Ok ts" "length ts = 16"
      "\<forall>(s, x, y) \<in> set ts. x \<in> {1, 160} \<and> int 1 * 14 \<le> y \<and> y < int (1 + length ls) * 14"
    using ls(2) by auto
  have "\<forall>(s, x, y) \<in> set ts. 0 \<le> x \<and> x \<le> 160 \<and> 0 \<le> y \<and> y < 126"
    using ts(3) ls(2) by fastforce
  then show ?thesis using ts(1,2) ls(1) by (simp add: display_round_def format_line_def)
qed

end
