(* ===== verification/Sntp_Host.thy ===== *)
theory Sntp_Host
  imports Sntp Modbus
begin

text \<open>
  The SNTP client on a hosted system: the socket and the clock of the standard library (the code
  behind \<open>std\<close> in sntpc/src/types.rs and lib.rs), the setting of the system time (sntpc/src/utils)
  and the programs of sntpc/examples, one of them on the smoltcp stack.

  The operating system, the calendar (chrono), the resolution of addresses and the smoltcp stack are
  parameters. An operation that never returns is \<open>None\<close>. A clock before 1970, on which the code
  stops in \<open>unwrap\<close>, is left out: \<open>os_clock\<close> gives a time since the epoch.
\<close>

section \<open>The standard library as socket and clock\<close>

record duration =
  dur_secs :: u64
  dur_nanos :: u32

definition duration_zero :: duration where "duration_zero = \<lparr>dur_secs = 0, dur_nanos = 0\<rparr>"

record ('w, 's) host_os =
  os_bind :: "'w \<Rightarrow> 's option \<times> 'w"
  os_set_read_timeout :: "'s \<Rightarrow> nat \<Rightarrow> 'w \<Rightarrow> bool \<times> 'w"
  os_send_to :: "'s \<Rightarrow> 'w \<Rightarrow> bytes \<Rightarrow> bytes \<Rightarrow> (nat option \<times> 'w) option"
  os_recv_from :: "'s \<Rightarrow> 'w \<Rightarrow> bytes \<Rightarrow> ((bytes \<times> nat \<times> socket_addr) option \<times> 'w) option"
  os_clock :: "'w \<Rightarrow> duration"
  os_addrs :: "bytes \<Rightarrow> socket_addr list option"
  os_sleep :: "nat \<Rightarrow> 'w \<Rightarrow> 'w"

definition duration_gen :: "('w \<Rightarrow> duration) \<Rightarrow> ('w, duration) timestamp_generator" where
  "duration_gen clock =
     \<lparr>ts_init = (\<lambda>w _. clock w), timestamp_sec = dur_secs,
      timestamp_subsec_micros = (\<lambda>d. dur_nanos d div 1000)\<rparr>"

fun network_error :: "'a option \<Rightarrow> (sntp_error, 'a) outcome" where
  "network_error (Some a) = Ok a"
| "network_error None = Err Network"

definition std_udp_socket :: "('w, 's) host_os \<Rightarrow> 's \<Rightarrow> ('w, bytes, socket_addr) ntp_udp_socket" where
  "std_udp_socket H s =
     \<lparr>send_to = (\<lambda>w buf addr. map_option (\<lambda>(r, w'). (network_error r, w')) (os_send_to H s w buf addr)),
      recv_from = (\<lambda>w buf. map_option (\<lambda>(r, w'). (network_error r, w')) (os_recv_from H s w buf))\<rparr>"

definition simple_get_time :: "('w, 's) host_os \<Rightarrow> bytes \<Rightarrow> 's \<Rightarrow> 'w \<Rightarrow> ((sntp_error, ntp_result) outcome \<times> 'w) option" where
  "simple_get_time H pool s w =
     get_time (std_udp_socket H s) (duration_gen (os_clock H)) (os_addrs H) pool duration_zero w"

section \<open>Setting the system time\<close>

record local_time =
  lt_month :: nat
  lt_day :: nat
  lt_year :: nat
  lt_hour :: nat
  lt_minute :: nat
  lt_second :: nat

definition two_digits :: "nat \<Rightarrow> bytes" where
  "two_digits n = (if n < 10 then lit ''0'' @ decimal n else decimal n)"

definition unix_time_str :: "local_time \<Rightarrow> bytes" where
  "unix_time_str t = decimal (lt_month t) @ lit ''/'' @ decimal (lt_day t) @ lit ''/'' @ decimal (lt_year t) @
     lit '' '' @ two_digits (lt_hour t) @ lit '':'' @ two_digits (lt_minute t) @ lit '':'' @ two_digits (lt_second t)"

text \<open>
  A child process ends with a code or by a signal. The lines of the result are those on the standard
  error output.
\<close>

datatype exit_status = Exited nat | Signalled

type_synonym ('w, 'r) command = "bytes list \<Rightarrow> 'w \<Rightarrow> ('r \<times> 'w) option"

definition unix_sync_time :: "('w, exit_status option) command \<Rightarrow> local_time \<Rightarrow> 'w \<Rightarrow>
    ((unit, bytes list) outcome \<times> 'w) option" where
  "unix_sync_time run t w =
     (case run [lit ''date'', lit ''-s'', unix_time_str t] w of
        None \<Rightarrow> None
      | Some (None, w') \<Rightarrow> Some (Panic, w')
      | Some (Some Signalled, w') \<Rightarrow> Some (Panic, w')
      | Some (Some (Exited n), w') \<Rightarrow>
          Some (Ok (if n = 0 then [] else [lit ''Date command exit status '' @ decimal n]), w'))"

definition windows_cmd_str :: "local_time \<Rightarrow> bytes" where
  "windows_cmd_str t = lit ''powershell Set-Date -Date \"'' @
     decimal (lt_day t) @ lit ''/'' @ decimal (lt_month t) @ lit ''/'' @ decimal (lt_year t) @ lit '' '' @
     decimal (lt_hour t) @ lit '':'' @ decimal (lt_minute t) @ lit '':'' @ decimal (lt_second t) @ lit ''\"''"

text \<open>\<open>Inl e\<close>: the child could not be started, with the text of the error; \<open>Inr ok\<close>: the wait for its end.\<close>

definition windows_sync_time :: "('w, bytes + bool) command \<Rightarrow> local_time \<Rightarrow> 'w \<Rightarrow>
    ((unit, bytes list) outcome \<times> 'w) option" where
  "windows_sync_time run t w =
     (case run [lit ''cmd'', lit ''/C'', windows_cmd_str t] w of
        None \<Rightarrow> None
      | Some (Inr True, w') \<Rightarrow> Some (Ok [], w')
      | Some (Inr False, w') \<Rightarrow> Some (Panic, w')
      | Some (Inl e, w') \<Rightarrow> Some (Ok [lit ''Error occurred: '' @ e], w'))"

text \<open>
  \<open>timestamp_opt sec nsec\<close> is the single result of chrono's function of that name, if it has one, and
  \<open>sync_time\<close> the function of the platform.
\<close>

definition update_system_time :: "(int \<Rightarrow> u32 \<Rightarrow> 't option) \<Rightarrow> ('t \<Rightarrow> local_time) \<Rightarrow>
    (local_time \<Rightarrow> 'w \<Rightarrow> ((unit, bytes list) outcome \<times> 'w) option) \<Rightarrow> u32 \<Rightarrow> u32 \<Rightarrow> 'w \<Rightarrow>
    ((unit, bytes list) outcome \<times> 'w) option" where
  "update_system_time timestamp_opt with_timezone sync_time sec nsec w =
     (case timestamp_opt (uint sec) nsec of
        Some time \<Rightarrow> sync_time (with_timezone time) w
      | None \<Rightarrow> Some (Ok [], w))"

section \<open>The example programs\<close>

subsection \<open>timesync\<close>

text \<open>The socket of both programs, bound to any port and with a read timeout in seconds.\<close>

definition example_socket :: "('w, 's) host_os \<Rightarrow> 'w \<Rightarrow> 's option \<times> 'w" where
  "example_socket H w =
     (case os_bind H w of
        (None, w1) \<Rightarrow> (None, w1)
      | (Some s, w1) \<Rightarrow>
          (case os_set_read_timeout H s 2 w1 of
             (ok, w2) \<Rightarrow> (if ok then Some s else None, w2)))"

definition timesync :: "('w, 's) host_os \<Rightarrow> (bytes \<Rightarrow> bytes) \<Rightarrow> (u32 \<Rightarrow> u32 \<Rightarrow> 'w \<Rightarrow> ((unit, bytes list) outcome \<times> 'w) option) \<Rightarrow>
    bytes \<Rightarrow> bytes \<Rightarrow> 'w \<Rightarrow> ((unit, bytes list) outcome \<times> 'w) option" where
  "timesync H parse_error update ntp_server port w =
     (case parse_unsigned (2 ^ 32 - 1) port of
        None \<Rightarrow> Some (Ok [lit ''Unable to convert NTP server port value: '' @ parse_error port], w)
      | Some ntp_port \<Rightarrow>
          (case example_socket H w of
             (None, w1) \<Rightarrow> Some (Panic, w1)
           | (Some s, w1) \<Rightarrow>
               (case simple_get_time H (ntp_server @ lit '':'' @ decimal ntp_port) s w1 of
                  None \<Rightarrow> None
                | Some (Ok time, w2) \<Rightarrow> update (res_seconds time) (res_seconds_fraction time) w2
                | Some (_, w2) \<Rightarrow> Some (Panic, w2))))"

subsection \<open>simple\_request\<close>

definition POOL_NTP_ADDR :: bytes where "POOL_NTP_ADDR = lit ''pool.ntp.org:123''"

text \<open>A printed line: a text, or the error printed with its \<open>Debug\<close> instance.\<close>

datatype report = Got_time bytes | Request_err sntp_error

definition got_time :: "ntp_result \<Rightarrow> bytes" where
  "got_time time =
     (let microseconds = (ucast (res_seconds_fraction time) :: u64) * 1000000 div ucast U32_MAX in
      lit ''Got time: '' @ decimal (unat (res_seconds time)) @ lit ''.'' @ decimal (unat microseconds))"

definition simple_request_round :: "('w, 's) host_os \<Rightarrow> 'w \<Rightarrow> ((unit, report) outcome \<times> 'w) option" where
  "simple_request_round H w =
     (case example_socket H w of
        (None, w1) \<Rightarrow> Some (Panic, w1)
      | (Some s, w1) \<Rightarrow>
          (case simple_get_time H POOL_NTP_ADDR s w1 of
             None \<Rightarrow> None
           | Some (Ok time, w2) \<Rightarrow>
               if res_seconds time = 0 then Some (Panic, w2)
               else Some (Ok (Got_time (got_time time)), os_sleep H 15 w2)
           | Some (Err e, w2) \<Rightarrow> Some (Ok (Request_err e), os_sleep H 15 w2)
           | Some (Panic, w2) \<Rightarrow> Some (Panic, w2)))"

text \<open>The rounds that are left, with the reports printed so far.\<close>

fun simple_request_rounds :: "('w, 's) host_os \<Rightarrow> nat \<Rightarrow> report list \<Rightarrow> 'w \<Rightarrow> (((unit, unit) outcome \<times> report list) \<times> 'w) option" where
  "simple_request_rounds H 0 out w = Some ((Ok (), out), w)"
| "simple_request_rounds H (Suc n) out w =
     (case simple_request_round H w of
        None \<Rightarrow> None
      | Some (Ok r, w') \<Rightarrow> simple_request_rounds H n (out @ [r]) w'
      | Some (_, w') \<Rightarrow> Some ((Panic, out), w'))"

definition simple_request :: "('w, 's) host_os \<Rightarrow> 'w \<Rightarrow> (((unit, unit) outcome \<times> report list) \<times> 'w) option" where
  "simple_request H w = simple_request_rounds H 5 [] w"

subsection \<open>smoltcp\_request\<close>

text \<open>
  The stack: \<open>if_poll\<close> moves packets between the device and the socket, \<open>if_wait\<close> waits on the
  device and reports failure as \<open>False\<close>. An endpoint is an IPv4 address with a port.
\<close>

record 'w smoltcp_stack =
  if_poll :: "'w \<Rightarrow> 'w"
  if_wait :: "'w \<Rightarrow> bool \<times> 'w"
  can_send :: "'w \<Rightarrow> bool"
  can_recv :: "'w \<Rightarrow> bool"
  send_slice :: "'w \<Rightarrow> bytes \<Rightarrow> bytes \<times> u16 \<Rightarrow> bool \<times> 'w"
  recv_slice :: "'w \<Rightarrow> bytes \<Rightarrow> (bytes \<times> nat \<times> bytes \<times> u16) option \<times> 'w"
  if_clock :: "'w \<Rightarrow> duration"

definition smoltcp_send_to :: "'w smoltcp_stack \<Rightarrow> ('d \<Rightarrow> socket_addr list option) \<Rightarrow> 'w \<Rightarrow> bytes \<Rightarrow> 'd \<Rightarrow>
    (sntp_error, nat) outcome \<times> 'w" where
  "smoltcp_send_to N to_socket_addrs w buf addr =
     (case to_socket_addrs addr of
        None \<Rightarrow> (Err Network, w)
      | Some [] \<Rightarrow> (Err Network, w)
      | Some (V6 ip p # _) \<Rightarrow> (Err Network, w)
      | Some (V4 ip p # _) \<Rightarrow>
          (case send_slice N w buf (ip, p) of
             (ok, w') \<Rightarrow> (if ok then Ok (length buf) else Err Network, w')))"

definition smoltcp_recv_from :: "'w smoltcp_stack \<Rightarrow> 'w \<Rightarrow> bytes \<Rightarrow> (sntp_error, bytes \<times> nat \<times> socket_addr) outcome \<times> 'w" where
  "smoltcp_recv_from N w buf =
     (case recv_slice N w buf of
        (Some (buf', sz, ip, p), w') \<Rightarrow> (Ok (buf', sz, V4 ip p), w')
      | (None, w') \<Rightarrow> (Err Network, w'))"

definition smoltcp_socket :: "'w smoltcp_stack \<Rightarrow> ('w, socket_addr, socket_addr) ntp_udp_socket" where
  "smoltcp_socket N =
     \<lparr>send_to = (\<lambda>w buf addr. Some (smoltcp_send_to N (\<lambda>a. Some [a]) w buf addr)),
      recv_from = (\<lambda>w buf. Some (smoltcp_recv_from N w buf))\<rparr>"

text \<open>
  The server from the command line: \<open>IpAddr::from_str\<close> reads an address (\<open>Inl\<close> IPv4, \<open>Inr\<close> IPv6) and
  no host name. The defaults are those of the options.
\<close>

definition default_server :: bytes where "default_server = lit ''pool.ntp.org''"
definition default_port :: bytes where "default_port = lit ''123''"

definition server_sock_addr :: "(bytes \<Rightarrow> (bytes + bytes) option) \<Rightarrow> bytes \<Rightarrow> bytes \<Rightarrow> (unit, socket_addr) outcome" where
  "server_sock_addr ip_from_str server port =
     (case parse_unsigned (2 ^ 16 - 1) port of
        None \<Rightarrow> Panic
      | Some n \<Rightarrow>
          (case ip_from_str server of
             None \<Rightarrow> Panic
           | Some (Inl ip) \<Rightarrow> Ok (V4 ip (of_nat n))
           | Some (Inr ip) \<Rightarrow> Ok (V6 ip (of_nat n))))"

text \<open>The variables of the main loop; \<open>logged\<close> are the results that the loop writes to the log.\<close>

record smoltcp_state =
  once_tx :: bool
  once_rx :: bool
  send_result :: "send_request_result option"
  logged :: "(sntp_error, ntp_result) outcome list"

definition smoltcp_init :: smoltcp_state where
  "smoltcp_init = \<lparr>once_tx = True, once_rx = True, send_result = None, logged = []\<rparr>"

definition smoltcp_tx :: "'w smoltcp_stack \<Rightarrow> socket_addr \<Rightarrow> smoltcp_state \<Rightarrow> 'w \<Rightarrow> ((unit, smoltcp_state) outcome \<times> 'w) option" where
  "smoltcp_tx N server st w =
     (if once_tx st \<and> can_send N w then
        let st1 = st\<lparr>once_tx := False\<rparr> in
        (case sntp_send_request (smoltcp_socket N) (duration_gen (if_clock N)) server duration_zero w of
           None \<Rightarrow> None
         | Some (Ok result, w') \<Rightarrow> Some (Ok (st1\<lparr>send_result := Some result\<rparr>), w')
         | Some (Err _, w') \<Rightarrow> Some (Ok (st1\<lparr>once_tx := True\<rparr>), w')
         | Some (Panic, w') \<Rightarrow> Some (Panic, w'))
      else Some (Ok st, w))"

definition smoltcp_rx :: "'w smoltcp_stack \<Rightarrow> socket_addr \<Rightarrow> smoltcp_state \<Rightarrow> 'w \<Rightarrow> ((unit, smoltcp_state) outcome \<times> 'w) option" where
  "smoltcp_rx N server st w =
     (case send_result st of
        None \<Rightarrow> Some (Ok st, w)
      | Some tx_result \<Rightarrow>
          if once_rx st \<and> can_recv N w then
            (case sntp_process_response (smoltcp_socket N) (duration_gen (if_clock N)) (\<lambda>a. Some [a]) server
                duration_zero tx_result w of
               None \<Rightarrow> None
             | Some (Panic, w') \<Rightarrow> Some (Panic, w')
             | Some (result, w') \<Rightarrow> Some (Ok (st\<lparr>once_rx := False, logged := logged st @ [result]\<rparr>), w'))
          else Some (Ok st, w))"

definition smoltcp_pass :: "'w smoltcp_stack \<Rightarrow> socket_addr \<Rightarrow> smoltcp_state \<Rightarrow> 'w \<Rightarrow> ((unit, smoltcp_state) outcome \<times> 'w) option" where
  "smoltcp_pass N server st w =
     (case smoltcp_tx N server st (if_poll N w) of
        Some (Ok st1, w1) \<Rightarrow>
          (case smoltcp_rx N server st1 w1 of
             Some (Ok st2, w2) \<Rightarrow>
               (case if_wait N w2 of (ok, w3) \<Rightarrow> Some (if ok then Ok st2 else Panic, w3))
           | other \<Rightarrow> other)
      | other \<Rightarrow> other)"

text \<open>The loop ends when \<open>once_rx\<close> is false; a stack on which nothing arrives keeps it running.\<close>

partial_function (option) smoltcp_loop :: "'w smoltcp_stack \<Rightarrow> socket_addr \<Rightarrow> smoltcp_state \<Rightarrow> 'w \<Rightarrow>
    ((unit, smoltcp_state) outcome \<times> 'w) option" where
  "smoltcp_loop N server st w =
     (if once_rx st then
        (case smoltcp_pass N server st w of
           None \<Rightarrow> None
         | Some (r, w') \<Rightarrow> (case r of Ok st' \<Rightarrow> smoltcp_loop N server st' w' | _ \<Rightarrow> Some (r, w')))
      else Some (Ok st, w))"

section \<open>Setting the clock\<close>

text \<open>
  The second argument of \<open>update_system_time\<close> goes to chrono as nanoseconds, of which two thousand
  million and more are invalid. The fraction that \<open>timesync\<close> passes counts units of \<open>2\<^sup>-\<^sup>3\<^sup>2\<close> seconds,
  so an answer from the later half of a second leaves the system time alone, without a message.
\<close>

definition rejects_invalid_nanoseconds :: "(int \<Rightarrow> u32 \<Rightarrow> 't option) \<Rightarrow> bool" where
  "rejects_invalid_nanoseconds timestamp_opt \<longleftrightarrow> (\<forall>sec nsec. 2000000000 \<le> nsec \<longrightarrow> timestamp_opt sec nsec = None)"

lemma update_system_time_sets:
  "timestamp_opt (uint sec) nsec = Some t \<Longrightarrow>
   update_system_time timestamp_opt with_timezone sync_time sec nsec w = sync_time (with_timezone t) w"
  by (simp add: update_system_time_def)

lemma update_system_time_ignored:
  assumes "rejects_invalid_nanoseconds timestamp_opt" "2000000000 \<le> nsec"
  shows "update_system_time timestamp_opt with_timezone sync_time sec nsec w = Some (Ok [], w)"
  using assms by (simp add: update_system_time_def rejects_invalid_nanoseconds_def)

lemma timesync_cases:
  assumes "parse_unsigned (2 ^ 32 - 1) port = Some n" "example_socket H w = (Some s, w1)"
    and "simple_get_time H (ntp_server @ lit '':'' @ decimal n) s w1 = Some (r, w2)"
  shows "timesync H parse_error update ntp_server port w =
    (case r of Ok t \<Rightarrow> update (res_seconds t) (res_seconds_fraction t) w2 | _ \<Rightarrow> Some (Panic, w2))"
  using assms by (cases r) (simp_all add: timesync_def)

lemma timesync_ignored:
  assumes "rejects_invalid_nanoseconds timestamp_opt" "parse_unsigned (2 ^ 32 - 1) port = Some n"
    and "example_socket H w = (Some s, w1)"
    and "simple_get_time H (ntp_server @ lit '':'' @ decimal n) s w1 = Some (Ok t, w2)"
    and "2000000000 \<le> res_seconds_fraction t"
  shows "timesync H parse_error (update_system_time timestamp_opt with_timezone sync_time) ntp_server port w = Some (Ok [], w2)"
  using timesync_cases [OF assms(2,3,4)] by (simp add: update_system_time_ignored [OF assms(1,5)])

text \<open>The two platforms put the month and the day in different order.\<close>

lemma date_texts:
  defines "t \<equiv> \<lparr>lt_month = 3, lt_day = 4, lt_year = 2024, lt_hour = 5, lt_minute = 6, lt_second = 7\<rparr>"
  shows "unix_time_str t = lit ''3/4/2024 05:06:07''"
    "windows_cmd_str t = lit ''powershell Set-Date -Date \"4/3/2024 5:6:7\"''"
  by (simp_all add: t_def unix_time_str_def windows_cmd_str_def two_digits_def lit_def byte_of_char_def decimal.simps)

section \<open>The printed time\<close>

lemma microseconds_bound:
  "unat ((ucast (f :: u32) :: u64) * 1000000 div ucast U32_MAX) = unat f * 1000000 div 4294967295"
proof -
  have "unat f < 2 ^ 32" using unsigned_less [of f] by simp
  then have "unat ((ucast f :: u64) * 1000000) = unat f * 1000000"
    by (simp add: unat_word_ariths unsigned_ucast_eq take_bit_eq_mod)
  then show ?thesis by (simp add: unat_div U32_MAX_def)
qed

text \<open>The digits after the point are microseconds without leading zeros: five microseconds read as half a second.\<close>

lemma got_time_unpadded:
  "res_seconds t = 1 \<Longrightarrow> res_seconds_fraction t = 21475 \<Longrightarrow> got_time t = lit ''Got time: 1.5''"
  by (simp add: got_time_def microseconds_bound U32_MAX_def Let_def lit_def byte_of_char_def decimal.simps)

section \<open>The loop on the smoltcp stack\<close>

lemma smoltcp_loop_next:
  "once_rx st \<Longrightarrow> smoltcp_pass N server st w = Some (Ok st', w') \<Longrightarrow>
   smoltcp_loop N server st w = smoltcp_loop N server st' w'"
  by (subst smoltcp_loop.simps) simp

lemma smoltcp_loop_done: "\<not> once_rx st \<Longrightarrow> smoltcp_loop N server st w = Some (Ok st, w)"
  by (subst smoltcp_loop.simps) simp

text \<open>
  A request is out exactly when \<open>once_tx\<close> is false, and a result is in the log exactly when the loop
  is over.
\<close>

definition smoltcp_ok :: "smoltcp_state \<Rightarrow> bool" where
  "smoltcp_ok st \<longleftrightarrow> once_tx st = (send_result st = None) \<and> (if once_rx st then logged st = [] else length (logged st) = 1) \<and>
     (once_tx st \<longrightarrow> once_rx st)"

lemma smoltcp_init_ok: "smoltcp_ok smoltcp_init"
  by (simp add: smoltcp_ok_def smoltcp_init_def)

lemma smoltcp_tx_ok: "smoltcp_tx N server st w = Some (Ok st', w') \<Longrightarrow> smoltcp_ok st \<Longrightarrow> smoltcp_ok st'"
  by (auto simp: smoltcp_tx_def smoltcp_ok_def Let_def split: if_splits option.splits prod.splits outcome.splits)

lemma smoltcp_rx_ok: "smoltcp_rx N server st w = Some (Ok st', w') \<Longrightarrow> smoltcp_ok st \<Longrightarrow> smoltcp_ok st'"
  by (auto simp: smoltcp_rx_def smoltcp_ok_def split: if_splits option.splits prod.splits outcome.splits)

lemma smoltcp_pass_ok: "smoltcp_pass N server st w = Some (Ok st', w') \<Longrightarrow> smoltcp_ok st \<Longrightarrow> smoltcp_ok st'"
  by (auto simp: smoltcp_pass_def split: if_splits option.splits prod.splits outcome.splits dest!: smoltcp_tx_ok smoltcp_rx_ok)

lemma smoltcp_loop_ends_ok:
  assumes "smoltcp_loop N server st w = Some y"
  shows "smoltcp_ok st \<longrightarrow> (\<forall>st'. fst y = Ok st' \<longrightarrow> smoltcp_ok st' \<and> \<not> once_rx st')"
proof (rule smoltcp_loop.raw_induct [OF _ assms,
      where P = "\<lambda>N server st w y. smoltcp_ok st \<longrightarrow> (\<forall>st'. fst y = Ok st' \<longrightarrow> smoltcp_ok st' \<and> \<not> once_rx st')"], goal_cases)
  case (1 loop N server st w y)
  show ?case
    using 1(2) by (auto split: option.splits prod.splits outcome.splits if_splits dest: smoltcp_pass_ok 1(1))
qed

lemma smoltcp_loop_ok:
  assumes "smoltcp_loop N server st w = Some (Ok st', w')" "smoltcp_ok st"
  shows "smoltcp_ok st'" "\<not> once_rx st'"
  using smoltcp_loop_ends_ok [OF assms(1)] assms(2) by simp_all

text \<open>
  The requests that leave: \<open>sent\<close> counts what the socket accepted. An accepted request is the last
  one, so the loop sends at most one.
\<close>

definition counts_sent :: "'w smoltcp_stack \<Rightarrow> ('w \<Rightarrow> nat) \<Rightarrow> bool" where
  "counts_sent N sent \<longleftrightarrow> (\<forall>w. sent (if_poll N w) = sent w \<and> sent (snd (if_wait N w)) = sent w) \<and>
     (\<forall>w buf. sent (snd (recv_slice N w buf)) = sent w) \<and>
     (\<forall>w buf ep. sent (snd (send_slice N w buf ep)) = sent w + (if fst (send_slice N w buf ep) then 1 else 0))"

lemma smoltcp_send_request:
  "sntp_send_request (smoltcp_socket N) G server g w = Some
     (case server of
        V4 ip p \<Rightarrow> (case send_slice N w (raw_from_ntp_packet (ntp_packet_new G w g)) (ip, p) of
           (ok, w') \<Rightarrow> (if ok then Ok (send_request_result_from (ntp_packet_new G w g)) else Err Network, w'))
      | V6 ip p \<Rightarrow> (Err Network, w))"
  by (simp add: sntp_send_request_def send_request_def smoltcp_socket_def smoltcp_send_to_def Let_def
      split: socket_addr.split prod.split)

lemma smoltcp_process_response:
  "sntp_process_response (smoltcp_socket N) G (\<lambda>a. Some [a]) server g req w = Some
     (case recv_slice N w raw_default of
        (None, w') \<Rightarrow> (Err Network, w')
      | (Some (buf, sz, ip, p), w') \<Rightarrow>
          (if server \<noteq> V4 ip p then Err ResponseAddressMismatch
           else if sz \<noteq> NTP_PACKET_SIZE then Err (IncorrectPayload1 sz NTP_PACKET_SIZE)
           else process_response req buf (get_ntp_timestamp G (ts_init G w' g)), w'))"
  by (simp add: sntp_process_response_def smoltcp_socket_def smoltcp_recv_from_def Let_def
      split: prod.split option.split)

lemma process_response_no_panic [simp]: "process_response req resp ts \<noteq> Panic"
  by (simp add: process_response_def Let_def)

lemma smoltcp_rx_response:
  assumes "send_result st = Some r" "once_rx st" "can_recv N w"
  obtains w' result where "smoltcp_rx N server st w = Some (Ok (st\<lparr>once_rx := False, logged := logged st @ [result]\<rparr>), w')"
    "w' = snd (recv_slice N w raw_default)" "result \<noteq> Panic"
proof -
  define x where "x = sntp_process_response (smoltcp_socket N) (duration_gen (if_clock N)) (\<lambda>a. Some [a]) server duration_zero r w"
  obtain res w' where x: "x = Some (res, w')" "res \<noteq> Panic" "w' = snd (recv_slice N w raw_default)"
    by (rule that [of "fst (the x)" "snd (the x)"])
      (simp_all add: x_def smoltcp_process_response split: prod.split option.split)
  have "smoltcp_rx N server st w = Some (Ok (st\<lparr>once_rx := False, logged := logged st @ [res]\<rparr>), w')"
    using assms x(1,2) by (cases res) (simp_all add: smoltcp_rx_def x_def)
  from that [OF this x(3,2)] show thesis .
qed

lemma smoltcp_rx_idle: "send_result st = None \<or> \<not> once_rx st \<or> \<not> can_recv N w \<Longrightarrow> smoltcp_rx N server st w = Some (Ok st, w)"
  by (auto simp: smoltcp_rx_def split: option.split)

lemma smoltcp_tx_idle: "\<not> once_tx st \<or> \<not> can_send N w \<Longrightarrow> smoltcp_tx N server st w = Some (Ok st, w)"
  by (auto simp: smoltcp_tx_def)

lemma smoltcp_rx_total:
  obtains st' w' where "smoltcp_rx N server st w = Some (Ok st', w')" "w' = w \<or> w' = snd (recv_slice N w raw_default)"
    "send_result st' = send_result st" "once_tx st' = once_tx st"
proof (cases "send_result st = None \<or> \<not> once_rx st \<or> \<not> can_recv N w")
  case True
  show thesis by (rule that [OF smoltcp_rx_idle [OF True]]) simp_all
next
  case False
  then obtain r where r: "send_result st = Some r" "once_rx st" "can_recv N w" by auto
  show thesis by (rule smoltcp_rx_response [OF r, of server]) (rule that, assumption, simp_all)
qed

lemma smoltcp_tx_total:
  obtains st' w' where "smoltcp_tx N server st w = Some (Ok st', w')" "once_rx st' = once_rx st" "logged st' = logged st"
    "counts_sent N sent \<longrightarrow> sent w' + (if once_tx st' then 1 else 0) = sent w + (if once_tx st then 1 else 0)"
proof (cases "once_tx st \<and> can_send N w")
  case False
  show thesis by (rule that [OF smoltcp_tx_idle]) (use False in auto)
next
  case True
  show thesis
  proof (cases server)
    case (V4 ip p)
    define buf where "buf = raw_from_ntp_packet (ntp_packet_new (duration_gen (if_clock N)) w duration_zero)"
    obtain ok w' where s: "send_slice N w buf (ip, p) = (ok, w')" by (cases "send_slice N w buf (ip, p)")
    have n: "counts_sent N sent \<longrightarrow> sent w' = sent w + (if ok then 1 else 0)"
      using s unfolding counts_sent_def by (metis fst_conv snd_conv)
    define r where "r = send_request_result_from (ntp_packet_new (duration_gen (if_clock N)) w duration_zero)"
    have "smoltcp_tx N server st w = Some (Ok (if ok then st\<lparr>once_tx := False, send_result := Some r\<rparr> else st\<lparr>once_tx := True\<rparr>), w')"
      using True V4 s by (simp add: smoltcp_tx_def smoltcp_send_request buf_def [symmetric] r_def Let_def)
    from that [OF this] show thesis using True n by (cases ok) auto
  next
    case (V6 ip p)
    have "smoltcp_tx N server st w = Some (Ok (st\<lparr>once_tx := True\<rparr>), w)"
      using True V6 by (simp add: smoltcp_tx_def smoltcp_send_request Let_def)
    from that [OF this] show thesis using True by simp
  qed
qed

lemma smoltcp_pass_counts:
  assumes "counts_sent N sent" "smoltcp_pass N server st w = Some (r, w')"
  shows "sent w' + (case r of Ok st' \<Rightarrow> if once_tx st' then 1 else 0 | _ \<Rightarrow> 0) \<le> sent w + (if once_tx st then 1 else 0)"
proof -
  note [simp] = assms(1) [unfolded counts_sent_def, THEN conjunct1, rule_format, THEN conjunct1]
    assms(1) [unfolded counts_sent_def, THEN conjunct1, rule_format, THEN conjunct2]
    assms(1) [unfolded counts_sent_def, THEN conjunct2, THEN conjunct1, rule_format]
  obtain st1 w1 where tx: "smoltcp_tx N server st (if_poll N w) = Some (Ok st1, w1)"
    and n1: "counts_sent N sent \<longrightarrow> sent w1 + (if once_tx st1 then 1 else 0) = sent (if_poll N w) + (if once_tx st then 1 else 0)"
    by (rule smoltcp_tx_total [of N server st "if_poll N w" sent])
  obtain st2 w2 where rx: "smoltcp_rx N server st1 w1 = Some (Ok st2, w2)" and w2: "sent w2 = sent w1" and "once_tx st2 = once_tx st1"
    by (rule smoltcp_rx_total [of N server st1 w1]) auto
  moreover have "w' = snd (if_wait N w2)" "r = Ok st2 \<or> r = Panic"
    using assms(2) tx rx by (auto simp: smoltcp_pass_def split: prod.splits if_splits)
  ultimately show ?thesis using assms(1) n1 by auto
qed

lemma smoltcp_loop_sends_once:
  assumes "counts_sent N sent" "smoltcp_loop N server st w = Some (r, w')"
  shows "sent w' \<le> sent w + (if once_tx st then 1 else 0)"
proof -
  have "counts_sent N sent \<longrightarrow> sent (snd (r, w')) \<le> sent w + (if once_tx st then 1 else 0)"
  proof (rule smoltcp_loop.raw_induct [OF _ assms(2),
        where P = "\<lambda>N server st w y. counts_sent N sent \<longrightarrow> sent (snd y) \<le> sent w + (if once_tx st then 1 else 0)"], goal_cases)
    case (1 loop N server st w y)
    show ?case
      using 1(2) by (force split: option.splits outcome.splits if_splits dest: smoltcp_pass_counts dest!: 1(1))
  qed
  then show ?thesis using assms(1) by simp
qed

text \<open>
  The loop returns on a stack that gets ready: \<open>d False\<close> bounds the passes until the socket can send,
  \<open>d True\<close> those until a datagram is there. A server with an IPv6 address would keep it running.
\<close>

definition gets_ready :: "'w smoltcp_stack \<Rightarrow> (bool \<Rightarrow> 'w \<Rightarrow> nat) \<Rightarrow> bool" where
  "gets_ready N d \<longleftrightarrow> (\<forall>w. fst (if_wait N w)) \<and>
     (\<forall>w buf ep. can_send N w \<longrightarrow> fst (send_slice N w buf ep)) \<and>
     (\<forall>w. \<not> can_send N (if_poll N w) \<longrightarrow> d False (snd (if_wait N (if_poll N w))) < d False w) \<and>
     (\<forall>w. \<not> can_recv N (if_poll N w) \<longrightarrow> d True (snd (if_wait N (if_poll N w))) < d True w)"

lemma smoltcp_pass_run:
  assumes "gets_ready N d" "smoltcp_tx N server st (if_poll N w) = Some (Ok st1, w1)" "smoltcp_rx N server st1 w1 = Some (Ok st2, w2)"
  shows "smoltcp_pass N server st w = Some (Ok st2, snd (if_wait N w2))"
  using assms by (cases "if_wait N w2") (simp add: smoltcp_pass_def gets_ready_def, metis fst_conv)

lemma smoltcp_tx_sends:
  assumes "once_tx st" "can_send N w" "\<And>buf ep. fst (send_slice N w buf ep)"
  obtains r w' where "smoltcp_tx N (V4 ip p) st w = Some (Ok (st\<lparr>once_tx := False, send_result := Some r\<rparr>), w')"
proof -
  define pkt where "pkt = ntp_packet_new (duration_gen (if_clock N)) w duration_zero"
  obtain w' where w': "send_slice N w (raw_from_ntp_packet pkt) (ip, p) = (True, w')"
    using assms(3) [of "raw_from_ntp_packet pkt" "(ip, p)"] by (metis prod.collapse)
  have "smoltcp_tx N (V4 ip p) st w = Some (Ok (st\<lparr>once_tx := False, send_result := Some (send_request_result_from pkt)\<rparr>), w')"
    using assms(1,2) w' by (simp add: smoltcp_tx_def smoltcp_send_request pkt_def Let_def)
  then show thesis by (rule that)
qed

lemma smoltcp_waits_for_reply:
  assumes "gets_ready N d" "smoltcp_ok st" "once_rx st" "send_result st = Some r"
  shows "\<exists>st' w'. smoltcp_loop N server st w = Some (Ok st', w')"
  using assms(2-)
proof (induction "d True w" arbitrary: w rule: less_induct)
  case less
  have tx: "smoltcp_tx N server st (if_poll N w) = Some (Ok st, if_poll N w)"
    using less.prems by (intro smoltcp_tx_idle) (simp add: smoltcp_ok_def)
  show ?case
  proof (cases "can_recv N (if_poll N w)")
    case True
    obtain w' res where "smoltcp_rx N server st (if_poll N w) =
        Some (Ok (st\<lparr>once_rx := False, logged := logged st @ [res]\<rparr>), w')"
      by (rule smoltcp_rx_response [OF less.prems(3,2) True, of server])
    then have "smoltcp_pass N server st w =
        Some (Ok (st\<lparr>once_rx := False, logged := logged st @ [res]\<rparr>), snd (if_wait N w'))"
      by (rule smoltcp_pass_run [OF assms(1) tx])
    then show ?thesis by (simp add: smoltcp_loop_next [OF less.prems(2)] smoltcp_loop_done)
  next
    case False
    have "smoltcp_pass N server st w = Some (Ok st, snd (if_wait N (if_poll N w)))"
      by (rule smoltcp_pass_run [OF assms(1) tx smoltcp_rx_idle]) (simp add: False)
    moreover have "d True (snd (if_wait N (if_poll N w))) < d True w" using assms(1) False by (simp add: gets_ready_def)
    ultimately show ?thesis using less by (simp add: smoltcp_loop_next)
  qed
qed

lemma smoltcp_loop_returns:
  assumes "gets_ready N d" "smoltcp_ok st" "once_rx st" "send_result st = None"
  shows "\<exists>st' w'. smoltcp_loop N (V4 ip p) st w = Some (Ok st', w')"
  using assms(2-)
proof (induction "d False w" arbitrary: w rule: less_induct)
  case less
  have tx: "once_tx st" using less.prems by (simp add: smoltcp_ok_def)
  show ?case
  proof (cases "can_send N (if_poll N w)")
    case False
    have "smoltcp_pass N (V4 ip p) st w = Some (Ok st, snd (if_wait N (if_poll N w)))"
      by (rule smoltcp_pass_run [OF assms(1) smoltcp_tx_idle smoltcp_rx_idle]) (simp_all add: False less.prems)
    moreover have "d False (snd (if_wait N (if_poll N w))) < d False w" using assms(1) False by (simp add: gets_ready_def)
    ultimately show ?thesis using less by (simp add: smoltcp_loop_next)
  next
    case True
    then have send: "fst (send_slice N (if_poll N w) buf ep)" for buf ep using assms(1) unfolding gets_ready_def by blast
    obtain r w1 where tx1: "smoltcp_tx N (V4 ip p) st (if_poll N w) = Some (Ok (st\<lparr>once_tx := False, send_result := Some r\<rparr>), w1)"
      by (rule smoltcp_tx_sends [OF tx True send])
    obtain st2 w2 where rx: "smoltcp_rx N (V4 ip p) (st\<lparr>once_tx := False, send_result := Some r\<rparr>) w1 = Some (Ok st2, w2)"
      and st2: "send_result st2 = Some r"
      by (rule smoltcp_rx_total [of N "V4 ip p" "st\<lparr>once_tx := False, send_result := Some r\<rparr>" w1]) simp
    have pass: "smoltcp_pass N (V4 ip p) st w = Some (Ok st2, snd (if_wait N w2))"
      by (rule smoltcp_pass_run [OF assms(1) tx1 rx])
    show ?thesis
      using smoltcp_loop_next [OF less.prems(2) pass] smoltcp_loop_done [of st2 N "V4 ip p"]
        smoltcp_waits_for_reply [OF assms(1) smoltcp_pass_ok [OF pass less.prems(1)] _ st2, of "V4 ip p"]
      by (cases "once_rx st2") simp_all
  qed
qed

text \<open>The whole run: it returns, has sent at most one request and logs one result.\<close>

lemma smoltcp_request_run:
  assumes "gets_ready N d" "counts_sent N sent"
  obtains st' w' result where "smoltcp_loop N (V4 ip p) smoltcp_init w = Some (Ok st', w')" "logged st' = [result]" "sent w' \<le> sent w + 1"
proof -
  obtain st' w' where run: "smoltcp_loop N (V4 ip p) smoltcp_init w = Some (Ok st', w')"
    using smoltcp_loop_returns [OF assms(1) smoltcp_init_ok] by (force simp: smoltcp_init_def)
  have "length (logged st') = 1" using smoltcp_loop_ok [OF run smoltcp_init_ok] by (simp add: smoltcp_ok_def)
  then obtain result where "logged st' = [result]" by (auto simp: length_Suc_conv)
  then show thesis by (rule that [OF run]) (use smoltcp_loop_sends_once [OF assms(2) run] in \<open>simp split: if_splits\<close>)
qed

text \<open>
  The first datagram decides: one from another address ends the program as well, with an error in
  the log, and the answer of the server is not waited for.
\<close>

lemma smoltcp_stranger_ends:
  assumes "send_result st = Some r" "once_rx st" "can_recv N w" "logged st = []"
    and "recv_slice N w raw_default = (Some (buf, sz, ip, p), w')" "server \<noteq> V4 ip p"
  shows "smoltcp_rx N server st w = Some (Ok (st\<lparr>once_rx := False, logged := [Err ResponseAddressMismatch]\<rparr>), w')"
  using assms by (simp add: smoltcp_rx_def smoltcp_process_response)

text \<open>The wrapper refuses an IPv6 server, and the loop tries again without end.\<close>

lemma smoltcp_tx_v6: "smoltcp_tx N (V6 ip p) st w = Some (Ok st', w') \<Longrightarrow>
  send_result st' = send_result st \<and> once_rx st' = once_rx st"
  by (auto simp: smoltcp_tx_def smoltcp_send_request Let_def split: if_splits)

lemma smoltcp_pass_v6:
  assumes "smoltcp_pass N (V6 ip p) st w = Some (Ok st', w')" "send_result st = None"
  shows "send_result st' = None \<and> once_rx st' = once_rx st"
  using assms
  by (auto simp: smoltcp_pass_def smoltcp_rx_def split: option.splits prod.splits outcome.splits if_splits dest!: smoltcp_tx_v6)

lemma smoltcp_v6_never_done: "smoltcp_loop N (V6 ip p) smoltcp_init w \<noteq> Some (Ok st', w')"
proof
  assume run: "smoltcp_loop N (V6 ip p) smoltcp_init w = Some (Ok st', w')"
  have "V6 ip p = V6 ip p \<longrightarrow> send_result smoltcp_init = None \<longrightarrow> once_rx smoltcp_init \<longrightarrow> fst (Ok st' :: (unit, smoltcp_state) outcome, w') \<noteq> Ok st'"
  proof (rule smoltcp_loop.raw_induct [OF _ run,
        where P = "\<lambda>N server st w y. server = V6 ip p \<longrightarrow> send_result st = None \<longrightarrow> once_rx st \<longrightarrow> fst y \<noteq> Ok st'"], goal_cases)
    case (1 loop N server st w y)
    show ?case
      using 1(2) by (auto split: option.splits prod.splits outcome.splits if_splits dest: smoltcp_pass_v6 1(1))
  qed
  then show False by (simp add: smoltcp_init_def)
qed

text \<open>A server has to be given: the default is a host name, on which the program stops.\<close>

lemma default_server_panics: "ip_from_str default_server = None \<Longrightarrow> server_sock_addr ip_from_str default_server port = Panic"
  by (simp add: server_sock_addr_def split: option.split)

lemma given_server: "ip_from_str server = Some (Inl ip) \<Longrightarrow> server_sock_addr ip_from_str server default_port = Ok (V4 ip 123)"
proof -
  have "default_port = decimal 123" by (simp add: default_port_def lit_def byte_of_char_def decimal.simps)
  then show "ip_from_str server = Some (Inl ip) \<Longrightarrow> ?thesis"
    using parse_unsigned_decimal [of 123 "2 ^ 16 - 1"] by (simp add: server_sock_addr_def)
qed

text \<open>A stack with a server behind it that answers the next request with the given datagram.\<close>

definition sample_stack :: "bytes \<Rightarrow> bytes \<times> u16 \<Rightarrow> (nat \<times> bool) smoltcp_stack" where
  "sample_stack reply ep =
     \<lparr>if_poll = (\<lambda>w. w), if_wait = (\<lambda>w. (True, w)), can_send = (\<lambda>w. True), can_recv = (\<lambda>w. True),
      send_slice = (\<lambda>(n, b) buf ep'. (True, (Suc n, True))),
      recv_slice = (\<lambda>(n, b) buf. (Some (reply, length reply, ep), (n, False))),
      if_clock = (\<lambda>w. \<lparr>dur_secs = 1700000000, dur_nanos = 0\<rparr>)\<rparr>"

lemma sample_stack_ready: "gets_ready (sample_stack reply ep) (\<lambda>_ _. 0)" "counts_sent (sample_stack reply ep) fst"
  by (simp_all add: gets_ready_def counts_sent_def sample_stack_def)

lemma sample_stack_run: "\<exists>st' result n b. smoltcp_loop (sample_stack reply ep) (V4 ip p) smoltcp_init (0, False) = Some (Ok st', (n, b)) \<and>
    logged st' = [result] \<and> n \<le> 1"
  by (rule smoltcp_request_run [OF sample_stack_ready(1,2) [of reply ep], where ip = ip and p = p and w = "(0, False)"]) (auto 0 3)

end
