(* ===== verification/Spec2Isabelle.thy ===== *)
theory Spec2Isabelle
  imports Mqtt_Session Mqtt_Unit_Tests Ntp_Task Controller_Replies Startup Modbus_Gateway Http_Server Syslog Tcp_Debug Display Sntp_Host
begin

text \<open>
  Verification of the Toucan controller (stm32f407_controller) and the libraries beside it. The
  firmware runs on an STM32F407 between a vehicle battery and a solar inverter. It translates
  between their CAN protocols, drives the contactors of the battery, and serves telemetry and
  settings over MQTT, HTTP, syslog, a serial port and a display; a Modbus gateway and an SNTP client
  run beside. Three libraries belong to the repository: rust-mqtt (an MQTT 5 client), sntpc (an
  SNTP client) and syslog-emb.

  \<^bold>\<open>Parts and how they interact.\<close> The tasks of the controller (src/stm32f407_controller/src/bin/tasks)
  share channels, signals and mutexes (statics). The CAN interface tasks move frames between the bus
  and the channels. A battery processor decodes the battery's frames, updates the battery data, and
  signals the watchdog (which \<open>main\<close> never spawns). An inverter processor answers the inverter from that data and tells the
  contactor task to close or open. The MQTT task runs a session of the MQTT client over TCP, which
  encodes requests into a buffer, sends them, receives packets from the byte stream and decodes
  them. The web server, the syslog client and the debug console format text into fixed buffers.
  The NTP task asks a server through the SNTP client and sets the clock.

  \<^bold>\<open>Theories and sources.\<close>
  \<^item> Rust_Prelude: outcomes of Rust calls (value, error, panic), the \<open>?\<close> operator, slices, \<open>heapless\<close>
    vectors, UTF-8, decimal numbers. Byte_Order: endianness.
  \<^item> rust-mqtt/src: Mqtt_Varint (encoding/variable_byte_integer.rs), Mqtt_Types (utils/types.rs),
    Mqtt_Writer and Mqtt_Reader (utils/buffer_writer.rs, buffer_reader.rs), Mqtt_Codec (their
    common contract), Mqtt_Property, Mqtt_Codes, Mqtt_Packet, Mqtt_Acks, Mqtt_Control, Mqtt_Connect,
    Mqtt_Publish, Mqtt_Subscribe (packet/v5), Mqtt_Network (network/mod.rs and \<open>receive_packet\<close>),
    Mqtt_Config (client/client_config.rs, utils/rng_generator.rs), Mqtt_Client (client/raw_client.rs and
    client.rs). Mqtt_Unit_Tests: the unit tests of the crate on the model.
  \<^item> sntpc: Sntp (src/lib.rs, types.rs), Sntp_Host (the code behind \<open>std\<close>, src/utils, examples).
    syslog-emb/src: Syslog.
  \<^item> stm32f407_controller/src/bin: Board (statics, types, the global state of config, can_interfaces.rs,
    leds.rs, wdt), Contactor (tasks/mod.rs), Inverter_Tasks (can_processors_solax.rs, _pylontech.rs,
    _pylontech_forceh2.rs), Bms_Tasks (can_processors_ze50.rs, _ze40.rs, _tesla_m3.rs), Modbus
    and Modbus_Gateway (tasks/modbus), Mqtt_Task and Mqtt_Session (tasks/mqtt.rs), Ntp_Task (tasks/ntp), Tcp_Debug (tasks/tcp_debug.rs),
    Display (tasks/display), Controller, Controller_Contactor and Controller_Replies (the tasks of main.rs
    around the contactor as one transition system), Startup (main.rs, hal, build.rs), Controller_Config (config, errors), Byte_Writer (utils/bytes_writer.rs and
    the writers of syslog-emb and mqtt.rs), Http_Server (web/http.rs), Network_Wait (the
    waiting of the network tasks).

  \<^bold>\<open>How code becomes definitions.\<close> A struct is a record and an enum a datatype, with the names of the
  code. A method is a function of its \<open>&mut self\<close> that returns the outcome and the new state. A task
  is an endless loop; its definition is one pass through the loop, or the loop over a list of the
  events it waits for. In the transition system a task that waits in the middle of its work (a timer, a full
  channel) keeps in its state where it is, and the other tasks go on. Integers are words of their width. A panic (a slice out of range, an
  \<open>unwrap\<close> of an error, a \<open>todo!()\<close>) is an outcome like the others, so that a theorem that a call
  succeeds says that it does not panic. An \<open>await\<close> that never completes, and a loop that never
  ends, is \<open>None\<close>.

  \<^bold>\<open>Code from elsewhere\<close> is a parameter: the transport of the MQTT client, the UDP and TCP
  sockets, the serial port and its CRC, the CAN frame type, the battery and inverter protocol crates,
  calendar arithmetic, JSON, and the request and URL parsers. What a theorem relies on is a named
  hypothesis: \<open>stream_transport\<close> (reads deliver a byte stream in pieces), \<open>bms_lawful\<close> (\<open>set_valid\<close>
  sets the flag, the other setters leave it), the peers of the Modbus gateway (a serial slave that
  answers requests, a TCP master that sends them, and their counterparts), \<open>responsive_broker\<close> (a broker
  that answers CONNECT, PINGREQ and PUBLISH), \<open>gets_ready\<close> (a network stack that gets ready to send and
  receive), \<open>zone_calendar\<close> (a time zone with any rule for its offset, which may skip or repeat local hours). Each has
  an instance in a witness.
  Floating-point values are opaque: they are only passed on.

  \<^bold>\<open>Interfaces.\<close> Locale \<open>codec\<close> states that a read undoes a write; the writer and reader operations
  and the properties interpret it. Locale \<open>packet_trait\<close> states what a packet's accessors promise and
  gives the behaviour of the default methods; \<open>packet_encoder\<close> and \<open>packet_codec\<close> state the contract
  of encoders and decoders against the frame on the wire, interpreted by each packet. Locale
  \<open>prefix_writer\<close> is the contract of a writer over a fixed buffer, \<open>request_server\<close> that of a gateway
  that answers one request per turn, interpreted by the bridge, \<open>numbering_server\<close> its extension by consecutive
  numbers, interpreted by the client build, and \<open>contactor_driver\<close> that of a
  task that drives the contactors, interpreted by both tasks and by the transition system.

  \<^bold>\<open>What the lemmas show.\<close>
  \<^item> Contactors: both drivers follow the last signal, the main contactor is powered only after 500 ms of
    precharge, and in a Solax build only after two served requests on fresh battery data; in the
    PylonTech builds never. Battery data is flagged valid exactly after a complete update. For all
    interleavings of the modelled tasks, with the contactor task in its timers and the CAN interfaces waiting
    for room: the hardware is in one of four stages, the precharge takes its 500 ms, a request on stale data makes
    the contactor open, an idle and silent inverter leaves it as it is, and a reply that has been started can be
    completed and then closes the contactor unless the inverter task and its CAN interface wait for each other;
    then they do so for ever.
  \<^item> MQTT: round trips of integers, strings, properties and packets; encoders give exactly the frame
    on the wire; a packet is received whole from a fragmented stream; the publish exchange; packet
    identifiers; a whole session of the controller with its broker, also after failed attempts;
    and the inputs on which the code panics, refuses valid packets or loops.
  \<^item> SNTP: the packet layout round trip, when a reply is accepted, and the error bounds of offset and
    round trip across the wrap-around of the timestamps; what the NTP task sets the clock to; the
    loop of the smoltcp example sends one request and returns with one result on a stack that gets
    ready; the system time is left alone for fractions that are no nanoseconds.
  \<^item> Modbus: two gateways back to back are transparent; both builds serve any number of requests over a
    connection; under consecutive transaction identifiers in the client build; what happens to a connection that breaks; the meter filter and its defects.
  \<^item> Start: which feature sets compile and which tasks they start, the battery limits, clocks, filters.
  \<^item> Writers and web server: what is sent when a text does not fit; how a split request is handled; that a
    worker survives its connections. Debug console: which frames it takes.
  This theory composes the inverter tasks with the contactor tasks.

  \<^bold>\<open>Bounds and fuel.\<close> No definition uses fuel. The loop of \<open>receive_packet\<close> over a packet's body and the
  loop of the smoltcp example may run for ever and are partial functions into \<open>option\<close>; all others are total, and runs of tasks are
  recursions on the list of events, of any length. Capacities are those of the code (\<open>BUF_SIZE\<close>,
  \<open>MODBUS_VEC_SIZE\<close>, \<open>RESPONSE_SIZE\<close> and so on) or, for const generics, variables.

  \<^bold>\<open>Not modelled.\<close> Registers of the peripherals and the pins handed to them (hal), drawing on the panel,
  the network stack behind the sockets, logging, the construction of the sockets and interfaces in the
  examples, and the tests that need a device or a server. They are hardware set-up, calls without
  logic of their own, or not part of the firmware. The code behind \<open>std\<close> of sntpc is read as it is
  written: its socket implementation and \<open>simple_get_time\<close> are synchronous while the trait they use
  is asynchronous, so that it does not compile.
\<close>

section \<open>From the inverter task to the contactor\<close>

text \<open>The signals that a run of the PylonTech task leaves for the contactor task, one pass after the
  other; the contactor task takes each signal before the next pass.\<close>

definition taken :: "('b, 'f) board \<Rightarrow> ('b, 'f) board" where
  "taken B = B\<lparr>contactor_state := None\<rparr>"

fun pylontech_signals :: "('b \<Rightarrow> 'f list) \<Rightarrow> ('i, 'b, 'f) inverter_env \<Rightarrow> (nat \<times> ('b, 'f) board) list \<Rightarrow> bool list" where
  "pylontech_signals iter E [] = []"
| "pylontech_signals iter E ((now, B) # ps) =
     (case contactor_state (pylontech_inverter_rx iter E now (taken B)) of
        None \<Rightarrow> pylontech_signals iter E ps
      | Some v \<Rightarrow> v # pylontech_signals iter E ps)"

lemma pylontech_pass_signals:
  "contactor_state (pylontech_inverter_rx iter E now B) \<in> {contactor_state B, Some False}"
  by (auto simp: pylontech_inverter_rx_def Let_def signal_mqtt_def split: option.splits if_splits)

lemma pylontech_signals_false: "set (pylontech_signals iter E ps) \<subseteq> {False}"
proof (induction iter E ps rule: pylontech_signals.induct)
  case (2 iter E now B ps)
  have "contactor_state (pylontech_inverter_rx iter E now (taken B)) \<in> {None, Some False}"
    using pylontech_pass_signals [of iter E now "taken B"] by (simp add: taken_def)
  with 2 show ?case by (auto split: option.splits)
qed simp

lemma loop_stays_off:
  "set signals \<subseteq> {False} \<Longrightarrow> f False False = ([], False) \<Longrightarrow> contactor_loop f False signals = ([], False)"
  by (induction signals) (auto split: prod.splits)

text \<open>
  C30. In a build for PylonTech, BYD or GoodWe the main contactor is never closed: whatever the
  battery and the inverter send, and however long the controller runs, the signals of the inverter
  task make both contactor tasks perform no action at all, and the contactor stays open.
\<close>

theorem pylontech_never_closes:
  "contactor_main_task d (pylontech_signals iter E ps) = ([], False) \<and>
   contactor_both_task d (pylontech_signals iter E ps) = ([], False) \<and>
   \<not> pwm_on (hw_run (fst (contactor_both_task d (pylontech_signals iter E ps))) hw_reset)"
proof -
  have off: "contactor_loop f False (pylontech_signals iter E ps) = ([], False)" if "f False False = ([], False)" for f
    using that pylontech_signals_false by (intro loop_stays_off)
  show ?thesis by (simp add: contactor_main_task_def contactor_both_task_def off hw_reset_def)
qed

text \<open>The same for the Solax task, whose passes also depend on each other: the signals of a run, each
  taken before the next pass.\<close>

definition emptied :: "('b, 'f) pass list \<Rightarrow> ('b, 'f) pass list" where
  "emptied ps = map (\<lambda>(now, B, frame). (now, taken B, frame)) ps"

definition solax_signals :: "('i, 'b, 'f) inverter_env \<Rightarrow> 'i solax_task \<Rightarrow> ('b, 'f) pass list \<Rightarrow> bool list" where
  "solax_signals E t ps = concat (map (\<lambda>B. case contactor_state B of None \<Rightarrow> [] | Some v \<Rightarrow> [v]) (solax_run E t (emptied ps)))"

lemma length_solax_run [simp]: "length (solax_run E t ps) = length ps"
  by (induction E t ps rule: solax_run.induct) (simp_all split: prod.splits)

lemma last_signal:
  assumes "concat (map (\<lambda>x. case f x of None \<Rightarrow> [] | Some v \<Rightarrow> [v]) xs) \<noteq> []"
  shows "\<exists>i < length xs. f (xs ! i) = Some (last (concat (map (\<lambda>x. case f x of None \<Rightarrow> [] | Some v \<Rightarrow> [v]) xs))) \<and>
    (\<forall>k. i < k \<and> k < length xs \<longrightarrow> f (xs ! k) = None)"
  using assms
proof (induction xs rule: rev_induct)
  case (snoc x xs)
  show ?case
  proof (cases "f x")
    case None
    with snoc obtain i where "i < length xs"
        "f (xs ! i) = Some (last (concat (map (\<lambda>x. case f x of None \<Rightarrow> [] | Some v \<Rightarrow> [v]) xs)))"
        "\<forall>k. i < k \<and> k < length xs \<longrightarrow> f (xs ! k) = None" by auto
    with None show ?thesis by (intro exI [of _ i]) (auto simp: nth_append less_Suc_eq)
  next
    case (Some v)
    then show ?thesis by (intro exI [of _ "length xs"]) (auto simp: nth_append)
  qed
qed simp

text \<open>
  C4. From the battery to the contactor, in a build for Solax or FoxESS. Whenever the main
  contactor is powered after a run of the inverter task and the precharge driver, some pass
  closed it and none signalled since; at that pass the last battery message was at most ten
  seconds old, the request was served, and so was an earlier one, with no request judged and failed between
  (requests refused on stale data signal the contactor to open but are not counted).
\<close>

theorem solax_contactor_closed:
  assumes "\<not> initalised t"
    and "pwm_on (hw_run (fst (contactor_both_task d (solax_signals E t ps))) hw_reset)"
  shows "\<exists>i < length ps. fresh (ienv_hz E) (fst (ps ! i)) (fst (snd (ps ! i))) \<and>
    (let vs = solax_verdicts E t (emptied ps); Bs = solax_run E t (emptied ps) in
     vs ! i = Some True \<and> (\<exists>j < i. vs ! j = Some True \<and> (\<forall>k. j < k \<and> k < i \<longrightarrow> vs ! k = None)) \<and>
     (\<forall>k. i < k \<and> k < length ps \<longrightarrow> contactor_state (Bs ! k) = None))"
proof -
  let ?ps = "emptied ps" let ?Bs = "solax_run E t ?ps"
  have sig: "solax_signals E t ps \<noteq> []" "last (solax_signals E t ps)"
    using assms(2) both_driver.loop_follows [OF settled_reset, of "max_duty d" "solax_signals E t ps"]
    by (simp_all add: contactor_both_task_def)
  obtain i where i: "i < length ps" "contactor_state (?Bs ! i) = Some True"
      "\<forall>k. i < k \<and> k < length ps \<longrightarrow> contactor_state (?Bs ! k) = None"
    using last_signal [OF sig(1) [unfolded solax_signals_def]] sig(2)
    by (auto simp: emptied_def solax_signals_def)
  obtain now B frame where p: "ps ! i = (now, B, frame)" by (cases "ps ! i")
  then have q: "i < length ?ps" "?ps ! i = (now, taken B, frame)" using i(1) by (simp_all add: emptied_def)
  have "contactor_state (taken B) \<noteq> Some True" by (simp add: taken_def)
  note r = solax_true_pass [OF assms(1) q this i(2)]
  moreover have "fresh (ienv_hz E) now B" using r by (simp add: fresh_def taken_def)
  ultimately show ?thesis using i p by (intro exI [of _ i]) (auto simp: Let_def)
qed

theorem solax_contactor_closed_witness:
  "\<exists>i < 2. fresh 1 (fst ([(101 :: nat, sample_board, 0x1871 :: u32), (105, sample_board, 0x1871)] ! i)) sample_board"
proof -
  let ?t = "\<lparr>inverter = (), initalised = False\<rparr>"
  let ?ps = "[(101 :: nat, sample_board, 0x1871 :: u32), (105, sample_board, 0x1871)]"
  have "solax_signals sample_env ?t ?ps = [False, True]"
    by (simp add: solax_signals_def emptied_def taken_def sample_env_def sample_board_def solax_inverter_rx_def solax_respond_def
        solax_finish_def signal_contactor_def signal_mqtt_def Let_def elapsed_secs_def LAST_READING_TIMEOUT_SECS_def)
  then have "pwm_on (hw_run (fst (contactor_both_task 1000 (solax_signals sample_env ?t ?ps))) hw_reset)"
    by (simp add: contactor_both_task_def)
  then obtain i where "i < length ?ps" "fresh (ienv_hz sample_env) (fst (?ps ! i)) (fst (snd (?ps ! i)))"
    using solax_contactor_closed [of ?t 1000 sample_env ?ps] by auto
  then show ?thesis by (intro exI [of _ i]) (auto simp: sample_env_def nth_Cons split: nat.splits)
qed

end
